(* ===== verification/Prelude.thy ===== *)
theory Prelude
  imports Main "HOL-Library.Word" "HOL-Library.Finite_Map"
    "HOL-Library.Char_ord" "HOL-Library.List_Lexorder"
begin

text \<open>
  Shared vocabulary of the development: names for the machine integers and containers of
  the Rust crate, the string operations of the standard library that the crate calls
  (\<open>split\<close>, \<open>split_once\<close>, \<open>strip_prefix\<close>, \<open>rfind\<close>, \<open>contains\<close>, decimal printing),
  and generic facts about lists and finite maps.

  A Rust \<open>String\<close> is a sequence of UTF-8 bytes and so is a HOL \<^typ>\<open>string\<close> here: one
  \<^typ>\<open>char\<close> is one byte, lengths and indices count bytes.  A \<open>HashMap\<close> is a finite map
  \<^typ>\<open>('k, 'v) fmap\<close>; code that iterates over one is given the iteration order as an
  argument (\<open>is_iteration\<close>), since the standard library leaves that order open.
\<close>

section \<open>Machine integers and containers\<close>

type_synonym u8 = "8 word"
type_synonym u16 = "16 word"
type_synonym u32 = "32 word"
type_synonym u64 = "64 word"

text \<open>The bits of a signed integer; \<open>sint\<close> reads them.\<close>

type_synonym i32 = "32 word"
type_synonym i64 = "64 word"

type_synonym ('k, 'v) hash_map = "('k, 'v) fmap"

abbreviation hm_get :: "('k, 'v) hash_map \<Rightarrow> 'k \<Rightarrow> 'v option" where
  "hm_get m k \<equiv> fmlookup m k"

abbreviation hm_contains_key :: "('k, 'v) hash_map \<Rightarrow> 'k \<Rightarrow> bool" where
  "hm_contains_key m k \<equiv> k \<in> fmdom' m"

definition hm_len :: "('k, 'v) hash_map \<Rightarrow> nat" where
  "hm_len m = card (fmdom' m)"

text \<open>
  \<open>is_iteration m xs\<close>: the list \<open>xs\<close> is one of the orders in which iterating over the
  hash map \<open>m\<close> may deliver its entries.
\<close>

definition is_iteration :: "('k, 'v) hash_map \<Rightarrow> ('k \<times> 'v) list \<Rightarrow> bool" where
  "is_iteration m xs \<longleftrightarrow> distinct (map fst xs) \<and> map_of xs = fmlookup m"

lemma is_iteration_set:
  assumes "is_iteration m xs"
  shows "set xs = {(k, v). fmlookup m k = Some v}"
  using assms map_of_eq_Some_iff [of xs] unfolding is_iteration_def by auto

lemma is_iteration_length:
  assumes "is_iteration m xs"
  shows "length xs = hm_len m"
proof -
  have "set (map fst xs) = fmdom' m"
    using assms dom_map_of_conv_image_fst [of xs]
    by (simp add: is_iteration_def flip: dom_fmlookup)
  then show ?thesis
    using assms distinct_card [of "map fst xs"] by (simp add: is_iteration_def hm_len_def)
qed

lemma hm_len_empty [simp]: "hm_len fmempty = 0"
  by (simp add: hm_len_def)

lemma hm_len_upd [simp]:
  "hm_len (fmupd k v m) = (if k \<in> fmdom' m then hm_len m else Suc (hm_len m))"
  by (simp add: hm_len_def card_insert_if)

lemma hm_len_0_iff [simp]: "hm_len m = 0 \<longleftrightarrow> fmdom' m = {}"
  by (simp add: hm_len_def)

section \<open>String operations\<close>

text \<open>\<open>str::split(c)\<close>: the pieces between the separators, at least one.\<close>

fun split_on :: "char \<Rightarrow> string \<Rightarrow> string list" where
  "split_on c [] = [[]]"
| "split_on c (x # xs) =
     (if x = c then [] # split_on c xs
      else (case split_on c xs of [] \<Rightarrow> [[x]] | p # ps \<Rightarrow> (x # p) # ps))"

text \<open>\<open>str::split_once(c)\<close>: around the first separator.\<close>

fun split_once :: "char \<Rightarrow> string \<Rightarrow> (string \<times> string) option" where
  "split_once c [] = None"
| "split_once c (x # xs) =
     (if x = c then Some ([], xs)
      else map_option (\<lambda>(a, b). (x # a, b)) (split_once c xs))"

text \<open>\<open>str::rsplit_once(c)\<close>: around the last separator.\<close>

definition rsplit_once :: "char \<Rightarrow> string \<Rightarrow> (string \<times> string) option" where
  "rsplit_once c s = map_option (\<lambda>(a, b). (rev b, rev a)) (split_once c (rev s))"

text \<open>\<open>str::rfind(c)\<close>: the index of the last occurrence.\<close>

definition rfind :: "char \<Rightarrow> string \<Rightarrow> nat option" where
  "rfind c s = map_option (\<lambda>(a, b). length a) (rsplit_once c s)"

fun strip_prefix :: "string \<Rightarrow> string \<Rightarrow> string option" where
  "strip_prefix [] s = Some s"
| "strip_prefix (p # ps) [] = None"
| "strip_prefix (p # ps) (x # xs) = (if p = x then strip_prefix ps xs else None)"

fun contains_str :: "string \<Rightarrow> string \<Rightarrow> bool" where
  "contains_str [] pat = (pat = [])"
| "contains_str (x # xs) pat = (strip_prefix pat (x # xs) \<noteq> None \<or> contains_str xs pat)"

lemma split_on_not_Nil [simp]: "split_on c s \<noteq> []"
  by (cases s) (auto split: list.splits)

lemma split_on_no_sep: "c \<notin> set s \<Longrightarrow> split_on c s = [s]"
  by (induction s) auto

lemma hd_split_on: "hd (split_on c s) = takeWhile (\<lambda>x. x \<noteq> c) s"
  by (induction s) (auto split: list.splits simp: hd_conv_nth)

lemma split_on_append_sep:
  "split_on c (a @ c # b) = split_on c a @ split_on c b"
  by (induction a) (auto split: list.splits)

lemma split_on_pieces: "p \<in> set (split_on c s) \<Longrightarrow> c \<notin> set p \<and> set p \<subseteq> set s"
proof (induction s arbitrary: p)
  case Nil
  then show ?case by simp
next
  case (Cons x s)
  obtain q qs where qs: "split_on c s = q # qs"
    by (cases "split_on c s") auto
  with Cons.IH [of q] have "c \<notin> set q" "set q \<subseteq> set s"
    by auto
  moreover from qs Cons.IH have "\<And>r. r \<in> set qs \<Longrightarrow> c \<notin> set r \<and> set r \<subseteq> set s"
    by auto
  ultimately show ?case
    using Cons.prems qs by (fastforce split: if_splits)
qed

lemma split_once_no_sep: "c \<notin> set s \<Longrightarrow> split_once c s = None"
  by (induction s) auto

lemma split_once_append: "c \<notin> set a \<Longrightarrow> split_once c (a @ c # b) = Some (a, b)"
  by (induction a) auto

lemma split_once_None_iff: "split_once c s = None \<longleftrightarrow> c \<notin> set s"
  by (induction s) auto

lemma split_once_SomeD:
  "split_once c s = Some (a, b) \<Longrightarrow> s = a @ c # b \<and> c \<notin> set a"
proof (induction s arbitrary: a)
  case Nil
  then show ?case by simp
next
  case (Cons x xs)
  then show ?case by (cases "x = c") auto
qed

lemma rsplit_once_SomeD:
  assumes "rsplit_once c s = Some (a, b)"
  shows "s = a @ c # b \<and> c \<notin> set b"
proof -
  from assms have "split_once c (rev s) = Some (rev b, rev a)"
    by (auto simp: rsplit_once_def)
  then have "rev s = rev b @ c # rev a" and "c \<notin> set (rev b)"
    by (auto dest: split_once_SomeD)
  then have "rev (rev s) = rev (rev b @ c # rev a)" and "c \<notin> set b"
    by simp_all
  then show ?thesis by simp
qed

lemma rsplit_once_None_iff: "rsplit_once c s = None \<longleftrightarrow> c \<notin> set s"
  by (simp add: rsplit_once_def split_once_None_iff)

lemma rfind_SomeD:
  assumes "rfind c s = Some i"
  shows "i < length s \<and> s ! i = c \<and> c \<notin> set (drop (Suc i) s)"
proof -
  from assms obtain a b where ab: "rsplit_once c s = Some (a, b)" and i: "i = length a"
    by (auto simp: rfind_def)
  then show ?thesis
    using rsplit_once_SomeD [OF ab] by (auto simp: nth_append)
qed

lemma strip_prefix_Some_iff: "strip_prefix p s = Some r \<longleftrightarrow> s = p @ r"
  by (induction p s rule: strip_prefix.induct) auto

lemma strip_prefix_append [simp]: "strip_prefix p (p @ r) = Some r"
  by (simp add: strip_prefix_Some_iff)

lemma contains_str_append: "contains_str s pat \<Longrightarrow> contains_str (a @ s) pat"
  by (induction a) auto

lemma contains_str_prefix: "contains_str (pat @ b) pat"
  using strip_prefix_append [of pat b] by (cases "pat @ b") (auto simp del: strip_prefix_append)

lemma contains_str_iff: "contains_str s pat \<longleftrightarrow> (\<exists>a b. s = a @ pat @ b)"
proof
  assume "contains_str s pat"
  then show "\<exists>a b. s = a @ pat @ b"
  proof (induction s)
    case Nil
    then show ?case by simp
  next
    case (Cons x xs)
    show ?case
    proof (cases "strip_prefix pat (x # xs)")
      case None
      with Cons obtain a b where "xs = a @ pat @ b" by auto
      then have "x # xs = (x # a) @ pat @ b" by simp
      then show ?thesis by blast
    next
      case (Some r)
      then have "x # xs = [] @ pat @ r" by (simp add: strip_prefix_Some_iff)
      then show ?thesis by blast
    qed
  qed
next
  assume "\<exists>a b. s = a @ pat @ b"
  then show "contains_str s pat"
    by (auto intro: contains_str_append contains_str_prefix)
qed

section \<open>Decimal printing\<close>

text \<open>\<open>format!("{}", n)\<close> of an unsigned integer.\<close>

definition digit_char :: "nat \<Rightarrow> char" where
  "digit_char d = char_of (48 + d)"

fun dec_string :: "nat \<Rightarrow> string" where
  "dec_string n =
     (if n < 10 then [digit_char n] else dec_string (n div 10) @ [digit_char (n mod 10)])"

declare dec_string.simps [simp del]

definition digit_value :: "char \<Rightarrow> nat" where
  "digit_value c = of_char c - 48"

definition dec_value :: "string \<Rightarrow> nat" where
  "dec_value s = foldl (\<lambda>v c. 10 * v + digit_value c) 0 s"

lemma digit_value_digit_char: "d < 10 \<Longrightarrow> digit_value (digit_char d) = d"
  by (simp add: digit_value_def digit_char_def)

lemma dec_value_dec_string: "dec_value (dec_string n) = n"
proof (induction n rule: dec_string.induct)
  case (1 n)
  show ?case
  proof (cases "n < 10")
    case True
    then show ?thesis
      by (simp add: dec_string.simps [of n] dec_value_def digit_value_digit_char)
  next
    case False
    with "1.IH" have "dec_value (dec_string (n div 10)) = n div 10" by simp
    with False show ?thesis
      by (simp add: dec_string.simps [of n] dec_value_def digit_value_digit_char)
  qed
qed

lemma dec_string_inj: "dec_string m = dec_string n \<longleftrightarrow> m = n"
  by (metis dec_value_dec_string)

lemma dec_string_not_Nil [simp]: "dec_string n \<noteq> []"
  by (subst dec_string.simps) simp

lemma dec_string_digits: "c \<in> set (dec_string n) \<Longrightarrow> \<exists>d<10. c = digit_char d"
proof (induction n rule: dec_string.induct)
  case (1 n)
  then show ?case
    by (cases "n < 10") (auto simp: dec_string.simps [of n] intro: exI [of _ "n mod 10"])
qed

lemma digit_char_range: "d < 10 \<Longrightarrow> 48 \<le> (of_char (digit_char d) :: nat) \<and> (of_char (digit_char d) :: nat) < 58"
  by (simp add: digit_char_def)

section \<open>Runs and invariants\<close>

text \<open>A run of a labelled step relation: the labels in order, and the last state.\<close>

inductive run :: "('s \<Rightarrow> 'l \<Rightarrow> 's \<Rightarrow> bool) \<Rightarrow> 's \<Rightarrow> 'l list \<Rightarrow> 's \<Rightarrow> bool" for step where
  run_Nil: "run step s [] s"
| run_Cons: "step s l t \<Longrightarrow> run step t ls u \<Longrightarrow> run step s (l # ls) u"

inductive_simps run_Nil_iff [simp]: "run step s [] u"
inductive_simps run_Cons_iff: "run step s (l # ls) u"

lemma run_append: "run step s (ls @ ms) u \<longleftrightarrow> (\<exists>t. run step s ls t \<and> run step t ms u)"
  by (induction ls arbitrary: s) (auto simp: run_Cons_iff)

lemma run_appendI: "run step s ls t \<Longrightarrow> run step t ms u \<Longrightarrow> run step s (ls @ ms) u"
  by (auto simp: run_append)

lemma run_snocI: "run step s ls t \<Longrightarrow> step t l u \<Longrightarrow> run step s (ls @ [l]) u"
  by (auto simp: run_append run_Cons_iff)

text \<open>
  The steps allowed by a guard on the state and the label.  An invariant is shown once per
  allowed step and holds along every run of allowed steps; with no guard, along every run.
\<close>

definition guarded :: "('s \<Rightarrow> 'l \<Rightarrow> 's \<Rightarrow> bool) \<Rightarrow> ('s \<Rightarrow> 'l \<Rightarrow> bool) \<Rightarrow> 's \<Rightarrow> 'l \<Rightarrow> 's \<Rightarrow> bool" where
  "guarded step guard s l t \<longleftrightarrow> guard s l \<and> step s l t"

lemma guarded_runI:
  "run step s ls t \<Longrightarrow> (\<And>l s. l \<in> set ls \<Longrightarrow> guard s l) \<Longrightarrow> run (guarded step guard) s ls t"
  by (induction rule: run.induct) (auto simp: run_Cons_iff guarded_def)

lemma guarded_runD: "run (guarded step guard) s ls t \<Longrightarrow> run step s ls t"
  by (induction rule: run.induct) (auto simp: run_Cons_iff guarded_def)

locale guarded_invariant =
  fixes step :: "'s \<Rightarrow> 'l \<Rightarrow> 's \<Rightarrow> bool"
    and guard :: "'s \<Rightarrow> 'l \<Rightarrow> bool"
    and inv :: "'s \<Rightarrow> bool"
  assumes step_inv: "inv s \<Longrightarrow> guard s l \<Longrightarrow> step s l t \<Longrightarrow> inv t"
begin

lemma guarded_run_inv: "run (guarded step guard) s ls t \<Longrightarrow> inv s \<Longrightarrow> inv t"
  by (induction rule: run.induct) (auto simp: guarded_def intro: step_inv)

end

locale step_invariant = guarded_invariant step "\<lambda>_ _. True" inv
  for step :: "'s \<Rightarrow> 'l \<Rightarrow> 's \<Rightarrow> bool" and inv :: "'s \<Rightarrow> bool"
begin

lemma run_inv: "run step s ls t \<Longrightarrow> inv s \<Longrightarrow> inv t"
  by (rule guarded_run_inv) (auto intro: guarded_runI)

end

text \<open>
  A simulation: under an invariant of the detailed steps, every step is a step of the
  specification between the abstracted states, with the same label.
\<close>

locale simulation = step_invariant step inv
  for step :: "'s \<Rightarrow> 'l \<Rightarrow> 's \<Rightarrow> bool" and inv :: "'s \<Rightarrow> bool" +
  fixes spec :: "'a \<Rightarrow> 'l \<Rightarrow> 'a \<Rightarrow> bool" and abs :: "'s \<Rightarrow> 'a"
  assumes sim_step: "inv s \<Longrightarrow> step s l t \<Longrightarrow> spec (abs s) l (abs t)"
begin

lemma sim_run: "run step s ls t \<Longrightarrow> inv s \<Longrightarrow> run spec (abs s) ls (abs t)"
proof (induction rule: run.induct)
  case (run_Cons s l t ls u)
  then show ?case
    using sim_step step_inv by (metis run_Cons_iff)
qed simp

end


text \<open>
  A system whose steps move a part of it by one of its own steps, or leave that part alone:
  \<open>seen l\<close> are the events of the part that a step \<open>l\<close> of the whole can be.
\<close>

locale projection =
  fixes step :: "'s \<Rightarrow> 'l \<Rightarrow> 's \<Rightarrow> bool" and inner :: "'a \<Rightarrow> 'e \<Rightarrow> 'a \<Rightarrow> bool"
    and part :: "'s \<Rightarrow> 'a" and seen :: "'l \<Rightarrow> 'e set"
  assumes part_step: "step s l t \<Longrightarrow> part t = part s \<or> (\<exists>e \<in> seen l. inner (part s) e (part t))"
begin

lemma run_part: "run step s ls t \<Longrightarrow> \<exists>es. run inner (part s) es (part t) \<and> set es \<subseteq> (\<Union>l \<in> set ls. seen l)"
proof (induction rule: run.induct)
  case (run_Nil s)
  show ?case by (intro exI [of _ "[]"]) simp
next
  case (run_Cons s l t ls u)
  then obtain es where es: "run inner (part t) es (part u)" "set es \<subseteq> (\<Union>l \<in> set ls. seen l)" by blast
  from part_step [OF run_Cons(1)] show ?case
  proof
    assume "part t = part s"
    with es show ?thesis by auto
  next
    assume "\<exists>e \<in> seen l. inner (part s) e (part t)"
    then obtain e where "e \<in> seen l" "inner (part s) e (part t)" by blast
    with es show ?thesis by (intro exI [of _ "e # es"]) (auto simp: run_Cons_iff)
  qed
qed

end

text \<open>
  Isolation: some of the events are \<open>own\<close>.  If they do to \<open>same\<close> states the same, and the
  others lead to a state that is still the \<open>same\<close>, then leaving the others out of a run
  changes nothing.
\<close>

locale isolation =
  fixes step :: "'s \<Rightarrow> 'l \<Rightarrow> 's \<Rightarrow> bool" and guard :: "'s \<Rightarrow> 'l \<Rightarrow> bool"
    and own :: "'l \<Rightarrow> bool" and same :: "'s \<Rightarrow> 's \<Rightarrow> bool"
  assumes own_step: "same x y \<Longrightarrow> own l \<Longrightarrow> step x l x' \<Longrightarrow> \<exists>y'. step y l y' \<and> same x' y'"
    and other_step: "same x y \<Longrightarrow> \<not> own l \<Longrightarrow> guard x l \<Longrightarrow> step x l x' \<Longrightarrow> same x' y"
begin

lemma isolated_run:
  "run (guarded step guard) x ls x' \<Longrightarrow> same x y \<Longrightarrow> \<exists>y'. run step y (filter own ls) y' \<and> same x' y'"
proof (induction arbitrary: y rule: run.induct)
  case (run_Cons x l x1 ls x')
  from run_Cons.hyps(1) have s: "step x l x1" and g: "guard x l" by (simp_all add: guarded_def)
  show ?case
  proof (cases "own l")
    case True
    from own_step [OF run_Cons.prems True s] obtain y1 where "step y l y1" "same x1 y1" by blast
    with run_Cons.IH [of y1] True show ?thesis by (auto simp: run_Cons_iff)
  next
    case False
    with other_step [OF run_Cons.prems False g s] run_Cons.IH show ?thesis by simp
  qed
qed auto

end

end
