(* ===== verification/Rust_Text.thy ===== *)
theory Rust_Text
  imports Prelude
begin

text \<open>
  UTF-8 as the standard library treats it: which byte sequences are well formed
  (\<open>str::from_utf8\<close>), the lossy decoding \<open>String::from_utf8_lossy\<close> that replaces every
  maximal malformed part by U+FFFD, slicing \<open>&s[i..j]\<close> with its panic off a character
  boundary, and the encoding of code points, used to write the program's Korean messages.
\<close>

abbreviation byte :: "char \<Rightarrow> nat" where
  "byte c \<equiv> of_char c"

lemma byte_lt: "byte c < 256"
  by (metis mod_less_divisor of_char_mod_256 zero_less_numeral)

lemma char_of_eq_byte: "n < 256 \<Longrightarrow> char_of (n :: nat) = c \<longleftrightarrow> n = byte c"
  using char_of_char [of c] by (metis mod_less of_char_of)

section \<open>Well-formed sequences\<close>

definition is_cont :: "char \<Rightarrow> bool" where
  "is_cont c \<longleftrightarrow> 128 \<le> byte c \<and> byte c < 192"

definition second_ok :: "nat \<Rightarrow> char \<Rightarrow> bool" where
  "second_ok b0 c \<longleftrightarrow>
     (if b0 = 0xE0 then 0xA0 \<le> byte c \<and> byte c \<le> 0xBF
      else if b0 = 0xED then 0x80 \<le> byte c \<and> byte c \<le> 0x9F
      else if b0 = 0xF0 then 0x90 \<le> byte c \<and> byte c \<le> 0xBF
      else if b0 = 0xF4 then 0x80 \<le> byte c \<and> byte c \<le> 0x8F
      else 0x80 \<le> byte c \<and> byte c \<le> 0xBF)"

definition utf8_width :: "nat \<Rightarrow> nat" where
  "utf8_width b =
     (if b < 128 then 1
      else if 0xC2 \<le> b \<and> b \<le> 0xDF then 2
      else if 0xE0 \<le> b \<and> b \<le> 0xEF then 3
      else if 0xF0 \<le> b \<and> b \<le> 0xF4 then 4
      else 0)"

text \<open>
  One step of the standard library's chunk iterator on a non-empty input: whether a
  well-formed character starts here, and how many bytes it, or the malformed part, takes.
\<close>

fun tail_ok :: "nat \<Rightarrow> nat \<Rightarrow> string \<Rightarrow> bool \<times> nat" where
  "tail_ok 0 k s = (True, k)"
| "tail_ok (Suc n) k [] = (False, k)"
| "tail_ok (Suc n) k (c # s) = (if is_cont c then tail_ok n (Suc k) s else (False, k))"

fun utf8_chunk :: "string \<Rightarrow> bool \<times> nat" where
  "utf8_chunk [] = (True, 0)"
| "utf8_chunk (c # s) =
     (let w = utf8_width (byte c) in
      if w = 0 then (False, 1)
      else if w = 1 then (True, 1)
      else case s of [] \<Rightarrow> (False, 1)
        | d # s' \<Rightarrow> if second_ok (byte c) d then tail_ok (w - 2) 2 s' else (False, 1))"

lemma tail_ok_ge: "k \<le> snd (tail_ok n k s)"
  by (induction n k s rule: tail_ok.induct) auto

lemma tail_ok_True: "fst (tail_ok n k s) \<Longrightarrow> snd (tail_ok n k s) = k + n \<and> n \<le> length s"
  by (induction n k s rule: tail_ok.induct) (auto split: if_splits)

lemma tail_ok_append:
  "fst (tail_ok n k s) \<Longrightarrow> tail_ok n k (take n s @ r) = (True, k + n)"
  by (induction n k s rule: tail_ok.induct) (auto split: if_splits)

lemma utf8_chunk_pos: "s \<noteq> [] \<Longrightarrow> 0 < snd (utf8_chunk s)"
  using tail_ok_ge [of 2]
  by (cases s) (auto simp: Let_def split: list.splits intro: less_le_trans [of 0 2])

lemma utf8_chunk_append:
  assumes "fst (utf8_chunk s)" and "s \<noteq> []"
  shows "utf8_chunk (take (snd (utf8_chunk s)) s @ r) = (True, snd (utf8_chunk s))
    \<and> snd (utf8_chunk s) \<le> length s"
proof (cases s)
  case (Cons c t)
  let ?w = "utf8_width (byte c)"
  show ?thesis
  proof (cases "?w \<le> 1")
    case True
    with assms Cons show ?thesis by (cases "?w = 0") (auto simp: Let_def)
  next
    case False
    with assms Cons obtain d u where t: "t = d # u" and d: "second_ok (byte c) d"
      and u: "fst (tail_ok (?w - 2) 2 u)"
      by (cases t) (auto simp: Let_def split: if_splits)
    have len: "utf8_chunk s = tail_ok (?w - 2) 2 u"
      using False Cons t d by (simp add: Let_def)
    have "snd (tail_ok (?w - 2) 2 u) = 2 + (?w - 2) \<and> ?w - 2 \<le> length u"
      using tail_ok_True [OF u] .
    moreover have "tail_ok (?w - 2) 2 (take (?w - 2) u @ r) = (True, 2 + (?w - 2))"
      using tail_ok_append [OF u] .
    ultimately show ?thesis
      using False len Cons t d by (simp add: Let_def)
  qed
qed (use assms in simp)

function valid_utf8 :: "string \<Rightarrow> bool" where
  "valid_utf8 s =
     (if s = [] then True
      else fst (utf8_chunk s) \<and> valid_utf8 (drop (snd (utf8_chunk s)) s))"
  by pat_completeness auto
termination
  by (relation "measure length") (auto simp: utf8_chunk_pos)

declare valid_utf8.simps [simp del]

section \<open>Lossy decoding\<close>

definition replacement :: string where
  "replacement = map char_of [0xEF, 0xBF, 0xBD :: nat]"

function from_utf8_lossy :: "string \<Rightarrow> string" where
  "from_utf8_lossy s =
     (if s = [] then []
      else (if fst (utf8_chunk s) then take (snd (utf8_chunk s)) s else replacement)
        @ from_utf8_lossy (drop (snd (utf8_chunk s)) s))"
  by pat_completeness auto
termination
  by (relation "measure length") (auto simp: utf8_chunk_pos)

declare from_utf8_lossy.simps [simp del]

lemma from_utf8_lossy_Nil [simp]: "from_utf8_lossy [] = []"
  by (simp add: from_utf8_lossy.simps)

lemma from_utf8_lossy_valid: "valid_utf8 s \<Longrightarrow> from_utf8_lossy s = s"
proof (induction s rule: from_utf8_lossy.induct)
  case (1 s)
  then show ?case
    by (cases "s = []") (auto simp: valid_utf8.simps [of s] from_utf8_lossy.simps [of s])
qed

lemma utf8_chunk_replacement: "utf8_chunk (replacement @ r) = (True, 3)"
proof -
  have "tail_ok 1 2 (char_of (0xBD :: nat) # r) = (True, 3)"
    by (simp add: One_nat_def is_cont_def)
  then show ?thesis
    by (simp add: replacement_def utf8_width_def second_ok_def)
qed

lemma valid_utf8_chunk_append:
  assumes "fst (utf8_chunk s)" and "s \<noteq> []" and "valid_utf8 r"
  shows "valid_utf8 (take (snd (utf8_chunk s)) s @ r)"
proof -
  let ?n = "snd (utf8_chunk s)"
  have c: "utf8_chunk (take ?n s @ r) = (True, ?n)" and n: "?n \<le> length s"
    using utf8_chunk_append [OF assms(1,2)] by auto
  have "drop ?n (take ?n s @ r) = r" using n by simp
  with c assms(3) show ?thesis
    by (subst valid_utf8.simps) simp
qed

lemma valid_utf8_lossy: "valid_utf8 (from_utf8_lossy s)"
proof (induction s rule: from_utf8_lossy.induct)
  case (1 s)
  show ?case
  proof (cases "s = []")
    case True
    then show ?thesis by (simp add: from_utf8_lossy.simps valid_utf8.simps)
  next
    case False
    let ?r = "from_utf8_lossy (drop (snd (utf8_chunk s)) s)"
    from False 1 have r: "valid_utf8 ?r" by simp
    then have "valid_utf8 (replacement @ ?r)"
      by (subst valid_utf8.simps) (simp add: utf8_chunk_replacement, simp add: replacement_def)
    with False r show ?thesis
      by (simp add: from_utf8_lossy.simps [of s] valid_utf8_chunk_append)
  qed
qed

lemma from_utf8_lossy_idem: "from_utf8_lossy (from_utf8_lossy s) = from_utf8_lossy s"
  by (intro from_utf8_lossy_valid valid_utf8_lossy)

text \<open>
  What lossy decoding adds is never an ASCII byte, and a result that is all ASCII is the
  input itself: a separator or a dot in the result was already there.
\<close>

lemma from_utf8_lossy_ascii_in:
  "c \<in> set (from_utf8_lossy s) \<Longrightarrow> byte c < 128 \<Longrightarrow> c \<in> set s"
proof (induction s rule: from_utf8_lossy.induct)
  case (1 s)
  show ?case
  proof (cases "s = []")
    case False
    have "set (take n s) \<subseteq> set s" and "set (drop n s) \<subseteq> set s" for n
      by (simp_all add: set_take_subset set_drop_subset)
    moreover have "c \<notin> set replacement"
      using "1.prems"(2) by (auto simp: replacement_def)
    ultimately show ?thesis
      using 1 False by (auto simp: from_utf8_lossy.simps [of s] split: if_splits)
  qed (use 1 in \<open>simp add: from_utf8_lossy.simps\<close>)
qed

lemma from_utf8_lossy_all_ascii:
  "(\<And>c. c \<in> set (from_utf8_lossy s) \<Longrightarrow> byte c < 128) \<Longrightarrow> from_utf8_lossy s = s"
proof (induction s rule: from_utf8_lossy.induct)
  case (1 s)
  show ?case
  proof (cases "s = []")
    case False
    have "\<exists>c \<in> set replacement. \<not> byte c < 128"
      by (simp add: replacement_def)
    with 1(2) False have ok: "fst (utf8_chunk s)"
      by (cases "fst (utf8_chunk s)") (auto simp: from_utf8_lossy.simps [of s])
    with 1 False have "from_utf8_lossy (drop (snd (utf8_chunk s)) s) = drop (snd (utf8_chunk s)) s"
      by (simp add: from_utf8_lossy.simps [of s])
    with ok False show ?thesis
      by (simp add: from_utf8_lossy.simps [of s])
  qed (simp add: from_utf8_lossy.simps)
qed

lemma from_utf8_lossy_Nil_iff [simp]: "from_utf8_lossy s = [] \<longleftrightarrow> s = []"
proof
  assume "from_utf8_lossy s = []"
  then show "s = []" using from_utf8_lossy_all_ascii [of s] by simp
qed (simp add: from_utf8_lossy.simps)

lemma ascii_chunk: "byte c < 128 \<Longrightarrow> utf8_chunk (c # s) = (True, 1)"
  by (simp add: utf8_width_def)

lemma valid_utf8_Nil [simp]: "valid_utf8 []"
  by (simp add: valid_utf8.simps)

lemma valid_utf8_ascii_Cons: "byte c < 128 \<Longrightarrow> valid_utf8 (c # s) = valid_utf8 s"
  by (subst valid_utf8.simps) (simp add: ascii_chunk del: utf8_chunk.simps)

lemma ascii_valid_utf8: "(\<And>c. c \<in> set s \<Longrightarrow> byte c < 128) \<Longrightarrow> valid_utf8 s"
  by (induction s) (simp_all add: valid_utf8_ascii_Cons)

section \<open>Slices\<close>

text \<open>\<open>str::is_char_boundary\<close>, and \<open>&s[i..j]\<close>: \<open>None\<close> is the panic.\<close>

definition is_char_boundary :: "string \<Rightarrow> nat \<Rightarrow> bool" where
  "is_char_boundary s i \<longleftrightarrow>
     i = 0 \<or> i = length s \<or> (i < length s \<and> \<not> is_cont (s ! i))"

definition str_slice :: "string \<Rightarrow> nat \<Rightarrow> nat \<Rightarrow> string option" where
  "str_slice s i j =
     (if i \<le> j \<and> j \<le> length s \<and> is_char_boundary s i \<and> is_char_boundary s j
      then Some (take (j - i) (drop i s)) else None)"

lemma ascii_not_cont: "byte c < 128 \<Longrightarrow> \<not> is_cont c"
  by (simp add: is_cont_def)

lemma str_slice_ascii:
  assumes "\<And>c. c \<in> set s \<Longrightarrow> byte c < 128" and "i \<le> j" and "j \<le> length s"
  shows "str_slice s i j = Some (take (j - i) (drop i s))"
proof -
  have "k < length s \<Longrightarrow> \<not> is_cont (s ! k)" for k
    using assms(1) [of "s ! k"] by (simp add: ascii_not_cont)
  with assms(2,3) show ?thesis
    by (auto simp: str_slice_def is_char_boundary_def)
qed

section \<open>Encoding code points\<close>

definition utf8_char :: "nat \<Rightarrow> string" where
  "utf8_char p = map char_of
     (if p < 0x80 then [p]
      else if p < 0x800 then [0xC0 + p div 64, 0x80 + p mod 64]
      else if p < 0x10000 then [0xE0 + p div 4096, 0x80 + p div 64 mod 64, 0x80 + p mod 64]
      else [0xF0 + p div 262144, 0x80 + p div 4096 mod 64, 0x80 + p div 64 mod 64,
        0x80 + p mod 64])"

definition utf8 :: "nat list \<Rightarrow> string" where
  "utf8 ps = concat (map utf8_char ps)"

lemma utf8_append: "utf8 (ps @ qs) = utf8 ps @ utf8 qs"
  by (simp add: utf8_def)

end
