(* ===== verification/File_System.thy ===== *)
theory File_System
  imports Rust_Text
begin

text \<open>
  The file system as the crate sees it through \<open>std::fs\<close> and \<open>tokio::fs\<close> on a Unix
  target: \<open>Path\<close> operations on byte strings, and a directory of names over a store of
  file contents, so that an open handle keeps its file when the name is removed or
  truncated by another task.  Only files are recorded; \<open>create_dir_all\<close> has no effect
  on them.  Every operation that the operating system can refuse takes the outcome as an
  argument.
\<close>

named_theorems fs_defs \<open>definitions of the file operations\<close>

section \<open>Paths\<close>

text \<open>The components \<open>Path::components\<close> yields after the root: no empty part, no \<open>.\<close>.\<close>

definition path_components :: "string \<Rightarrow> string list" where
  "path_components p = filter (\<lambda>c. c \<noteq> '''' \<and> c \<noteq> ''.'') (split_on CHR ''/'' p)"

definition file_name :: "string \<Rightarrow> string option" where
  "file_name p =
     (if path_components p = [] then None
      else if last (path_components p) = ''..'' then None
      else Some (last (path_components p)))"

text \<open>\<open>Path::extension\<close> of the file name: what follows the last dot, unless that dot leads.\<close>

definition path_extension :: "string \<Rightarrow> string option" where
  "path_extension p = (case file_name p of None \<Rightarrow> None
     | Some n \<Rightarrow> (case rsplit_once CHR ''.'' n of None \<Rightarrow> None
         | Some (stem, ext) \<Rightarrow> if stem = [] then None else Some ext))"

text \<open>\<open>Path::join\<close>: an absolute argument replaces the base.\<close>

definition path_join :: "string \<Rightarrow> string \<Rightarrow> string" where
  "path_join d n =
     (if n \<noteq> [] \<and> hd n = CHR ''/'' then n
      else if d = [] \<or> last d = CHR ''/'' then d @ n
      else d @ ''/'' @ n)"

lemma file_name_SomeD:
  assumes "file_name p = Some n"
  shows "n \<noteq> ''''" and "n \<noteq> ''.''" and "n \<noteq> ''..''" and "CHR ''/'' \<notin> set n"
    and "set n \<subseteq> set p"
proof -
  have n: "n \<in> set (path_components p)" "n \<noteq> ''..''"
    using assms by (auto simp: file_name_def split: if_splits)
  then show "n \<noteq> ''''" "n \<noteq> ''.''" "n \<noteq> ''..''"
    by (auto simp: path_components_def)
  show "CHR ''/'' \<notin> set n" "set n \<subseteq> set p"
    using n(1) split_on_pieces [of n "CHR ''/''" p] by (auto simp: path_components_def)
qed

lemma path_join_inj:
  assumes "CHR ''/'' \<notin> set m" and "CHR ''/'' \<notin> set n"
  shows "path_join d m = path_join d n \<longleftrightarrow> m = n"
  using assms by (cases m; cases n) (auto simp: path_join_def)

lemma path_join_relative:
  assumes "CHR ''/'' \<notin> set n"
  shows "\<exists>pre. path_join d n = pre @ n \<and> (pre = d \<or> pre = d @ ''/'')"
  using assms by (cases n) (auto simp: path_join_def)

lemma split_on_no_empty_tail: "split_on c (a @ [c]) = split_on c a @ [[]]"
  using split_on_append_sep [of c a "[]"] by simp

lemma path_components_join:
  assumes "CHR ''/'' \<notin> set n" and "n \<noteq> ''''" and "n \<noteq> ''.''"
  shows "path_components (path_join d n) = path_components d @ [n]"
proof -
  have n: "split_on CHR ''/'' n = [n]" and hd: "hd n \<noteq> CHR ''/''"
    using assms(1,2) by (auto simp: split_on_no_sep) (metis list.set_sel(1))
  show ?thesis
  proof (cases "d = [] \<or> last d = CHR ''/''")
    case False
    with hd n assms show ?thesis
      using split_on_append_sep [of "CHR ''/''" d n] by (simp add: path_join_def path_components_def)
  next
    case True
    show ?thesis
    proof (cases "d = []")
      case False
      with True have d: "d = butlast d @ [CHR ''/'']"
        by (metis append_butlast_last_id)
      have "split_on CHR ''/'' (d @ n) = split_on CHR ''/'' (butlast d) @ [n]"
        using split_on_append_sep [of "CHR ''/''" "butlast d" n] n d
        by (metis append_Cons append_assoc self_append_conv2)
      moreover have "split_on CHR ''/'' d = split_on CHR ''/'' (butlast d) @ [[]]"
        using split_on_no_empty_tail [of "CHR ''/''" "butlast d"] d by simp
      ultimately show ?thesis
        using True hd assms by (simp add: path_join_def path_components_def)
    qed (use hd n assms in \<open>simp add: path_join_def path_components_def\<close>)
  qed
qed

section \<open>Files\<close>

type_synonym inode = nat

record fs =
  fs_dir :: "(string, inode) fmap"
  fs_data :: "inode \<Rightarrow> string"
  fs_next :: inode

definition fs_empty :: fs where
  "fs_empty = \<lparr>fs_dir = fmempty, fs_data = (\<lambda>_. []), fs_next = 0\<rparr>"

text \<open>Names point to allocated files, no two names to the same one.\<close>

definition fs_ok :: "fs \<Rightarrow> bool" where
  "fs_ok f \<longleftrightarrow> (\<forall>p i. fmlookup (fs_dir f) p = Some i \<longrightarrow> i < fs_next f)
     \<and> (\<forall>p q i. fmlookup (fs_dir f) p = Some i \<longrightarrow> fmlookup (fs_dir f) q = Some i \<longrightarrow> p = q)"

definition fs_exists :: "fs \<Rightarrow> string \<Rightarrow> bool" where
  "fs_exists f p \<longleftrightarrow> fmlookup (fs_dir f) p \<noteq> None"

definition fs_read :: "fs \<Rightarrow> string \<Rightarrow> string option" where
  "fs_read f p = map_option (fs_data f) (fmlookup (fs_dir f) p)"

text \<open>\<open>File::create\<close>: opens for writing, truncating a file that is already there.\<close>

definition fs_create :: "fs \<Rightarrow> string \<Rightarrow> inode \<times> fs" where
  "fs_create f p = (case fmlookup (fs_dir f) p of
       Some i \<Rightarrow> (i, f\<lparr>fs_data := (fs_data f)(i := [])\<rparr>)
     | None \<Rightarrow> (fs_next f,
         f\<lparr>fs_dir := fmupd p (fs_next f) (fs_dir f),
           fs_data := (fs_data f)(fs_next f := []),
           fs_next := Suc (fs_next f)\<rparr>))"

text \<open>A write at a handle's offset; a gap left by a truncation reads as zero bytes.\<close>

definition write_at :: "string \<Rightarrow> nat \<Rightarrow> string \<Rightarrow> string" where
  "write_at c off d =
     take off (c @ replicate (off - length c) (char_of (0 :: nat))) @ d @ drop (off + length d) c"

definition fs_write_at :: "fs \<Rightarrow> inode \<Rightarrow> nat \<Rightarrow> string \<Rightarrow> fs" where
  "fs_write_at f i off d = f\<lparr>fs_data := (fs_data f)(i := write_at (fs_data f i) off d)\<rparr>"

definition fs_remove :: "fs \<Rightarrow> string \<Rightarrow> fs" where
  "fs_remove f p = f\<lparr>fs_dir := fmdrop p (fs_dir f)\<rparr>"

text \<open>
  \<open>fs::write\<close>: create, then write everything.  It may fail to open the file, or after
  some bytes have reached it.
\<close>

datatype write_outcome = W_ok | W_no_open | W_partial nat

definition fs_write_file :: "write_outcome \<Rightarrow> fs \<Rightarrow> string \<Rightarrow> string \<Rightarrow> bool \<times> fs" where
  "fs_write_file w f p d = (case w of
       W_no_open \<Rightarrow> (False, f)
     | W_ok \<Rightarrow> (let (i, g) = fs_create f p in (True, fs_write_at g i 0 d))
     | W_partial n \<Rightarrow> (let (i, g) = fs_create f p in (False, fs_write_at g i 0 (take n d))))"

declare fs_exists_def [fs_defs] fs_read_def [fs_defs] fs_create_def [fs_defs] fs_write_at_def [fs_defs] fs_remove_def [fs_defs]

lemma fs_exists_read: "fs_exists f p \<longleftrightarrow> fs_read f p \<noteq> None"
  by (simp add: fs_exists_def fs_read_def)

lemma fs_exists_dom: "fs_exists f p \<longleftrightarrow> p \<in> fmdom' (fs_dir f)"
  by (simp add: fs_exists_def fmlookup_dom'_iff)

lemma fs_ok_empty [simp]: "fs_ok fs_empty"
  by (simp add: fs_ok_def fs_empty_def)

lemma fs_ok_create: "fs_ok f \<Longrightarrow> fs_ok (snd (fs_create f p))"
  unfolding fs_ok_def fs_create_def
  by (force split: option.splits simp: less_Suc_eq)

lemma fs_ok_write_at: "fs_ok (fs_write_at f i off d) \<longleftrightarrow> fs_ok f"
  by (simp add: fs_ok_def fs_write_at_def)

lemma fs_ok_remove: "fs_ok f \<Longrightarrow> fs_ok (fs_remove f p)"
  unfolding fs_ok_def fs_remove_def by (auto split: if_splits)

lemma write_at_append [simp]: "write_at c (length c) d = c @ d"
  by (simp add: write_at_def)

lemma write_at_Nil_0 [simp]: "write_at [] 0 d = d"
  by (simp add: write_at_def)

text \<open>The handle of a file just created, and what every other name reads.\<close>

lemma fs_create_dir: "fmlookup (fs_dir (snd (fs_create f p))) p = Some (fst (fs_create f p))"
  by (simp add: fs_create_def split: option.split)

lemma fs_create_data: "fs_data (snd (fs_create f p)) (fst (fs_create f p)) = []"
  by (simp add: fs_create_def split: option.split)

lemma fs_create_read: "fs_read (snd (fs_create f p)) p = Some []"
  by (simp add: fs_read_def fs_create_def split: option.split)

lemma fs_create_read_other:
  assumes "fs_ok f" and "q \<noteq> p"
  shows "fs_read (snd (fs_create f p)) q = fs_read f q"
proof (cases "fmlookup (fs_dir f) p")
  case None
  have "fmlookup (fs_dir f) q = Some i \<Longrightarrow> i \<noteq> fs_next f" for i
    using assms(1) by (auto simp: fs_ok_def)
  then show ?thesis
    using None assms(2) by (cases "fmlookup (fs_dir f) q") (auto simp: fs_read_def fs_create_def)
next
  case (Some i)
  have "fmlookup (fs_dir f) q = Some j \<Longrightarrow> j \<noteq> i" for j
    using assms Some by (auto simp: fs_ok_def)
  then show ?thesis
    using Some by (cases "fmlookup (fs_dir f) q") (auto simp: fs_read_def fs_create_def)
qed

lemma fs_write_at_dir [simp]: "fs_dir (fs_write_at f i off d) = fs_dir f"
  by (simp add: fs_write_at_def)

lemma fs_write_at_data: "fs_data (fs_write_at f i off d) j =
    (if j = i then write_at (fs_data f i) off d else fs_data f j)"
  by (simp add: fs_write_at_def)

lemma fs_write_at_read:
  "fmlookup (fs_dir f) p = Some i \<Longrightarrow>
    fs_read (fs_write_at f i off d) p = Some (write_at (fs_data f i) off d)"
  by (simp add: fs_read_def fs_write_at_def)

lemma fs_write_at_read_other:
  "fmlookup (fs_dir f) q \<noteq> Some i \<Longrightarrow> fs_read (fs_write_at f i off d) q = fs_read f q"
  by (cases "fmlookup (fs_dir f) q") (auto simp: fs_read_def fs_write_at_def)

lemma fs_remove_read: "fs_read (fs_remove f p) q = (if q = p then None else fs_read f q)"
  by (simp add: fs_read_def fs_remove_def)

lemma fs_ok_inj:
  "fs_ok f \<Longrightarrow> fmlookup (fs_dir f) p = Some i \<Longrightarrow> q \<noteq> p \<Longrightarrow> fmlookup (fs_dir f) q \<noteq> Some i"
  by (auto simp: fs_ok_def)

lemma fs_write_file_ok:
  "fst (fs_write_file w f p d) \<longleftrightarrow> w = W_ok"
  by (simp add: fs_write_file_def split: write_outcome.split prod.split)

lemma fs_write_file_read:
  "fs_write_file W_ok f p d = (b, g) \<Longrightarrow> fs_read g p = Some d"
  using fs_write_at_read [OF fs_create_dir [of f p], of 0 d]
  by (auto simp: fs_write_file_def fs_create_data split: prod.splits)

lemma fs_write_file_read_other:
  assumes "fs_ok f" and "fs_write_file w f p d = (b, g)" and "q \<noteq> p"
  shows "fs_read g q = fs_read f q"
proof -
  have "fmlookup (fs_dir (snd (fs_create f p))) q \<noteq> Some (fst (fs_create f p))"
    using fs_ok_inj [OF fs_ok_create [OF assms(1)] fs_create_dir assms(3)] .
  then have "fs_read (fs_write_at (snd (fs_create f p)) (fst (fs_create f p)) 0 e) q = fs_read f q" for e
    using fs_create_read_other [OF assms(1,3)] by (simp add: fs_write_at_read_other)
  with assms(2) show ?thesis
    by (auto simp: fs_write_file_def split: write_outcome.splits prod.splits)
qed

lemma fs_write_file_fs_ok:
  "fs_ok f \<Longrightarrow> fs_write_file w f p d = (b, g) \<Longrightarrow> fs_ok g"
  using fs_ok_create [of f p]
  by (auto simp: fs_write_file_def fs_ok_write_at split: write_outcome.splits prod.splits)

end
