(* ===== verification/Protocol.thy ===== *)
theory Protocol
  imports File_System
begin

text \<open>
  \<open>app/rust/src/core/protocol.rs\<close>: the constants and message types of the wire protocol,
  and which announcements a peer accepts.  The JSON text layer is serde_json, which is not
  part of the sources: \<open>decode\<close> takes the parser as an argument.
\<close>

section \<open>Constants\<close>

definition nanos_of_secs :: "nat \<Rightarrow> nat" where
  "nanos_of_secs n = n * 1000000000"

definition APP :: string where "APP = ''easy-send''"

definition VERSION :: string where "VERSION = ''1.0''"

definition ipv4_new :: "u8 \<Rightarrow> u8 \<Rightarrow> u8 \<Rightarrow> u8 \<Rightarrow> u32" where
  "ipv4_new a b c d = or (push_bit 24 (ucast a)) (or (push_bit 16 (ucast b))
     (or (push_bit 8 (ucast c)) (ucast d)))"

definition MULTICAST_GROUP :: u32 where "MULTICAST_GROUP = ipv4_new 224 0 0 168"

definition DISCOVERY_PORT :: u16 where "DISCOVERY_PORT = 53318"

definition SERVICE_PORT :: u16 where "SERVICE_PORT = 53318"

definition API_PREFIX :: string where "API_PREFIX = ''/api/v1''"

definition ANNOUNCE_INTERVAL :: nat where "ANNOUNCE_INTERVAL = nanos_of_secs 5"

definition DEVICE_TTL :: nat where "DEVICE_TTL = nanos_of_secs 15"

definition APPROVAL_TIMEOUT :: nat where "APPROVAL_TIMEOUT = nanos_of_secs 60"

section \<open>Messages\<close>

record peer_info =
  pi_alias :: string
  pi_device_type :: string
  pi_fingerprint :: string
  pi_port :: u16

record announcement =
  an_app :: string
  an_version :: string
  an_info :: peer_info
  an_protocol :: string
  an_announce :: bool

text \<open>
  What the derived deserializer finds in the JSON text of an announcement: every field is
  required but \<open>protocol\<close>, which defaults to \<open>default_scheme()\<close>.
\<close>

record wire_announcement =
  wa_app :: string
  wa_version :: string
  wa_info :: peer_info
  wa_protocol :: "string option"
  wa_announce :: bool

record file_meta =
  fm_name :: string
  fm_size :: u64
  fm_mime :: string

record prepare_upload_request =
  pr_info :: peer_info
  pr_files :: "(string, file_meta) hash_map"

record prepare_upload_response =
  ps_session_id :: string
  ps_tokens :: "(string, string) hash_map"

section \<open>Announcements\<close>

definition default_scheme :: string where "default_scheme = ''https''"

definition announcement_new :: "peer_info \<Rightarrow> bool \<Rightarrow> announcement" where
  "announcement_new info announce =
     \<lparr>an_app = APP, an_version = VERSION, an_info = info,
      an_protocol = default_scheme, an_announce = announce\<rparr>"

text \<open>\<open>split\<close> always yields a first piece, so the \<open>unwrap_or\<close> never applies.\<close>

definition major_of :: "string \<Rightarrow> string" where
  "major_of version = (case split_on CHR ''.'' version of [] \<Rightarrow> version | p # _ \<Rightarrow> p)"

definition compatible :: "announcement \<Rightarrow> bool" where
  "compatible a \<longleftrightarrow> an_app a = APP \<and> major_of (an_version a) = major_of VERSION"

definition announcement_of_wire :: "wire_announcement \<Rightarrow> announcement" where
  "announcement_of_wire w =
     \<lparr>an_app = wa_app w, an_version = wa_version w, an_info = wa_info w,
      an_protocol = (case wa_protocol w of None \<Rightarrow> default_scheme | Some p \<Rightarrow> p),
      an_announce = wa_announce w\<rparr>"

definition wire_of_announcement :: "announcement \<Rightarrow> wire_announcement" where
  "wire_of_announcement a =
     \<lparr>wa_app = an_app a, wa_version = an_version a, wa_info = an_info a,
      wa_protocol = Some (an_protocol a), wa_announce = an_announce a\<rparr>"

definition decode :: "(string \<Rightarrow> wire_announcement option) \<Rightarrow> string \<Rightarrow> announcement option" where
  "decode from_slice data = (case from_slice data of None \<Rightarrow> None
     | Some w \<Rightarrow> (let ann = announcement_of_wire w in if compatible ann then Some ann else None))"

lemma major_of_takeWhile: "major_of v = takeWhile (\<lambda>c. c \<noteq> CHR ''.'') v"
  using hd_split_on [of "CHR ''.''" v]
  by (cases "split_on CHR ''.'' v") (auto simp: major_of_def)

lemma takeWhile_eq_single:
  "x \<noteq> s \<Longrightarrow> takeWhile (\<lambda>c. c \<noteq> s) v = [x] \<longleftrightarrow> v = [x] \<or> (\<exists>r. v = x # s # r)"
  by (cases v; cases "tl v") auto

lemma compatible_iff:
  "compatible a \<longleftrightarrow> an_app a = ''easy-send''
    \<and> (an_version a = ''1'' \<or> (\<exists>r. an_version a = ''1.'' @ r))"
  using takeWhile_eq_single [of "CHR ''1''" "CHR ''.''" "an_version a"]
  by (simp add: compatible_def APP_def VERSION_def major_of_takeWhile)

lemma compatible_new [simp]: "compatible (announcement_new info b)"
  by (simp add: compatible_iff announcement_new_def APP_def VERSION_def)

lemma announcement_of_wire_of [simp]: "announcement_of_wire (wire_of_announcement a) = a"
  by (simp add: announcement_of_wire_def wire_of_announcement_def)

lemma decode_SomeD:
  "decode from_slice data = Some a \<Longrightarrow>
    compatible a \<and> (\<exists>w. from_slice data = Some w \<and> a = announcement_of_wire w)"
  by (auto simp: decode_def Let_def split: option.splits if_splits)

text \<open>
  An announcement is accepted exactly when it parses and comes from the same app with
  major version 1, that is with version 1 or 1.anything; what is accepted is what was
  parsed, with the scheme https where none is given.
\<close>

theorem decode_accepts_iff:
  "(decode from_slice data = Some a) =
    (\<exists>w. from_slice data = Some w \<and> wa_app w = ''easy-send''
      \<and> (wa_version w = ''1'' \<or> (\<exists>r. wa_version w = ''1.'' @ r))
      \<and> a = \<lparr>an_app = wa_app w, an_version = wa_version w, an_info = wa_info w,
             an_protocol = (case wa_protocol w of None \<Rightarrow> ''https'' | Some p \<Rightarrow> p),
             an_announce = wa_announce w\<rparr>)"
  by (auto simp: decode_def Let_def compatible_iff announcement_of_wire_def default_scheme_def
      split: option.splits if_splits)

lemma decode_announcement_new:
  assumes "from_slice data = Some (wire_of_announcement (announcement_new info b))"
  shows "decode from_slice data = Some (announcement_new info b)"
  by (simp add: decode_def assms)

end
