(* ===== verification/Security.thy ===== *)
theory Security
  imports Protocol
begin

text \<open>
  \<open>app/rust/src/core/security.rs\<close>: certificate fingerprints, the device identity kept in
  \<open>cert.pem\<close>/\<open>key.pem\<close>, and the trust-on-first-use store kept in \<open>trusted.json\<close>.
  Hashing (sha2), hex encoding (hex), certificate generation (rcgen), PEM parsing
  (rustls-pemfile) and JSON (serde_json) are arguments of the definitions that use them.
\<close>

section \<open>Fingerprints\<close>

definition fingerprint_of :: "(string \<Rightarrow> string) \<Rightarrow> (string \<Rightarrow> string) \<Rightarrow> string \<Rightarrow> string" where
  "fingerprint_of hex_encode sha256 der = hex_encode (sha256 der)"

section \<open>Trust store\<close>

datatype sec_error = Io_error | Time_format | Missing_cert | Bad_cert | Bad_key | Gen_failed

record trusted_device =
  td_alias :: string
  td_trusted_at :: string

record trust_store =
  ts_path :: string
  ts_devices :: "(string, trusted_device) hash_map"

text \<open>
  \<open>open\<close>: a missing file is an empty store, and so is one that does not parse
  (\<open>unwrap_or_default\<close>); any other read error (\<open>read_fault\<close>) is returned.
\<close>

definition ts_open ::
    "(string \<Rightarrow> (string, trusted_device) hash_map option) \<Rightarrow> bool \<Rightarrow> fs \<Rightarrow> string
      \<Rightarrow> sec_error + trust_store" where
  "ts_open from_slice read_fault f dir =
     (let path = path_join dir ''trusted.json'' in
      if read_fault then Inl Io_error
      else case fs_read f path of
        Some data \<Rightarrow> Inr \<lparr>ts_path = path,
          ts_devices = (case from_slice data of Some m \<Rightarrow> m | None \<Rightarrow> fmempty)\<rparr>
      | None \<Rightarrow> Inr \<lparr>ts_path = path, ts_devices = fmempty\<rparr>)"

definition ts_contains :: "trust_store \<Rightarrow> string \<Rightarrow> bool" where
  "ts_contains ts fp \<longleftrightarrow> hm_contains_key (ts_devices ts) fp"

text \<open>
  \<open>save\<close>: create the parent directory (\<open>mkdir_ok\<close>), then overwrite the file.
\<close>

definition ts_save ::
    "((string, trusted_device) hash_map \<Rightarrow> string) \<Rightarrow> bool \<Rightarrow> write_outcome \<Rightarrow> trust_store \<Rightarrow> fs
      \<Rightarrow> (sec_error + unit) \<times> fs" where
  "ts_save to_vec mkdir_ok w ts f =
     (if \<not> mkdir_ok then (Inl Io_error, f)
      else let (ok, g) = fs_write_file w f (ts_path ts) (to_vec (ts_devices ts)) in
        (if ok then Inr () else Inl Io_error, g))"

text \<open>
  \<open>add\<close>: a known device is left alone; \<open>now\<close> is the formatted current time, \<open>None\<close> if
  formatting failed, which returns before the insertion.
\<close>

definition ts_add ::
    "((string, trusted_device) hash_map \<Rightarrow> string) \<Rightarrow> string option \<Rightarrow> bool \<Rightarrow> write_outcome
      \<Rightarrow> string \<Rightarrow> string \<Rightarrow> trust_store \<Rightarrow> fs \<Rightarrow> (sec_error + unit) \<times> trust_store \<times> fs" where
  "ts_add to_vec now mkdir_ok w fp alias ts f =
     (if ts_contains ts fp then (Inr (), ts, f)
      else case now of None \<Rightarrow> (Inl Time_format, ts, f)
        | Some t \<Rightarrow>
            (let ts' = ts\<lparr>ts_devices :=
                   fmupd fp \<lparr>td_alias = alias, td_trusted_at = t\<rparr> (ts_devices ts)\<rparr>;
                 (r, g) = ts_save to_vec mkdir_ok w ts' f
             in (r, ts', g)))"

definition ts_remove ::
    "((string, trusted_device) hash_map \<Rightarrow> string) \<Rightarrow> bool \<Rightarrow> write_outcome
      \<Rightarrow> string \<Rightarrow> trust_store \<Rightarrow> fs \<Rightarrow> (sec_error + unit) \<times> trust_store \<times> fs" where
  "ts_remove to_vec mkdir_ok w fp ts f =
     (if \<not> ts_contains ts fp then (Inr (), ts, f)
      else let ts' = ts\<lparr>ts_devices := fmdrop fp (ts_devices ts)\<rparr>;
               (r, g) = ts_save to_vec mkdir_ok w ts' f
           in (r, ts', g))"

text \<open>\<open>all\<close>: the entries in the iteration order \<open>it\<close>, sorted stably by approval time.\<close>

definition ts_all :: "(string \<times> trusted_device) list \<Rightarrow> (string \<times> trusted_device) list" where
  "ts_all it = sort_key (\<lambda>e. td_trusted_at (snd e)) it"

lemma ts_all_props:
  assumes "is_iteration (ts_devices ts) it"
  shows "set (ts_all it) = {(fp, d). fmlookup (ts_devices ts) fp = Some d}"
    and "distinct (map fst (ts_all it))"
    and "sorted (map (\<lambda>e. td_trusted_at (snd e)) (ts_all it))"
proof -
  show "set (ts_all it) = {(fp, d). fmlookup (ts_devices ts) fp = Some d}"
    using is_iteration_set [OF assms] by (simp add: ts_all_def)
  show "distinct (map fst (ts_all it))"
    using assms by (simp add: ts_all_def is_iteration_def distinct_map)
  show "sorted (map (\<lambda>e. td_trusted_at (snd e)) (ts_all it))"
    by (simp add: ts_all_def)
qed

subsection \<open>What the operations do to the memory image\<close>

lemma ts_add_known: "ts_contains ts fp \<Longrightarrow> ts_add tv now mk w fp al ts f = (Inr (), ts, f)"
  by (simp add: ts_add_def)

text \<open>The two ways in which an operation leaves the store: as it was, or updated and saved.\<close>

definition ts_insert :: "trust_store \<Rightarrow> string \<Rightarrow> string \<Rightarrow> string \<Rightarrow> trust_store" where
  "ts_insert ts fp alias t = ts\<lparr>ts_devices :=
     fmupd fp \<lparr>td_alias = alias, td_trusted_at = t\<rparr> (ts_devices ts)\<rparr>"

lemma ts_add_cases:
  assumes "ts_add tv now mk w fp al ts f = (r, ts', g)"
  obtains (same) "ts' = ts" "g = f" "ts_contains ts fp \<or> now = None"
      "r = (if ts_contains ts fp then Inr () else Inl Time_format)"
    | (new) t where "\<not> ts_contains ts fp" "now = Some t" "ts' = ts_insert ts fp al t"
      "ts_save tv mk w ts' f = (r, g)"
  using assms
  by (cases "ts_contains ts fp"; cases now)
     (auto simp: ts_add_def ts_insert_def Let_def split_beta)

lemma ts_remove_cases:
  assumes "ts_remove tv mk w fp ts f = (r, ts', g)"
  obtains (same) "ts' = ts" "g = f" "\<not> ts_contains ts fp" "r = Inr ()"
    | (gone) "ts_contains ts fp" "ts' = ts\<lparr>ts_devices := fmdrop fp (ts_devices ts)\<rparr>"
      "ts_save tv mk w ts' f = (r, g)"
  using assms
  by (cases "ts_contains ts fp") (auto simp: ts_remove_def Let_def split_beta)

lemma ts_insert_simps [simp]:
  "ts_path (ts_insert ts fp al t) = ts_path ts"
  "ts_contains (ts_insert ts fp al t) q \<longleftrightarrow> q = fp \<or> ts_contains ts q"
  "hm_get (ts_devices (ts_insert ts fp al t)) q =
     (if q = fp then Some \<lparr>td_alias = al, td_trusted_at = t\<rparr> else hm_get (ts_devices ts) q)"
  by (simp_all add: ts_insert_def ts_contains_def)

lemma ts_add_path [simp]:
  "ts_add tv now mk w fp al ts f = (r, ts', g) \<Longrightarrow> ts_path ts' = ts_path ts"
  by (erule ts_add_cases) simp_all

lemma ts_add_lookup:
  "ts_add tv now mk w fp al ts f = (r, ts', g) \<Longrightarrow>
    hm_get (ts_devices ts') q =
      (if q = fp \<and> \<not> ts_contains ts fp \<and> now \<noteq> None
       then Some \<lparr>td_alias = al, td_trusted_at = the now\<rparr> else hm_get (ts_devices ts) q)"
  by (erule ts_add_cases) auto

lemma ts_contains_add:
  "ts_add tv now mk w fp al ts f = (r, ts', g) \<Longrightarrow>
    ts_contains ts' q \<longleftrightarrow> ts_contains ts q \<or> (q = fp \<and> now \<noteq> None)"
  by (erule ts_add_cases) auto

lemma ts_contains_remove:
  "ts_remove tv mk w fp ts f = (r, ts', g) \<Longrightarrow>
    ts_contains ts' q \<longleftrightarrow> ts_contains ts q \<and> q \<noteq> fp"
  by (erule ts_remove_cases) (auto simp: ts_contains_def)

lemma ts_remove_path [simp]:
  "ts_remove tv mk w fp ts f = (r, ts', g) \<Longrightarrow> ts_path ts' = ts_path ts"
  by (erule ts_remove_cases) simp_all

subsection \<open>What the file holds\<close>

text \<open>The file is in step with the memory image: parsing it gives the devices held.\<close>

definition ts_synced ::
    "(string \<Rightarrow> (string, trusted_device) hash_map option) \<Rightarrow> trust_store \<Rightarrow> fs \<Rightarrow> bool" where
  "ts_synced from_slice ts f \<longleftrightarrow>
     (case fs_read f (ts_path ts) of None \<Rightarrow> ts_devices ts = fmempty
      | Some d \<Rightarrow> (case from_slice d of Some m \<Rightarrow> m | None \<Rightarrow> fmempty) = ts_devices ts)"

lemma ts_open_synced:
  "ts_open fsl rf f dir = Inr ts \<Longrightarrow>
    ts_synced fsl ts f \<and> ts_path ts = path_join dir ''trusted.json''"
  by (auto simp: ts_open_def ts_synced_def Let_def split: if_splits option.splits)

lemma ts_synced_open:
  "ts_synced fsl ts f \<Longrightarrow> ts_path ts = path_join dir ''trusted.json'' \<Longrightarrow>
    ts_open fsl False f dir = Inr ts"
  by (auto simp: ts_open_def ts_synced_def Let_def split: option.splits)

lemma ts_save_read:
  assumes "ts_save tv mk w ts f = (Inr (), g)"
  shows "fs_read g (ts_path ts) = Some (tv (ts_devices ts))"
proof -
  obtain ok g' where r: "fs_write_file w f (ts_path ts) (tv (ts_devices ts)) = (ok, g')"
    by (cases "fs_write_file w f (ts_path ts) (tv (ts_devices ts))")
  with assms have ok: "ok" and g: "g' = g"
    by (simp_all add: ts_save_def split: if_splits)
  with r have "w = W_ok"
    using fs_write_file_ok [of w f "ts_path ts" "tv (ts_devices ts)"] by simp
  with r g show ?thesis
    using fs_write_file_read by blast
qed

subsection \<open>Sequences of operations\<close>

datatype ts_op =
    Ts_add (op_now: "string option") (op_mkdir: bool) (op_write: write_outcome)
      (op_fp: string) (op_alias: string)
  | Ts_remove (op_mkdir: bool) (op_write: write_outcome) (op_fp: string)

fun ts_exec ::
    "((string, trusted_device) hash_map \<Rightarrow> string) \<Rightarrow> ts_op \<Rightarrow> trust_store \<times> fs
      \<Rightarrow> (sec_error + unit) \<times> trust_store \<times> fs" where
  "ts_exec tv (Ts_add now mk w fp al) (ts, f) = ts_add tv now mk w fp al ts f"
| "ts_exec tv (Ts_remove mk w fp) (ts, f) = ts_remove tv mk w fp ts f"

text \<open>A run in which every operation returned \<open>Ok\<close>.\<close>

fun ts_run ::
    "((string, trusted_device) hash_map \<Rightarrow> string) \<Rightarrow> ts_op list \<Rightarrow> trust_store \<times> fs
      \<Rightarrow> (trust_store \<times> fs) option" where
  "ts_run tv [] s = Some s"
| "ts_run tv (x # xs) s = (case ts_exec tv x s of
       (Inr _, s') \<Rightarrow> ts_run tv xs s' | (Inl _, _) \<Rightarrow> None)"

text \<open>The device set after a run, told from the operations alone.\<close>

fun ts_known_after :: "ts_op list \<Rightarrow> string set \<Rightarrow> string set" where
  "ts_known_after [] A = A"
| "ts_known_after (Ts_add now mk w fp al # xs) A = ts_known_after xs (insert fp A)"
| "ts_known_after (Ts_remove mk w fp # xs) A = ts_known_after xs (A - {fp})"

lemma ts_exec_ok:
  assumes "ts_exec tv x (ts, f) = (Inr u, ts', g)"
  shows "(ts' = ts \<and> g = f) \<or> fs_read g (ts_path ts') = Some (tv (ts_devices ts'))"
proof (cases x)
  case (Ts_add now mk w fp al)
  with assms have "ts_add tv now mk w fp al ts f = (Inr (), ts', g)" by simp
  then show ?thesis by (rule ts_add_cases) (auto dest: ts_save_read)
next
  case (Ts_remove mk w fp)
  with assms have "ts_remove tv mk w fp ts f = (Inr (), ts', g)" by simp
  then show ?thesis by (rule ts_remove_cases) (auto dest: ts_save_read)
qed

lemma ts_exec_path: "ts_exec tv x (ts, f) = (r, ts', g) \<Longrightarrow> ts_path ts' = ts_path ts"
  by (cases x) auto

lemma ts_run_ConsE:
  assumes "ts_run tv (x # xs) (ts, f) = Some s"
  obtains ts1 f1 where "ts_exec tv x (ts, f) = (Inr (), ts1, f1)" "ts_run tv xs (ts1, f1) = Some s"
  using assms by (auto split: prod.splits sum.splits)

lemma ts_run_saved:
  "ts_run tv xs (ts, f) = Some (ts', g) \<Longrightarrow> ts_path ts' = ts_path ts
    \<and> ((ts' = ts \<and> g = f) \<or> fs_read g (ts_path ts') = Some (tv (ts_devices ts')))"
proof (induction xs arbitrary: ts f)
  case (Cons x xs)
  from Cons.prems obtain ts1 f1 where 1: "ts_exec tv x (ts, f) = (Inr (), ts1, f1)"
    and r: "ts_run tv xs (ts1, f1) = Some (ts', g)"
    by (rule ts_run_ConsE)
  show ?case
    using Cons.IH [OF r] ts_exec_ok [OF 1] ts_exec_path [OF 1] by metis
qed simp

lemma ts_exec_known:
  assumes "ts_exec tv x (ts, f) = (Inr (), ts1, f1)"
  shows "Collect (ts_contains ts1) = ts_known_after [x] (Collect (ts_contains ts))"
proof (cases x)
  case (Ts_add now mk w fp al)
  with assms have a: "ts_add tv now mk w fp al ts f = (Inr (), ts1, f1)" by simp
  then have "ts_contains ts fp \<or> now \<noteq> None"
    by (rule ts_add_cases) (auto split: if_splits)
  with Ts_add ts_contains_add [OF a] show ?thesis by auto
next
  case (Ts_remove mk w fp)
  with assms have "ts_remove tv mk w fp ts f = (Inr (), ts1, f1)" by simp
  from ts_contains_remove [OF this] Ts_remove show ?thesis by auto
qed

lemma ts_known_after_Cons: "ts_known_after (x # xs) A = ts_known_after xs (ts_known_after [x] A)"
  by (cases x) simp_all

lemma ts_run_known:
  "ts_run tv xs (ts, f) = Some (ts', g) \<Longrightarrow>
    Collect (ts_contains ts') = ts_known_after xs (Collect (ts_contains ts))"
proof (induction xs arbitrary: ts f)
  case (Cons x xs)
  from Cons.prems obtain ts1 f1 where 1: "ts_exec tv x (ts, f) = (Inr (), ts1, f1)"
    and r: "ts_run tv xs (ts1, f1) = Some (ts', g)"
    by (rule ts_run_ConsE)
  show ?case
    using Cons.IH [OF r] ts_exec_known [OF 1] ts_known_after_Cons [of x xs] by simp
qed simp

text \<open>
  C27: The trust store survives a restart. Whatever sequence of approvals and removals
  succeeded since it was opened, opening the folder again gives the same store, and it
  knows exactly the devices the sequence left approved.
\<close>

theorem trust_store_persistent:
  assumes "ts_open from_slice False f dir = Inr ts"
    and "ts_run to_vec ops (ts, f) = Some (ts', g)"
    and "from_slice (to_vec (ts_devices ts')) = Some (ts_devices ts')"
  shows "ts_open from_slice False g dir = Inr ts'
    \<and> Collect (ts_contains ts') = ts_known_after ops (Collect (ts_contains ts))"
proof -
  have p: "ts_path ts' = path_join dir ''trusted.json''"
    and o: "(ts' = ts \<and> g = f) \<or> fs_read g (ts_path ts') = Some (to_vec (ts_devices ts'))"
    using ts_run_saved [OF assms(2)] ts_open_synced [OF assms(1)] by auto
  from o have "ts_synced from_slice ts' g"
    using ts_open_synced [OF assms(1)] assms(3) by (auto simp: ts_synced_def)
  with p ts_run_known [OF assms(2)] show ?thesis by (simp add: ts_synced_open)
qed

text \<open>
  The recorded approval time is that of the first approval: adding a device again, under
  whatever alias and at whatever time, changes neither the store nor the file, and adding
  one device changes no other entry.
\<close>

theorem trust_add_first_approval:
  assumes "ts_add to_vec now mk w fp al ts f = (r, ts', g)"
  shows "(ts_contains ts fp \<longrightarrow> r = Inr () \<and> ts' = ts \<and> g = f)
    \<and> (\<not> ts_contains ts fp \<and> now = Some t \<longrightarrow>
        hm_get (ts_devices ts') fp = Some \<lparr>td_alias = al, td_trusted_at = t\<rparr>)
    \<and> (q \<noteq> fp \<longrightarrow> hm_get (ts_devices ts') q = hm_get (ts_devices ts) q)"
  using assms ts_add_lookup [OF assms] by (auto simp: ts_add_known)

text \<open>
  The device list of the settings tab holds every trusted device exactly once, in the
  order of approval, whatever order the hash map iterates in.
\<close>

theorem trust_list_complete_sorted:
  assumes "is_iteration (ts_devices ts) it"
  shows "set (ts_all it) = {(fp, d). hm_get (ts_devices ts) fp = Some d}
    \<and> distinct (map fst (ts_all it)) \<and> length (ts_all it) = hm_len (ts_devices ts)
    \<and> sorted (map (\<lambda>e. td_trusted_at (snd e)) (ts_all it))"
  using ts_all_props [OF assms] is_iteration_length [OF assms] by (simp add: ts_all_def)

section \<open>The interface of a trust registry\<close>

text \<open>
  What the receiver relies on: recording a device makes it known and changes nothing else.
\<close>

locale trust_registry =
  fixes known :: "'t \<Rightarrow> string \<Rightarrow> bool"
    and record_device :: "string \<Rightarrow> string \<Rightarrow> 't \<Rightarrow> 't"
  assumes known_record: "known (record_device fp al t) fp"
    and known_mono: "known t q \<Longrightarrow> known (record_device fp al t) q"
    and known_only: "known (record_device fp al t) q \<Longrightarrow> q = fp \<or> known t q"
begin

lemma known_record_iff: "known (record_device fp al t) q \<longleftrightarrow> q = fp \<or> known t q"
  using known_record known_mono known_only by blast

lemma known_fold:
  "known (fold (\<lambda>(fp, al). record_device fp al) ds t) q \<longleftrightarrow> q \<in> fst ` set ds \<or> known t q"
  by (induction ds arbitrary: t) (auto simp: known_record_iff)

end

text \<open>The store provides it, whether or not the file could be written.\<close>

definition ts_record ::
    "((string, trusted_device) hash_map \<Rightarrow> string) \<Rightarrow> string \<Rightarrow> bool \<Rightarrow> write_outcome \<Rightarrow> fs
      \<Rightarrow> string \<Rightarrow> string \<Rightarrow> trust_store \<Rightarrow> trust_store" where
  "ts_record tv now mk w f fp al ts = fst (snd (ts_add tv (Some now) mk w fp al ts f))"

lemma ts_contains_record:
  "ts_contains (ts_record tv now mk w f fp al ts) q \<longleftrightarrow> q = fp \<or> ts_contains ts q"
  using ts_contains_add [of tv "Some now" mk w fp al ts f _ "ts_record tv now mk w f fp al ts" _ q]
  by (metis option.distinct(1) prod.collapse ts_record_def)

interpretation store_registry: trust_registry ts_contains "ts_record tv now mk w f"
  for tv now mk w f
  by unfold_locales (simp_all add: ts_contains_record)

section \<open>Device identity\<close>

record identity =
  id_cert_der :: string
  id_key_pem :: string
  id_fingerprint :: string

text \<open>What the outside world answers during \<open>load_or_create\<close>.\<close>

record identity_io =
  ii_cert_fault :: bool
  ii_key_fault :: bool
  ii_mkdir_ok :: bool
  ii_generated :: "(string \<times> string \<times> string) option"
  ii_cert_write :: write_outcome
  ii_key_write :: write_outcome

text \<open>
  \<open>pem_certs\<close> is the first item of \<open>rustls_pemfile::certs\<close>: none, a parse error
  (\<open>Some None\<close>) or a certificate.  \<open>ii_generated\<close> is what rcgen delivers: the
  certificate as DER and as PEM, and the key as PEM.
\<close>

definition load_or_create ::
    "(string \<Rightarrow> string) \<Rightarrow> (string \<Rightarrow> string) \<Rightarrow> (string \<Rightarrow> string option option)
      \<Rightarrow> identity_io \<Rightarrow> fs \<Rightarrow> string \<Rightarrow> (sec_error + identity) \<times> fs" where
  "load_or_create hexe sha pem_certs io f dir =
     (let cert_path = path_join dir ''cert.pem''; key_path = path_join dir ''key.pem'' in
      if fs_exists f cert_path then
        (case (if ii_cert_fault io then None else fs_read f cert_path) of
           None \<Rightarrow> Inl Io_error
         | Some cert_pem \<Rightarrow>
             (case (if ii_key_fault io then None else fs_read f key_path) of
                None \<Rightarrow> Inl Io_error
              | Some key_pem \<Rightarrow>
                  if \<not> valid_utf8 key_pem then Inl Io_error
                  else (case pem_certs cert_pem of
                      None \<Rightarrow> Inl Missing_cert
                    | Some None \<Rightarrow> Inl Bad_cert
                    | Some (Some der) \<Rightarrow>
                        Inr \<lparr>id_cert_der = der, id_key_pem = key_pem,
                          id_fingerprint = fingerprint_of hexe sha der\<rparr>)), f)
      else if \<not> ii_mkdir_ok io then (Inl Io_error, f)
      else (case ii_generated io of None \<Rightarrow> (Inl Gen_failed, f)
        | Some (der, cert_pem, key_pem) \<Rightarrow>
            (let (ok1, g) = fs_write_file (ii_cert_write io) f cert_path cert_pem in
             if \<not> ok1 then (Inl Io_error, g)
             else let (ok2, h) = fs_write_file (ii_key_write io) g key_path key_pem in
               if \<not> ok2 then (Inl Io_error, h)
               else (Inr \<lparr>id_cert_der = der, id_key_pem = key_pem,
                       id_fingerprint = fingerprint_of hexe sha der\<rparr>, h))))"

text \<open>
  \<open>server_config\<close>: \<open>pem_key\<close> is \<open>rustls_pemfile::private_key\<close> (\<open>None\<close> a parse error,
  \<open>Some None\<close> no key), \<open>single_cert\<close> builds the rustls configuration.
\<close>

definition server_config ::
    "(string \<Rightarrow> string option option) \<Rightarrow> (string \<Rightarrow> string \<Rightarrow> 'cfg option) \<Rightarrow> identity
      \<Rightarrow> sec_error + 'cfg" where
  "server_config pem_key single_cert ident =
     (case pem_key (id_key_pem ident) of
        None \<Rightarrow> Inl Bad_key
      | Some None \<Rightarrow> Inl Bad_key
      | Some (Some key) \<Rightarrow>
          (case single_cert (id_cert_der ident) key of None \<Rightarrow> Inl Bad_key | Some c \<Rightarrow> Inr c))"

lemma path_join_cert_key: "path_join dir ''cert.pem'' \<noteq> path_join dir ''key.pem''"
  by (subst path_join_inj) auto

lemma load_or_create_created:
  assumes "load_or_create hexe sha pem io f dir = (Inr ident, g)"
    and "\<not> fs_exists f (path_join dir ''cert.pem'')" and "fs_ok f"
    and "ii_generated io = Some (der, cert_pem, key_pem)"
  shows "fs_read g (path_join dir ''cert.pem'') = Some cert_pem"
    and "fs_read g (path_join dir ''key.pem'') = Some key_pem"
    and "ident = \<lparr>id_cert_der = der, id_key_pem = key_pem,
      id_fingerprint = fingerprint_of hexe sha der\<rparr>"
proof -
  let ?c = "path_join dir ''cert.pem''" and ?k = "path_join dir ''key.pem''"
  obtain b1 f1 where 1: "fs_write_file (ii_cert_write io) f ?c cert_pem = (b1, f1)"
    by (cases "fs_write_file (ii_cert_write io) f ?c cert_pem")
  obtain b2 f2 where 2: "fs_write_file (ii_key_write io) f1 ?k key_pem = (b2, f2)"
    by (cases "fs_write_file (ii_key_write io) f1 ?k key_pem")
  have b: "b1" "b2" "g = f2" and ident: "ident = \<lparr>id_cert_der = der, id_key_pem = key_pem,
      id_fingerprint = fingerprint_of hexe sha der\<rparr>"
    using assms(1,2,4) 1 2 by (auto simp: load_or_create_def Let_def split: if_splits)
  have w: "ii_cert_write io = W_ok" "ii_key_write io = W_ok"
    using b 1 2 fs_write_file_ok by (metis fst_conv)+
  have "fs_read f1 ?c = Some cert_pem" and ok: "fs_ok f1"
    using 1 w fs_write_file_read fs_write_file_fs_ok assms(3) by metis+
  then show "fs_read g ?c = Some cert_pem"
    using fs_write_file_read_other [OF ok 2 path_join_cert_key] b(3) by simp
  show "fs_read g ?k = Some key_pem"
    using 2 w b(3) fs_write_file_read by metis
  show "ident = \<lparr>id_cert_der = der, id_key_pem = key_pem,
      id_fingerprint = fingerprint_of hexe sha der\<rparr>" by (rule ident)
qed

text \<open>
  A device keeps its identity. Once a first start has created certificate and key, every
  later start from the same folder that can read them gives the same identity, so the same
  fingerprint, and writes nothing.
\<close>

theorem identity_stable:
  assumes "load_or_create hexe sha pem_certs io f dir = (Inr ident, g)"
    and "\<not> fs_exists f (path_join dir ''cert.pem'')" and "fs_ok f"
    and "ii_generated io = Some (der, cert_pem, key_pem)"
    and "pem_certs cert_pem = Some (Some der)" and "valid_utf8 key_pem"
    and "\<not> ii_cert_fault io'" and "\<not> ii_key_fault io'"
  shows "load_or_create hexe sha pem_certs io' g dir = (Inr ident, g)
    \<and> id_fingerprint ident = fingerprint_of hexe sha der"
  using load_or_create_created [OF assms(1-4)] assms(5-8)
  by (simp add: load_or_create_def Let_def fs_exists_read)

lemma load_or_create_half_state:
  assumes "fs_exists f (path_join dir ''cert.pem'')" and "fs_read f (path_join dir ''key.pem'') = None"
  shows "load_or_create hexe sha pem io f dir = (Inl Io_error, f)"
  using assms by (simp add: load_or_create_def Let_def split: option.split)

text \<open>
  The certificate and the key are not written together. When the certificate was written
  but opening the key file failed, every later start fails too, and changes nothing: the
  device has no identity until someone deletes the file.
\<close>

theorem identity_half_written_stuck:
  assumes "\<not> fs_exists f (path_join dir ''cert.pem'')" and "\<not> fs_exists f (path_join dir ''key.pem'')"
    and "fs_ok f" and "ii_mkdir_ok io" and "ii_generated io = Some (der, cert_pem, key_pem)"
    and "ii_cert_write io = W_ok" and "ii_key_write io = W_no_open"
  shows "\<exists>g. load_or_create hexe sha pem_certs io f dir = (Inl Io_error, g)
    \<and> (\<forall>io'. load_or_create hexe sha pem_certs io' g dir = (Inl Io_error, g))"
proof -
  let ?c = "path_join dir ''cert.pem''" and ?k = "path_join dir ''key.pem''"
  obtain b g where w: "fs_write_file W_ok f ?c cert_pem = (b, g)"
    by (cases "fs_write_file W_ok f ?c cert_pem")
  then have "b" using fs_write_file_ok [of W_ok f ?c cert_pem] by simp
  with w assms have l: "load_or_create hexe sha pem_certs io f dir = (Inl Io_error, g)"
    by (simp add: load_or_create_def Let_def fs_write_file_def)
  have "fs_exists g ?c" using fs_write_file_read [OF w] by (simp add: fs_exists_read)
  moreover have "fs_read g ?k = None"
    using fs_write_file_read_other [OF assms(3) w path_join_cert_key [symmetric]] assms(2)
    by (simp add: fs_exists_read)
  ultimately show ?thesis using l load_or_create_half_state by blast
qed

end
