(* ===== verification/Url_Query.thy ===== *)
theory Url_Query
  imports Protocol
begin

text \<open>
  The query string parser of \<open>app/rust/src/core/transfer/recv.rs\<close> (\<open>query_params\<close>,
  \<open>url_decode\<close>).  A result \<open>None\<close> is a panic: the slice that reads the two digits of an
  escape is taken by byte index.
\<close>

section \<open>Hexadecimal digits\<close>

text \<open>\<open>char::to_digit(16)\<close>.\<close>

definition hex_digit :: "char \<Rightarrow> nat option" where
  "hex_digit c =
     (let b = byte c in
      if 48 \<le> b \<and> b \<le> 57 then Some (b - 48)
      else if 97 \<le> b \<and> b \<le> 102 then Some (b - 87)
      else if 65 \<le> b \<and> b \<le> 70 then Some (b - 55)
      else None)"

fun hex_digits :: "nat \<Rightarrow> string \<Rightarrow> nat option" where
  "hex_digits v [] = Some v"
| "hex_digits v (c # s) = (case hex_digit c of None \<Rightarrow> None
     | Some d \<Rightarrow> if 16 * v + d > 255 then None else hex_digits (16 * v + d) s)"

text \<open>\<open>u8::from_str_radix(s, 16)\<close>: one leading plus sign is accepted, a minus sign is not.\<close>

fun from_str_radix_16 :: "string \<Rightarrow> nat option" where
  "from_str_radix_16 [] = None"
| "from_str_radix_16 (c # s) =
     (if c = CHR ''+'' then (if s = [] then None else hex_digits 0 s)
      else hex_digits 0 (c # s))"

section \<open>Decoding\<close>

text \<open>The loop of \<open>url_decode\<close> from byte index \<open>i\<close>: the bytes it pushes.\<close>

function url_decode_bytes :: "string \<Rightarrow> nat \<Rightarrow> string option" where
  "url_decode_bytes s i =
     (if length s \<le> i then Some []
      else if s ! i = CHR ''%'' \<and> i + 2 < length s then
        (case str_slice s (i + 1) (i + 3) of
           None \<Rightarrow> None
         | Some h \<Rightarrow>
             (case from_str_radix_16 h of
                Some b \<Rightarrow> map_option (Cons (char_of b)) (url_decode_bytes s (i + 3))
              | None \<Rightarrow> map_option (Cons (s ! i)) (url_decode_bytes s (i + 1))))
      else if s ! i = CHR ''+'' then map_option (Cons (CHR '' '')) (url_decode_bytes s (i + 1))
      else map_option (Cons (s ! i)) (url_decode_bytes s (i + 1)))"
  by pat_completeness auto
termination
  by (relation "measure (\<lambda>(s, i). length s - i)") auto

declare url_decode_bytes.simps [simp del]

definition url_decode :: "string \<Rightarrow> string option" where
  "url_decode s = map_option from_utf8_lossy (url_decode_bytes s 0)"

text \<open>The pairs in order; a piece without \<open>=\<close> is skipped.\<close>

fun query_pairs :: "string list \<Rightarrow> (string \<times> string) list option" where
  "query_pairs [] = Some []"
| "query_pairs (p # ps) = (case split_once CHR ''='' p of
       None \<Rightarrow> query_pairs ps
     | Some (k, v) \<Rightarrow>
         (case url_decode k of None \<Rightarrow> None
          | Some k' \<Rightarrow> (case url_decode v of None \<Rightarrow> None
             | Some v' \<Rightarrow> map_option (Cons (k', v')) (query_pairs ps))))"

text \<open>\<open>collect\<close> into a hash map: a later pair with the same key wins.\<close>

definition query_params :: "string \<Rightarrow> (string, string) hash_map option" where
  "query_params query =
     map_option (foldl (\<lambda>m (k, v). fmupd k v m) fmempty) (query_pairs (split_on CHR ''&'' query))"

text \<open>\<open>query.get(key).cloned().unwrap_or_default()\<close>.\<close>

definition param_or_default :: "(string, string) hash_map \<Rightarrow> string \<Rightarrow> string" where
  "param_or_default m k = (case hm_get m k of None \<Rightarrow> [] | Some v \<Rightarrow> v)"

section \<open>When it cannot panic\<close>

text \<open>An all-ASCII text never makes the slice panic.\<close>

definition ascii :: "string \<Rightarrow> bool" where
  "ascii s \<longleftrightarrow> (\<forall>c \<in> set s. byte c < 128)"

lemma ascii_Nil [simp]: "ascii []"
  and ascii_Cons [simp]: "ascii (c # s) \<longleftrightarrow> byte c < 128 \<and> ascii s"
  and ascii_append [simp]: "ascii (s @ t) \<longleftrightarrow> ascii s \<and> ascii t"
  by (auto simp: ascii_def)

lemma ascii_slice:
  "ascii s \<Longrightarrow> Suc (Suc i) < length s \<Longrightarrow>
    str_slice s (Suc i) (i + 3) = Some (take 2 (drop (Suc i) s))"
  using str_slice_ascii [of s "i + 1" "i + 3"] by (simp add: ascii_def)

lemma url_decode_bytes_ascii: "ascii s \<Longrightarrow> \<exists>r. url_decode_bytes s i = Some r"
proof (induction s i rule: url_decode_bytes.induct)
  case (1 s i)
  then show ?case
    by (subst url_decode_bytes.simps) (auto simp: ascii_slice split: option.split)
qed

lemma query_pairs_ascii: "(\<And>p. p \<in> set ps \<Longrightarrow> ascii p) \<Longrightarrow> \<exists>r. query_pairs ps = Some r"
proof (induction ps)
  case (Cons p ps)
  then obtain r where r: "query_pairs ps = Some r" by auto
  show ?case
  proof (cases "split_once CHR ''='' p")
    case (Some kv)
    then obtain k v where kv: "split_once CHR ''='' p = Some (k, v)" by (cases kv) auto
    with split_once_SomeD [OF kv] Cons.prems [of p] have "ascii k" "ascii v" by auto
    then show ?thesis
      using url_decode_bytes_ascii [of k 0] url_decode_bytes_ascii [of v 0] kv r
      by (auto simp: url_decode_def)
  qed (use r in simp)
qed simp

section \<open>What it decodes\<close>

lemma url_decode_bytes_plain:
  "CHR ''%'' \<notin> set s \<Longrightarrow> CHR ''+'' \<notin> set s \<Longrightarrow> url_decode_bytes s i = Some (drop i s)"
proof (induction s i rule: url_decode_bytes.induct)
  case (1 s i)
  show ?case
  proof (cases "length s \<le> i")
    case True
    then show ?thesis by (subst url_decode_bytes.simps) simp
  next
    case False
    then have "s ! i \<noteq> CHR ''%''" "s ! i \<noteq> CHR ''+''"
      using "1.prems" by (metis linorder_not_less nth_mem)+
    with 1 False show ?thesis
      by (subst url_decode_bytes.simps) (simp add: Cons_nth_drop_Suc)
  qed
qed

lemma url_decode_plain:
  "valid_utf8 s \<Longrightarrow> CHR ''%'' \<notin> set s \<Longrightarrow> CHR ''+'' \<notin> set s \<Longrightarrow> url_decode s = Some s"
  by (simp add: url_decode_def url_decode_bytes_plain from_utf8_lossy_valid)

text \<open>
  The standard percent-encoding of a byte string: bytes in \<open>keep\<close> stand for themselves,
  every other byte is escaped, with upper or lower case digits.
\<close>

definition hex_char :: "bool \<Rightarrow> nat \<Rightarrow> char" where
  "hex_char upper d = char_of (if d < 10 then 48 + d else if upper then 55 + d else 87 + d)"

definition pct_byte :: "bool \<Rightarrow> (char \<Rightarrow> bool) \<Rightarrow> char \<Rightarrow> string" where
  "pct_byte upper keep c =
     (if keep c then [c]
      else [CHR ''%'', hex_char upper (byte c div 16), hex_char upper (byte c mod 16)])"

definition pct_encode :: "bool \<Rightarrow> (char \<Rightarrow> bool) \<Rightarrow> string \<Rightarrow> string" where
  "pct_encode upper keep s = concat (map (pct_byte upper keep) s)"

lemma byte_hex_char: "d < 16 \<Longrightarrow>
    byte (hex_char up d) = (if d < 10 then 48 + d else if up then 55 + d else 87 + d)"
  by (auto simp: hex_char_def)

lemma hex_digit_hex_char: "d < 16 \<Longrightarrow> hex_digit (hex_char up d) = Some d"
  by (auto simp: hex_digit_def byte_hex_char)

lemma hex_char_ascii: "d < 16 \<Longrightarrow> byte (hex_char up d) < 128"
  by (auto simp: byte_hex_char)

lemma hex_char_not_plus: "d < 16 \<Longrightarrow> hex_char up d \<noteq> CHR ''+''"
  using byte_hex_char [of d up] by (auto split: if_splits)

lemma from_str_radix_pct:
  assumes "a < 16" and "b < 16"
  shows "from_str_radix_16 [hex_char up a, hex_char up b] = Some (16 * a + b)"
  using assms by (simp add: hex_char_not_plus hex_digit_hex_char)

lemma ascii_pct_encode:
  "(\<And>c. keep c \<Longrightarrow> byte c < 128) \<Longrightarrow> ascii (pct_encode up keep s)"
  using byte_lt by (induction s) (auto simp: pct_encode_def pct_byte_def hex_char_ascii less_mult_imp_div_less)

lemma url_decode_bytes_pct:
  assumes keep: "\<And>c. keep c \<Longrightarrow> byte c < 128 \<and> c \<noteq> CHR ''%'' \<and> c \<noteq> CHR ''+''"
  shows "ascii pre \<Longrightarrow>
    url_decode_bytes (pre @ pct_encode up keep s) (length pre) = Some s"
proof (induction s arbitrary: pre)
  case Nil
  then show ?case by (subst url_decode_bytes.simps) (simp add: pct_encode_def)
next
  case (Cons c s)
  let ?t = "pct_encode up keep s"
  have asc: "ascii ?t" using ascii_pct_encode keep by blast
  show ?case
  proof (cases "keep c")
    case True
    have "url_decode_bytes ((pre @ [c]) @ ?t) (length (pre @ [c])) = Some s"
      using Cons.IH [of "pre @ [c]"] Cons.prems keep [OF True] by simp
    with True keep [OF True] show ?thesis
      by (subst url_decode_bytes.simps) (simp add: pct_encode_def pct_byte_def nth_append)
  next
    case False
    let ?h = "hex_char up (byte c div 16)" and ?l = "hex_char up (byte c mod 16)"
    have d: "byte c div 16 < 16" "byte c mod 16 < 16"
      using byte_lt [of c] by (auto simp: less_mult_imp_div_less)
    let ?w = "pre @ CHR ''%'' # ?h # ?l # ?t"
    have "url_decode_bytes ((pre @ [CHR ''%'', ?h, ?l]) @ ?t) (length (pre @ [CHR ''%'', ?h, ?l])) = Some s"
      using Cons.IH [of "pre @ [CHR ''%'', ?h, ?l]"] Cons.prems d by (simp add: hex_char_ascii)
    then have IH: "url_decode_bytes ?w (length pre + 3) = Some s"
      by (simp add: numeral_3_eq_3)
    have "ascii ?w" using Cons.prems asc d by (simp add: hex_char_ascii)
    then have "str_slice ?w (length pre + 1) (length pre + 3) = Some [?h, ?l]"
      using ascii_slice [of ?w "length pre"] by (simp add: numeral_2_eq_2)
    moreover have "from_str_radix_16 [?h, ?l] = Some (byte c)"
      using from_str_radix_pct [OF d] by simp
    ultimately have "url_decode_bytes ?w (length pre) = Some (c # s)"
      using IH by (subst url_decode_bytes.simps) (simp add: nth_append)
    with False show ?thesis by (simp add: pct_encode_def pct_byte_def)
  qed
qed

text \<open>
  C36: Any standard percent-encoding of a text is decoded back to the text, whichever
  unreserved bytes it keeps and whichever case its digits have.
\<close>

theorem url_decode_pct_roundtrip:
  assumes "\<And>c. keep c \<Longrightarrow> byte c < 128 \<and> c \<noteq> CHR ''%'' \<and> c \<noteq> CHR ''+''"
    and "valid_utf8 s"
  shows "url_decode (pct_encode upper keep s) = Some s"
  using url_decode_bytes_pct [OF assms(1), of keep "[]" upper s] assms(2)
  by (simp add: url_decode_def from_utf8_lossy_valid)

lemma url_decode_valid: "url_decode s = Some r \<Longrightarrow> valid_utf8 r"
  by (auto simp: url_decode_def valid_utf8_lossy)

lemma query_pairs_valid:
  "query_pairs ps = Some kvs \<Longrightarrow> (k, v) \<in> set kvs \<Longrightarrow> valid_utf8 k \<and> valid_utf8 v"
proof (induction ps arbitrary: kvs)
  case (Cons p ps)
  then show ?case
    by (auto split: option.splits prod.splits dest: url_decode_valid)
qed simp

lemma collect_lookup:
  "fmlookup (foldl (\<lambda>m (k, v). fmupd k v m) m kvs) k =
    (case map_of (rev kvs) k of Some v \<Rightarrow> Some v | None \<Rightarrow> fmlookup m k)"
  by (induction kvs arbitrary: m) (auto simp: map_add_def split: option.splits)

lemma query_params_lookup:
  "query_params q = Some m \<Longrightarrow> \<exists>kvs. query_pairs (split_on CHR ''&'' q) = Some kvs
    \<and> fmlookup m = map_of (rev kvs)"
  by (auto simp: query_params_def fun_eq_iff collect_lookup split: option.split)

text \<open>
  A query in ASCII is parsed without a panic, and every key and value it yields is
  well-formed UTF-8, whatever bytes its escapes stand for.
\<close>

theorem query_params_ascii_total:
  assumes "ascii q"
  shows "\<exists>m. query_params q = Some m
    \<and> (\<forall>k v. hm_get m k = Some v \<longrightarrow> valid_utf8 k \<and> valid_utf8 v)"
proof -
  have "\<exists>r. query_pairs (split_on CHR ''&'' q) = Some r"
    using assms split_on_pieces [of _ "CHR ''&''" q] by (intro query_pairs_ascii) (auto simp: ascii_def)
  then obtain m where m: "query_params q = Some m" by (auto simp: query_params_def)
  then obtain kvs where "query_pairs (split_on CHR ''&'' q) = Some kvs" and "fmlookup m = map_of (rev kvs)"
    using query_params_lookup by blast
  then show ?thesis
    using m query_pairs_valid map_of_SomeD by (metis set_rev)
qed

text \<open>
  The slice of an escape is cut by byte index, so well-formed UTF-8 can make it panic:
  here a percent sign, one letter and a Hangul syllable.
\<close>

theorem url_decode_panics_on_utf8:
  "valid_utf8 (''%a'' @ utf8 [0xAC00]) \<and> url_decode (''%a'' @ utf8 [0xAC00]) = None
    \<and> query_params (''token=%a'' @ utf8 [0xAC00]) = None"
proof -
  have u: "utf8 [0xAC00] = map char_of [0xEA, 0xB0, 0x80 :: nat]"
    by (simp add: utf8_def utf8_char_def)
  have v: "valid_utf8 (map char_of [0xEA, 0xB0, 0x80 :: nat])"
  proof -
    have "tail_ok 1 2 [char_of (0x80 :: nat)] = (True, 3)"
      by (simp add: One_nat_def is_cont_def)
    then show ?thesis
      by (subst valid_utf8.simps) (simp add: utf8_width_def second_ok_def)
  qed
  then have "valid_utf8 (''%a'' @ utf8 [0xAC00])"
    by (simp add: u valid_utf8_ascii_Cons)
  moreover have d: "url_decode (''%a'' @ utf8 [0xAC00]) = None"
    unfolding url_decode_def
    by (subst url_decode_bytes.simps)
       (simp add: u str_slice_def is_char_boundary_def is_cont_def)
  moreover have "url_decode ''token'' = Some ''token''"
    by (simp add: url_decode_plain valid_utf8_ascii_Cons)
  ultimately show ?thesis
    using u by (simp add: query_params_def char_of_eq_byte)
qed

text \<open>
  The escape reader accepts what is no escape: a plus sign before one digit, because
  the number parser allows a sign.
\<close>

theorem url_decode_signed_escape: "url_decode ''%+5'' = Some [char_of (5 :: nat)]"
proof -
  have "url_decode_bytes ''%+5'' 3 = Some []"
    by (subst url_decode_bytes.simps) simp
  then have "url_decode_bytes ''%+5'' 0 = Some [char_of (5 :: nat)]"
    by (subst url_decode_bytes.simps)
       (simp add: str_slice_def is_char_boundary_def is_cont_def hex_digit_def)
  then show ?thesis
    by (simp add: url_decode_def from_utf8_lossy_valid valid_utf8_ascii_Cons)
qed

end
