(* ===== verification/Save_Body.thy ===== *)
theory Save_Body
  imports Protocol
begin

text \<open>
  Saving one uploaded file, from \<open>app/rust/src/core/transfer/recv.rs\<close>: the file name kept
  of what the sender claims, the choice of a free name (\<open>resolve_collision\<close>), and
  \<open>save_body\<close>, which writes the body chunk by chunk and removes what it wrote on any
  error.  The pieces are separate definitions, since \<open>Recv_Server\<close> lets other handlers
  run between them; \<open>save_body\<close> runs them in a row.
\<close>

section \<open>A free name\<close>

text \<open>The stem and the extension with its dot; a leading dot starts no extension.\<close>

definition split_stem :: "string \<Rightarrow> string \<times> string" where
  "split_stem name = (case rfind CHR ''.'' name of
       Some i \<Rightarrow> if 0 < i then (take i name, drop i name) else (name, [])
     | None \<Rightarrow> (name, []))"

definition numbered :: "string \<Rightarrow> string \<Rightarrow> string \<Rightarrow> nat \<Rightarrow> string" where
  "numbered dir stem ext n = path_join dir (stem @ '' ('' @ dec_string n @ '')'' @ ext)"

lemma path_join_cancel:
  "m \<noteq> [] \<Longrightarrow> n \<noteq> [] \<Longrightarrow> hd m = hd n \<Longrightarrow> path_join d m = path_join d n \<longleftrightarrow> m = n"
  by (auto simp: path_join_def)

lemma numbered_inj: "numbered d s e m = numbered d s e n \<longleftrightarrow> m = n"
proof -
  have "path_join d (s @ '' ('' @ dec_string m @ '')'' @ e) =
      path_join d (s @ '' ('' @ dec_string n @ '')'' @ e) \<longleftrightarrow>
      s @ '' ('' @ dec_string m @ '')'' @ e = s @ '' ('' @ dec_string n @ '')'' @ e"
    by (rule path_join_cancel) (auto simp: hd_append)
  then show ?thesis by (simp add: numbered_def dec_string_inj)
qed

text \<open>
  The loop: while the candidate exists, take the next number.  It stops because every turn
  uses up one of the finitely many existing names.
\<close>

definition taken_from :: "fs \<Rightarrow> string \<Rightarrow> string \<Rightarrow> string \<Rightarrow> nat \<Rightarrow> nat set" where
  "taken_from f dir stem ext n = {m. n \<le> m \<and> fs_exists f (numbered dir stem ext m)}"

lemma finite_taken: "finite (taken_from f dir stem ext n)"
proof -
  have "inj_on (numbered dir stem ext) (taken_from f dir stem ext n)"
    by (simp add: inj_on_def numbered_inj)
  moreover have "numbered dir stem ext ` taken_from f dir stem ext n \<subseteq> fmdom' (fs_dir f)"
    by (auto simp: taken_from_def fs_exists_dom)
  ultimately show ?thesis
    by (meson finite_fmdom' finite_imageD finite_subset)
qed

lemma taken_from_Suc:
  "taken_from f dir stem ext n =
    (if fs_exists f (numbered dir stem ext n) then insert n (taken_from f dir stem ext (Suc n))
     else taken_from f dir stem ext (Suc n))"
  by (auto simp: taken_from_def le_eq_less_or_eq)

lemma card_taken_Suc:
  "card (taken_from f dir stem ext n) =
    (if fs_exists f (numbered dir stem ext n) then Suc (card (taken_from f dir stem ext (Suc n)))
     else card (taken_from f dir stem ext (Suc n)))"
proof -
  have "n \<notin> taken_from f dir stem ext (Suc n)" by (simp add: taken_from_def)
  then show ?thesis
    by (subst taken_from_Suc) (simp add: finite_taken)
qed

function find_free :: "fs \<Rightarrow> string \<Rightarrow> string \<Rightarrow> string \<Rightarrow> string \<Rightarrow> nat \<Rightarrow> string" where
  "find_free f dir stem ext candidate n =
     (if fs_exists f candidate
      then find_free f dir stem ext (numbered dir stem ext n) (n + 1)
      else candidate)"
  by pat_completeness auto
termination
  by (relation "measure (\<lambda>(f, dir, stem, ext, c, n).
       card (taken_from f dir stem ext n) + (if fs_exists f c then 1 else 0))")
     (auto simp: card_taken_Suc)

declare find_free.simps [simp del]

definition resolve_collision :: "fs \<Rightarrow> string \<Rightarrow> string \<Rightarrow> string" where
  "resolve_collision f dir name =
     (let (stem, ext) = split_stem name in find_free f dir stem ext (path_join dir name) 1)"

lemma split_stem_append: "split_stem name = (s, e) \<Longrightarrow> s @ e = name"
  by (auto simp: split_stem_def split: option.splits if_splits)

lemma split_stem_Nil: "split_stem name = (s, e) \<Longrightarrow> name \<noteq> [] \<Longrightarrow> s \<noteq> []"
  by (auto simp: split_stem_def split: option.splits if_splits)

lemma find_free_fresh: "\<not> fs_exists f (find_free f dir stem ext c n)"
proof (induction f dir stem ext c n rule: find_free.induct)
  case (1 f dir stem ext c n)
  then show ?case by (subst find_free.simps) simp
qed

lemma find_free_least:
  assumes "fs_exists f c"
  shows "\<exists>k \<ge> n. find_free f dir stem ext c n = numbered dir stem ext k
    \<and> (\<forall>m. n \<le> m \<and> m < k \<longrightarrow> fs_exists f (numbered dir stem ext m))"
  using assms
proof (induction f dir stem ext c n rule: find_free.induct)
  case (1 f dir stem ext c n)
  show ?case
  proof (cases "fs_exists f (numbered dir stem ext n)")
    case True
    with 1 obtain k where "Suc n \<le> k"
      and "find_free f dir stem ext (numbered dir stem ext n) (Suc n) = numbered dir stem ext k"
      and "\<forall>m. Suc n \<le> m \<and> m < k \<longrightarrow> fs_exists f (numbered dir stem ext m)"
      by auto
    moreover from this have "\<forall>m. n \<le> m \<and> m < k \<longrightarrow> fs_exists f (numbered dir stem ext m)"
      using True not_less_eq_eq antisym by metis
    ultimately show ?thesis
      using "1.prems" by (subst find_free.simps) (auto intro!: exI [of _ k])
  next
    case False
    with "1.prems" have "find_free f dir stem ext c n = numbered dir stem ext n"
      by (subst find_free.simps, subst find_free.simps) simp
    then show ?thesis by auto
  qed
qed

lemma resolve_fresh: "\<not> fs_exists f (resolve_collision f dir name)"
  by (simp add: resolve_collision_def find_free_fresh split: prod.split)

lemma resolve_free:
  "\<not> fs_exists f (path_join dir name) \<Longrightarrow> resolve_collision f dir name = path_join dir name"
  by (simp add: resolve_collision_def split: prod.split) (simp add: find_free.simps)

lemma resolve_taken:
  assumes "fs_exists f (path_join dir name)" and "split_stem name = (stem, ext)"
  shows "\<exists>k \<ge> 1. resolve_collision f dir name = numbered dir stem ext k
    \<and> (\<forall>m. 1 \<le> m \<and> m < k \<longrightarrow> fs_exists f (numbered dir stem ext m))"
  using find_free_least [OF assms(1), of 1 dir stem ext] assms(2)
  by (simp add: resolve_collision_def)

text \<open>The number stays within the number of names there are: the counter cannot overflow.\<close>

lemma run_of_taken_bound:
  assumes "\<forall>m. 1 \<le> m \<and> m < k \<longrightarrow> fs_exists f (numbered dir stem ext m)"
  shows "k \<le> Suc (hm_len (fs_dir f))"
proof -
  have "inj_on (numbered dir stem ext) {1..<k}"
    by (simp add: inj_on_def numbered_inj)
  moreover have "numbered dir stem ext ` {1..<k} \<subseteq> fmdom' (fs_dir f)"
    using assms by (auto simp: fs_exists_dom)
  ultimately have "card {1..<k} \<le> card (fmdom' (fs_dir f))"
    by (intro card_inj_on_le) auto
  then show ?thesis by (simp add: hm_len_def)
qed

lemma resolve_form:
  assumes "CHR ''/'' \<notin> set name"
  shows "\<exists>n'. resolve_collision f dir name = path_join dir n' \<and> CHR ''/'' \<notin> set n'
    \<and> (n' = name \<or> (\<exists>k. n' = fst (split_stem name) @ '' ('' @ dec_string k @ '')'' @ snd (split_stem name)))"
proof (cases "fs_exists f (path_join dir name)")
  case False
  with assms show ?thesis using resolve_free by blast
next
  case True
  obtain s e where se: "split_stem name = (s, e)" by (cases "split_stem name")
  then obtain k where "resolve_collision f dir name = numbered dir s e k"
    using resolve_taken [OF True] by blast
  moreover have "CHR ''/'' \<notin> set (dec_string k)"
  proof
    assume "CHR ''/'' \<in> set (dec_string k)"
    then obtain d where "d < 10" and "CHR ''/'' = digit_char d" using dec_string_digits by blast
    then have "byte (CHR ''/'') = byte (digit_char d)" by simp
    then show False using digit_char_range [OF \<open>d < 10\<close>] by simp
  qed
  moreover have "CHR ''/'' \<notin> set s" "CHR ''/'' \<notin> set e"
    using split_stem_append [OF se] assms by auto
  ultimately show ?thesis
    using se by (intro exI [of _ "s @ '' ('' @ dec_string k @ '')'' @ e"]) (auto simp: numbered_def)
qed

section \<open>The kept name\<close>

definition save_name :: "file_meta \<Rightarrow> string" where
  "save_name meta = (case file_name (fm_name meta) of
       Some n \<Rightarrow> from_utf8_lossy n | None \<Rightarrow> ''unnamed'')"

lemma save_name_safe:
  "save_name meta \<noteq> ''''" "save_name meta \<noteq> ''.''" "save_name meta \<noteq> ''..''"
  "CHR ''/'' \<notin> set (save_name meta)"
proof -
  consider "save_name meta = ''unnamed''"
    | n where "file_name (fm_name meta) = Some n" "save_name meta = from_utf8_lossy n"
    by (cases "file_name (fm_name meta)") (auto simp: save_name_def)
  then have "save_name meta \<noteq> '''' \<and> save_name meta \<noteq> ''.'' \<and> save_name meta \<noteq> ''..''
    \<and> CHR ''/'' \<notin> set (save_name meta)"
  proof cases
    case (2 n)
    have *: "from_utf8_lossy n = s \<Longrightarrow> (\<forall>c \<in> set s. byte c < 128) \<Longrightarrow> n = s" for s
      using from_utf8_lossy_all_ascii [of n] by auto
    note n = file_name_SomeD [OF 2(1)]
    have "from_utf8_lossy n \<noteq> ''''" "from_utf8_lossy n \<noteq> ''.''" "from_utf8_lossy n \<noteq> ''..''"
      using * [of "''.''"] * [of "''..''"] n(1-3) by auto
    moreover have "CHR ''/'' \<notin> set (from_utf8_lossy n)"
      using from_utf8_lossy_ascii_in [of "CHR ''/''" n] n(4) by auto
    ultimately show ?thesis using 2(2) by simp
  qed simp
  then show "save_name meta \<noteq> ''''" "save_name meta \<noteq> ''.''" "save_name meta \<noteq> ''..''"
    "CHR ''/'' \<notin> set (save_name meta)"
    by simp_all
qed

text \<open>Every file is put directly into the save folder, under a proper name.\<close>

definition in_folder :: "string \<Rightarrow> string \<Rightarrow> bool" where
  "in_folder dir p \<longleftrightarrow> (\<exists>n. p = path_join dir n \<and> path_components p = path_components dir @ [n]
     \<and> n \<noteq> ''..'' \<and> CHR ''/'' \<notin> set n)"

lemma in_folderI:
  "CHR ''/'' \<notin> set n \<Longrightarrow> n \<noteq> '''' \<Longrightarrow> n \<noteq> ''.'' \<Longrightarrow> n \<noteq> ''..'' \<Longrightarrow> in_folder dir (path_join dir n)"
  using path_components_join by (auto simp: in_folder_def)

lemma resolve_in_folder: "in_folder dir (resolve_collision f dir (save_name meta))"
proof -
  obtain n where r: "resolve_collision f dir (save_name meta) = path_join dir n"
    and s: "CHR ''/'' \<notin> set n"
    and n: "n = save_name meta \<or> (\<exists>k a b. n = a @ '' ('' @ dec_string k @ '')'' @ b)"
    using resolve_form [OF save_name_safe(4)] by metis
  have "CHR ''('' \<in> set n \<or> n = save_name meta" using n by auto
  then have "n \<noteq> ''''" "n \<noteq> ''.''" "n \<noteq> ''..''"
    using save_name_safe [of meta] by (elim disjE; force)+
  with r s show ?thesis by (simp add: in_folderI)
qed

section \<open>Writing the body\<close>

datatype frame = Data string | Trailers | Frame_error

text \<open>\<open>write_all\<close> of one chunk: everything, or an error after some bytes.\<close>

datatype chunk_outcome = Written | Failed_after nat

datatype save_error =
  Create_failed | Body_error | Write_failed | Flush_failed | Size_mismatch u64 u64

text \<open>One turn of the loop over the frames: the open file, its offset, the count so far.\<close>

fun save_frame :: "frame \<Rightarrow> chunk_outcome \<Rightarrow> inode \<Rightarrow> nat \<Rightarrow> u64 \<Rightarrow> fs
    \<Rightarrow> (save_error + (nat \<times> u64)) \<times> fs" where
  "save_frame Frame_error out i off written f = (Inl Body_error, f)"
| "save_frame Trailers out i off written f = (Inr (off, written), f)"
| "save_frame (Data d) (Failed_after n) i off written f =
     (Inl Write_failed, fs_write_at f i off (take n d))"
| "save_frame (Data d) Written i off written f =
     (Inr (off + length d, written + of_nat (length d)), fs_write_at f i off d)"

text \<open>After the last frame: flush, then compare with the announced size.\<close>

definition save_finish :: "bool \<Rightarrow> u64 \<Rightarrow> file_meta \<Rightarrow> save_error + unit" where
  "save_finish flush_ok written meta =
     (if \<not> flush_ok then Inl Flush_failed
      else if written \<noteq> fm_size meta then Inl (Size_mismatch written (fm_size meta))
      else Inr ())"

definition save_abort :: "bool \<Rightarrow> string \<Rightarrow> fs \<Rightarrow> fs" where
  "save_abort remove_ok target f = (if remove_ok then fs_remove f target else f)"

fun save_frames :: "(frame \<times> chunk_outcome) list \<Rightarrow> inode \<Rightarrow> nat \<Rightarrow> u64 \<Rightarrow> fs
    \<Rightarrow> (save_error + (nat \<times> u64)) \<times> fs" where
  "save_frames [] i off written f = (Inr (off, written), f)"
| "save_frames ((fr, out) # frs) i off written f =
     (case save_frame fr out i off written f of
        (Inl e, g) \<Rightarrow> (Inl e, g)
      | (Inr (off', written'), g) \<Rightarrow> save_frames frs i off' written' g)"

definition save_body ::
    "bool \<Rightarrow> (frame \<times> chunk_outcome) list \<Rightarrow> bool \<Rightarrow> bool \<Rightarrow> string \<Rightarrow> file_meta \<Rightarrow> fs
      \<Rightarrow> (save_error + string) \<times> fs" where
  "save_body create_ok frames flush_ok remove_ok save_dir meta f =
     (let target = resolve_collision f save_dir (save_name meta) in
      if \<not> create_ok then (Inl Create_failed, f)
      else
        let (i, g) = fs_create f target;
            (r, h) = save_frames frames i 0 0 g
        in case (case r of Inl e \<Rightarrow> Inl e | Inr (off, written) \<Rightarrow> save_finish flush_ok written meta) of
             Inl e \<Rightarrow> (Inl e, save_abort remove_ok target h)
           | Inr _ \<Rightarrow> (Inr target, h))"

text \<open>The bytes a body carries, and a body that arrives whole.\<close>

fun frame_bytes :: "frame \<Rightarrow> string" where
  "frame_bytes (Data d) = d"
| "frame_bytes _ = []"

definition body_bytes :: "(frame \<times> chunk_outcome) list \<Rightarrow> string" where
  "body_bytes frs = concat (map (frame_bytes \<circ> fst) frs)"

fun frame_ok :: "frame \<times> chunk_outcome \<Rightarrow> bool" where
  "frame_ok (Frame_error, out) = False"
| "frame_ok (Trailers, out) = True"
| "frame_ok (Data d, out) = (out = Written)"

lemma body_bytes_simps [simp]:
  "body_bytes [] = []" "body_bytes ((fr, out) # frs) = frame_bytes fr @ body_bytes frs"
  by (simp_all add: body_bytes_def)

lemma save_frame_frame:
  assumes "save_frame fr out i off w f = (r, g)"
  shows "fs_dir g = fs_dir f" and "fs_next g = fs_next f" and "j \<noteq> i \<Longrightarrow> fs_data g j = fs_data f j"
  using assms
  by (cases "(fr, out, i, off, w, f)" rule: save_frame.cases; auto simp: fs_write_at_def)+

lemma save_frame_Inr:
  assumes "save_frame fr out i off w f = (Inr (off', w'), g)" and "off = length (fs_data f i)"
  shows "fs_data g i = fs_data f i @ frame_bytes fr \<and> off' = length (fs_data g i)
    \<and> w' = w + of_nat (length (frame_bytes fr)) \<and> frame_ok (fr, out)"
  using assms
  by (cases "(fr, out, i, off, w, f)" rule: save_frame.cases) (auto simp: fs_write_at_data)

lemma save_frame_ok_iff:
  "frame_ok (fr, out) \<longleftrightarrow> (\<exists>x g. save_frame fr out i off w f = (Inr x, g))"
  by (cases "(fr, out, i, off, w, f)" rule: save_frame.cases) auto

lemma save_frames_frame:
  "save_frames frs i off w f = (r, g) \<Longrightarrow>
    fs_dir g = fs_dir f \<and> fs_next g = fs_next f \<and> (\<forall>j. j \<noteq> i \<longrightarrow> fs_data g j = fs_data f j)"
proof (induction frs i off w f rule: save_frames.induct)
  case (2 fr out frs i off w f)
  obtain r1 g1 where 1: "save_frame fr out i off w f = (r1, g1)"
    by (cases "save_frame fr out i off w f")
  show ?case
  proof (cases r1)
    case (Inl e)
    with 1 2(2) show ?thesis using save_frame_frame [OF 1] by auto
  next
    case (Inr x)
    obtain o' w' where "x = (o', w')" by (cases x)
    with Inr 1 2 show ?thesis using save_frame_frame [OF 1] by simp
  qed
qed simp

lemma save_frames_Inr:
  "save_frames frs i off w f = (Inr (off', w'), g) \<Longrightarrow> off = length (fs_data f i) \<Longrightarrow>
    fs_data g i = fs_data f i @ body_bytes frs \<and> w' = w + of_nat (length (body_bytes frs))"
proof (induction frs i off w f rule: save_frames.induct)
  case (2 fr out frs i off w f)
  obtain o1 w1 g1 where 1: "save_frame fr out i off w f = (Inr (o1, w1), g1)"
    and r: "save_frames frs i o1 w1 g1 = (Inr (off', w'), g)"
    using 2(2) by (auto split: prod.splits sum.splits)
  show ?case
    using 2(1) [OF 1 [symmetric] refl refl r] save_frame_Inr [OF 1 2(3)] by simp
qed simp

lemma save_frames_ok_iff:
  "(\<forall>x \<in> set frs. frame_ok x) \<longleftrightarrow> (\<exists>x g. save_frames frs i off w f = (Inr x, g))"
proof (induction frs i off w f rule: save_frames.induct)
  case (2 fr out frs i off w f)
  obtain r1 g1 where 1: "save_frame fr out i off w f = (r1, g1)"
    by (cases "save_frame fr out i off w f")
  show ?case
  proof (cases r1)
    case (Inl e)
    with 1 have "\<not> frame_ok (fr, out)" using save_frame_ok_iff [of fr out i off w f] by auto
    with Inl 1 show ?thesis by simp
  next
    case (Inr x)
    obtain o1 w1 where x: "x = (o1, w1)" by (cases x)
    have "frame_ok (fr, out)" using 1 Inr save_frame_ok_iff by metis
    with 2 [OF 1 [unfolded Inr x, symmetric] refl refl] 1 Inr x show ?thesis by simp
  qed
qed simp

section \<open>The interface between choosing a name and writing\<close>

text \<open>
  Writing relies on one law of the choice: the name is free.  Then the file is a new one,
  and what is written to its handle is seen under no other name.
\<close>

locale fresh_name =
  fixes pick :: "fs \<Rightarrow> string"
  assumes pick_fresh: "\<not> fs_exists f (pick f)"
begin

lemma create_new:
  "fs_create f (pick f) = (fs_next f, f\<lparr>fs_dir := fmupd (pick f) (fs_next f) (fs_dir f),
     fs_data := (fs_data f)(fs_next f := []), fs_next := Suc (fs_next f)\<rparr>)"
  using pick_fresh [of f] by (simp add: fs_create_def fs_exists_def)

lemma frames_read:
  assumes "fs_ok f" and "fs_create f (pick f) = (i, g)"
    and "save_frames frs i 0 0 g = (r, h)"
  shows "fs_ok h" and "q \<noteq> pick f \<Longrightarrow> fs_read h q = fs_read f q"
    and "r = Inr (off, w) \<Longrightarrow>
      fs_read h (pick f) = Some (body_bytes frs) \<and> w = of_nat (length (body_bytes frs))"
proof -
  have g: "fs_ok g" "fmlookup (fs_dir g) (pick f) = Some i" "fs_data g i = []"
    using fs_ok_create [OF assms(1), of "pick f"] fs_create_dir [of f "pick f"]
      fs_create_data [of f "pick f"] assms(2) by simp_all
  note fr = save_frames_frame [OF assms(3)]
  show "fs_ok h" using g(1) fr by (simp add: fs_ok_def)
  have other: "q \<noteq> pick f \<Longrightarrow> fs_read h q = fs_read g q" for q
    using fr fs_ok_inj [OF g(1,2), of q]
    by (cases "fmlookup (fs_dir g) q") (auto simp: fs_read_def)
  then show "q \<noteq> pick f \<Longrightarrow> fs_read h q = fs_read f q"
    using fs_create_read_other [OF assms(1), of q "pick f"] assms(2) by simp
  assume "r = Inr (off, w)"
  then show "fs_read h (pick f) = Some (body_bytes frs) \<and> w = of_nat (length (body_bytes frs))"
    using save_frames_Inr [of frs i 0 0 g off w h] assms(3) g fr by (simp add: fs_read_def)
qed

end

interpretation free_name: fresh_name "\<lambda>f. resolve_collision f dir name" for dir name
  by unfold_locales (rule resolve_fresh)

section \<open>Properties\<close>

lemma save_body_cases:
  assumes "save_body c frs fl rm dir meta f = (r, h)"
  obtains (no_create) "\<not> c" "r = Inl Create_failed" "h = f"
  | (frame_error) i g e h' where "c" "fs_create f (resolve_collision f dir (save_name meta)) = (i, g)"
      "save_frames frs i 0 0 g = (Inl e, h')" "r = Inl e"
      "h = save_abort rm (resolve_collision f dir (save_name meta)) h'"
  | (finish_error) i g off w e h' where "c"
      "fs_create f (resolve_collision f dir (save_name meta)) = (i, g)"
      "save_frames frs i 0 0 g = (Inr (off, w), h')" "save_finish fl w meta = Inl e" "r = Inl e"
      "h = save_abort rm (resolve_collision f dir (save_name meta)) h'"
  | (saved) i g off w where "c" "fs_create f (resolve_collision f dir (save_name meta)) = (i, g)"
      "save_frames frs i 0 0 g = (Inr (off, w), h)" "save_finish fl w meta = Inr ()"
      "r = Inr (resolve_collision f dir (save_name meta))"
proof (cases c)
  case False
  with assms no_create show ?thesis by (simp add: save_body_def Let_def)
next
  case True
  let ?t = "resolve_collision f dir (save_name meta)"
  obtain i g where 1: "fs_create f ?t = (i, g)" by (cases "fs_create f ?t")
  obtain q h' where 2: "save_frames frs i 0 0 g = (q, h')" by (cases "save_frames frs i 0 0 g")
  show ?thesis
  proof (cases q)
    case (Inl e)
    with True 1 2 assms show ?thesis
      by (intro frame_error [of i g e h']) (auto simp: save_body_def Let_def)
  next
    case (Inr x)
    obtain off w where x: "x = (off, w)" by (cases x)
    show ?thesis
    proof (cases "save_finish fl w meta")
      case (Inl e)
      with Inr x True 1 2 assms show ?thesis
        by (intro finish_error [of i g off w h' e]) (auto simp: save_body_def Let_def)
    next
      case (Inr u)
      with \<open>q = Inr x\<close> x True 1 2 assms show ?thesis
        by (intro saved [of i g off w]) (auto simp: save_body_def Let_def)
    qed
  qed
qed

lemma save_body_saved:
  assumes "save_body c frs fl rm dir meta f = (Inr target, h)" and "fs_ok f"
  shows "target = resolve_collision f dir (save_name meta)" and "fs_ok h"
    and "fs_read h target = Some (body_bytes frs)"
    and "of_nat (length (body_bytes frs)) = fm_size meta"
    and "q \<noteq> target \<Longrightarrow> fs_read h q = fs_read f q"
    and "c \<and> fl \<and> (\<forall>x \<in> set frs. frame_ok x)"
proof -
  from assms(1) have "target = resolve_collision f dir (save_name meta) \<and> fs_ok h
    \<and> fs_read h target = Some (body_bytes frs) \<and> of_nat (length (body_bytes frs)) = fm_size meta
    \<and> (\<forall>q. q \<noteq> target \<longrightarrow> fs_read h q = fs_read f q) \<and> c \<and> fl \<and> (\<forall>x \<in> set frs. frame_ok x)"
  proof (cases rule: save_body_cases)
    case (saved i g off w)
    note rd = free_name.frames_read [OF assms(2) saved(2,3)]
    have "\<forall>x \<in> set frs. frame_ok x" using saved(3) save_frames_ok_iff by blast
    with saved rd show ?thesis by (auto simp: save_finish_def split: if_splits)
  qed simp_all
  then show "target = resolve_collision f dir (save_name meta)" "fs_ok h"
    "fs_read h target = Some (body_bytes frs)" "of_nat (length (body_bytes frs)) = fm_size meta"
    "q \<noteq> target \<Longrightarrow> fs_read h q = fs_read f q" "c \<and> fl \<and> (\<forall>x \<in> set frs. frame_ok x)"
    by blast+
qed

lemma save_body_failed:
  assumes "save_body c frs fl True dir meta f = (Inl e, h)" and "fs_ok f"
  shows "fs_read h q = fs_read f q"
proof -
  let ?t = "resolve_collision f dir (save_name meta)"
  have t: "fs_read f ?t = None" using resolve_fresh [of f dir "save_name meta"] by (simp add: fs_exists_read)
  from assms(1) show ?thesis
  proof (cases rule: save_body_cases)
    case (frame_error i g e h')
    with t free_name.frames_read(2) [OF assms(2) frame_error(2,3), of q] show ?thesis
      by (auto simp: save_abort_def fs_remove_read)
  next
    case (finish_error i g off w e h')
    with t free_name.frames_read(2) [OF assms(2) finish_error(2,3), of q] show ?thesis
      by (auto simp: save_abort_def fs_remove_read)
  qed simp_all
qed

lemma save_body_complete:
  assumes "\<forall>x \<in> set frs. frame_ok x" and "of_nat (length (body_bytes frs)) = fm_size meta"
    and "fs_ok f"
  shows "\<exists>h. save_body True frs True rm dir meta f =
    (Inr (resolve_collision f dir (save_name meta)), h)"
proof -
  obtain r h where r: "save_body True frs True rm dir meta f = (r, h)"
    by (cases "save_body True frs True rm dir meta f")
  then show ?thesis
  proof (cases rule: save_body_cases)
    case (frame_error i g e h')
    with assms(1) show ?thesis using save_frames_ok_iff by (metis Inl_Inr_False prod.inject)
  next
    case (finish_error i g off w e h')
    with free_name.frames_read(3) [OF assms(3) finish_error(2,3)] assms(2) show ?thesis
      by (simp add: save_finish_def)
  qed (use r in auto)
qed

text \<open>
  C24: A saved file is exactly the body that was sent: success means that every chunk was
  written, that the total is the announced size, that the file is a new one directly in the
  save folder, and that no other file changed.
\<close>

theorem save_body_success:
  assumes "fs_ok f" and "save_body create_ok frames flush_ok remove_ok dir meta f = (Inr target, g)"
  shows "fs_read g target = Some (body_bytes frames)
    \<and> of_nat (length (body_bytes frames)) = fm_size meta
    \<and> \<not> fs_exists f target \<and> in_folder dir target
    \<and> (\<forall>q. q \<noteq> target \<longrightarrow> fs_read g q = fs_read f q)"
  using save_body_saved [OF assms(2,1)] resolve_fresh resolve_in_folder by auto

text \<open>
  C25: A failed upload leaves no trace: whatever went wrong, and however much had been
  written by then, every name reads as it did before, provided the clean-up could remove
  the partial file.
\<close>

theorem save_body_failure_clean:
  assumes "fs_ok f" and "save_body create_ok frames flush_ok True dir meta f = (Inl e, g)"
  shows "\<forall>q. fs_read g q = fs_read f q"
  using save_body_failed [OF assms(2,1)] by blast

text \<open>
  C26: A body that arrives whole, has the announced size and meets no disk error is saved:
  under its own name when that is free, and otherwise under the least free number.
\<close>

theorem save_body_delivers:
  assumes "fs_ok f" and "\<forall>x \<in> set frames. frame_ok x"
    and "of_nat (length (body_bytes frames)) = fm_size meta"
    and "split_stem (save_name meta) = (stem, ext)"
  shows "\<exists>target g. save_body True frames True remove_ok dir meta f = (Inr target, g)
    \<and> (\<not> fs_exists f (path_join dir (save_name meta)) \<longrightarrow> target = path_join dir (save_name meta))
    \<and> (fs_exists f (path_join dir (save_name meta)) \<longrightarrow>
        (\<exists>k. 1 \<le> k \<and> k \<le> Suc (hm_len (fs_dir f)) \<and> target = numbered dir stem ext k
          \<and> (\<forall>m. 1 \<le> m \<and> m < k \<longrightarrow> fs_exists f (numbered dir stem ext m))))"
proof -
  let ?t = "resolve_collision f dir (save_name meta)"
  obtain g where "save_body True frames True remove_ok dir meta f = (Inr ?t, g)"
    using save_body_complete [OF assms(2,3,1)] by blast
  moreover have "\<not> fs_exists f (path_join dir (save_name meta)) \<longrightarrow> ?t = path_join dir (save_name meta)"
    using resolve_free by blast
  moreover have "fs_exists f (path_join dir (save_name meta)) \<longrightarrow>
      (\<exists>k. 1 \<le> k \<and> k \<le> Suc (hm_len (fs_dir f)) \<and> ?t = numbered dir stem ext k
        \<and> (\<forall>m. 1 \<le> m \<and> m < k \<longrightarrow> fs_exists f (numbered dir stem ext m)))"
    using resolve_taken [OF _ assms(4)] run_of_taken_bound by metis
  ultimately show ?thesis by blast
qed

text \<open>
  A file name cannot lead out of the save folder: whatever name the sender announces,
  the chosen path is the save folder extended by one component, which is not a parent link.
\<close>

theorem upload_path_confined:
  "let target = resolve_collision f dir (save_name meta) in
    \<exists>n. path_components target = path_components dir @ [n] \<and> n \<noteq> ''..'' \<and> CHR ''/'' \<notin> set n"
  using resolve_in_folder [of dir f meta] by (auto simp: in_folder_def Let_def)

end
