(* ===== verification/Recv_Session.thy ===== *)
theory Recv_Session
  imports Security Url_Query Save_Body
begin

text \<open>
  The receiving side of \<open>app/rust/src/core/transfer/recv.rs\<close> without concurrency: the
  session state machine idle, pending, sending; the routing of requests; and the four
  handlers.  Each handler is cut into the pieces between which the async runtime may run
  others (one per lock acquisition or await); the whole handlers \<open>handle_prepare\<close>,
  \<open>handle_upload\<close> and \<open>handle_cancel\<close> run the pieces in a row, and \<open>Recv_Server\<close>
  interleaves the same pieces.
\<close>

named_theorems piece_defs \<open>the definitions of the handlers' pieces\<close>

section \<open>State\<close>

record transfer_request =
  tr_sender :: peer_info
  tr_files :: "(string, file_meta) hash_map"
  tr_is_new_device :: bool

record saved_file =
  sf_path :: string
  sf_from :: string

record session =
  s_id :: string
  s_from_alias :: string
  s_files :: "(string, file_meta) hash_map"
  s_tokens :: "(string, string) hash_map"
  s_received :: "string fset"

datatype rstate = Idle | Pending | Sending session

record recv_config =
  rc_self_info :: peer_info
  rc_save_dir :: string
  rc_approval_timeout :: nat
  rc_port :: u16

text \<open>
  \<open>Receiver::start\<close>: \<open>bind\<close> opens a listener on a port and yields the port it got; the
  service port is tried first, then any port.  \<open>tls\<close> is the outcome of \<open>server_config\<close>.
\<close>

datatype start_error = Bind_failed | Tls_failed sec_error

definition receiver_start ::
    "(u16 \<Rightarrow> u16 option) \<Rightarrow> sec_error + 'cfg \<Rightarrow> string \<Rightarrow> peer_info \<Rightarrow> nat option
      \<Rightarrow> start_error + (recv_config \<times> rstate)" where
  "receiver_start bind tls save_dir self_info approval_timeout =
     (case (case bind SERVICE_PORT of Some p \<Rightarrow> Some p | None \<Rightarrow> bind 0) of
        None \<Rightarrow> Inl Bind_failed
      | Some port \<Rightarrow> (case tls of Inl e \<Rightarrow> Inl (Tls_failed e)
          | Inr _ \<Rightarrow> Inr (\<lparr>rc_self_info = self_info, rc_save_dir = save_dir,
              rc_approval_timeout = (case approval_timeout of Some t \<Rightarrow> t | None \<Rightarrow> APPROVAL_TIMEOUT),
              rc_port = port\<rparr>, Idle)))"

section \<open>Requests and responses\<close>

datatype response_body = No_body | Info_body peer_info | Prepare_body prepare_upload_response

record response =
  rs_status :: u16
  rs_body :: response_body

definition status :: "u16 \<Rightarrow> response" where
  "status code = \<lparr>rs_status = code, rs_body = No_body\<rparr>"

definition json :: "response_body \<Rightarrow> response" where
  "json b = \<lparr>rs_status = 200, rs_body = b\<rparr>"

record request =
  rq_method :: string
  rq_path :: string
  rq_query :: "string option"

datatype destination = To_info | To_prepare | To_upload | To_cancel | Not_found

text \<open>Which handler a request reaches; \<open>Not_found\<close> is answered with 404.\<close>

definition route :: "request \<Rightarrow> destination" where
  "route rq =
     (if rq_method rq \<noteq> ''POST'' then Not_found
      else case strip_prefix API_PREFIX (rq_path rq) of
        Some p \<Rightarrow>
          if p = ''/info'' then To_info
          else if p = ''/prepare-upload'' then To_prepare
          else if p = ''/upload'' then To_upload
          else if p = ''/cancel'' then To_cancel
          else Not_found
      | None \<Rightarrow> Not_found)"

text \<open>An error of a handler (here: of reading the body) becomes a 500.\<close>

definition respond :: "unit + response \<Rightarrow> response" where
  "respond r = (case r of Inl _ \<Rightarrow> status 500 | Inr res \<Rightarrow> res)"

section \<open>Info\<close>

definition handle_info :: "recv_config \<Rightarrow> response" where
  "handle_info cfg = json (Info_body ((rc_self_info cfg)\<lparr>pi_port := rc_port cfg\<rparr>))"

section \<open>Prepare\<close>

text \<open>Reading and checking the body; the body is \<open>None\<close> when it could not be read.\<close>

definition prepare_parse ::
    "(string \<Rightarrow> prepare_upload_request option) \<Rightarrow> string option
      \<Rightarrow> (unit + response) + prepare_upload_request" where
  "prepare_parse from_slice body =
     (case body of None \<Rightarrow> Inl (Inl ())
      | Some b \<Rightarrow> (case from_slice b of None \<Rightarrow> Inl (Inr (status 400))
         | Some p \<Rightarrow> if fmdom' (pr_files p) = {} then Inl (Inr (status 400)) else Inr p))"

text \<open>Under the lock: only an idle receiver becomes pending.\<close>

definition prepare_claim :: "rstate \<Rightarrow> response + rstate" where
  "prepare_claim st = (case st of Idle \<Rightarrow> Inr Pending | _ \<Rightarrow> Inl (status 409))"

definition prepare_request :: "trust_store \<Rightarrow> prepare_upload_request \<Rightarrow> transfer_request" where
  "prepare_request ts p =
     \<lparr>tr_sender = pr_info p, tr_files = pr_files p,
      tr_is_new_device = (\<not> ts_contains ts (pi_fingerprint (pr_info p)))\<rparr>"

text \<open>What the approval callback came to within the timeout.\<close>

datatype approval = Timed_out | Answer bool

definition approval_refusal :: "approval \<Rightarrow> response option" where
  "approval_refusal a = (case a of
       Timed_out \<Rightarrow> Some (status 408) | Answer False \<Rightarrow> Some (status 403) | Answer True \<Rightarrow> None)"

text \<open>
  \<open>random_hex16\<close>: sixteen random bytes in the hexadecimal notation \<open>hexe\<close> of the \<open>hex\<close> crate.
\<close>

definition random_hex16 :: "(string \<Rightarrow> string) \<Rightarrow> string \<Rightarrow> string" where
  "random_hex16 hexe buf = hexe buf"

text \<open>The session: \<open>sid\<close> and \<open>tok\<close> are what \<open>random_hex16\<close> delivers.\<close>

definition new_session :: "string \<Rightarrow> (string \<Rightarrow> string) \<Rightarrow> prepare_upload_request \<Rightarrow> session" where
  "new_session sid tok p =
     \<lparr>s_id = sid, s_from_alias = pi_alias (pr_info p), s_files = pr_files p,
      s_tokens = fmmap_keys (\<lambda>fid _. tok fid) (pr_files p), s_received = {||}\<rparr>"

definition prepare_response :: "session \<Rightarrow> response" where
  "prepare_response s =
     json (Prepare_body \<lparr>ps_session_id = s_id s, ps_tokens = s_tokens s\<rparr>)"

text \<open>What the outside world answers during one prepare request.\<close>

record prepare_env =
  pe_approval :: approval
  pe_now :: "string option"
  pe_mkdir :: bool
  pe_write :: write_outcome
  pe_sid :: string
  pe_tok :: "string \<Rightarrow> string"

definition handle_prepare ::
    "(string \<Rightarrow> prepare_upload_request option)
      \<Rightarrow> ((string, trusted_device) hash_map \<Rightarrow> string) \<Rightarrow> prepare_env \<Rightarrow> string option
      \<Rightarrow> rstate \<times> trust_store \<times> fs \<Rightarrow> response \<times> transfer_request option \<times> rstate \<times> trust_store \<times> fs" where
  "handle_prepare from_slice to_vec env body s =
     (let (st, ts, f) = s in
      case prepare_parse from_slice body of
        Inl r \<Rightarrow> (respond r, None, st, ts, f)
      | Inr p \<Rightarrow>
          (case prepare_claim st of
             Inl r \<Rightarrow> (r, None, st, ts, f)
           | Inr _ \<Rightarrow>
               (let req = prepare_request ts p in
                case approval_refusal (pe_approval env) of
                  Some r \<Rightarrow> (r, Some req, Idle, ts, f)
                | None \<Rightarrow>
                    (let (_, ts', f') = ts_add to_vec (pe_now env) (pe_mkdir env) (pe_write env)
                           (pi_fingerprint (pr_info p)) (pi_alias (pr_info p)) ts f;
                         ses = new_session (pe_sid env) (pe_tok env) p
                     in (prepare_response ses, Some req, Sending ses, ts', f')))))"

section \<open>Upload\<close>

text \<open>The parameters of the query; \<open>None\<close> is the panic of the decoder.\<close>

definition query_map :: "string option \<Rightarrow> (string, string) hash_map option" where
  "query_map q = (case q of None \<Rightarrow> Some fmempty | Some s \<Rightarrow> query_params s)"

definition upload_params :: "string option \<Rightarrow> (string \<times> string \<times> string) option" where
  "upload_params q = map_option (\<lambda>m. (param_or_default m ''sessionId'',
     param_or_default m ''fileId'', param_or_default m ''token'')) (query_map q)"

text \<open>Under the lock: the checks, and the index into \<open>files\<close>, which panics on a missing key.\<close>

datatype upload_check = Upload_refused | Upload_panic | Upload_accepted file_meta string

definition check_upload :: "rstate \<Rightarrow> string \<Rightarrow> string \<Rightarrow> string \<Rightarrow> upload_check" where
  "check_upload st session_id file_id token = (case st of
       Sending s \<Rightarrow>
         if s_id s = session_id \<and> token \<noteq> '''' \<and> hm_get (s_tokens s) file_id = Some token
            \<and> file_id |\<notin>| s_received s
         then (case hm_get (s_files s) file_id of
             Some meta \<Rightarrow> Upload_accepted meta (s_from_alias s)
           | None \<Rightarrow> Upload_panic)
         else Upload_refused
     | _ \<Rightarrow> Upload_refused)"

text \<open>Under the lock again, after the file was saved.\<close>

definition upload_commit :: "string \<Rightarrow> rstate \<Rightarrow> rstate" where
  "upload_commit file_id st = (case st of
       Sending s \<Rightarrow>
         (let s' = s\<lparr>s_received := finsert file_id (s_received s)\<rparr> in
          if fcard (s_received s') = hm_len (s_files s') then Idle else Sending s')
     | _ \<Rightarrow> st)"

record upload_env =
  ue_create :: bool
  ue_frames :: "(frame \<times> chunk_outcome) list"
  ue_flush :: bool
  ue_remove :: bool

text \<open>The whole handler; \<open>None\<close> is a panic, which leaves the state as it was.\<close>

definition handle_upload ::
    "recv_config \<Rightarrow> upload_env \<Rightarrow> string option \<Rightarrow> rstate \<times> fs \<times> saved_file list
      \<Rightarrow> (response \<times> rstate \<times> fs \<times> saved_file list) option" where
  "handle_upload cfg env query s =
     (let (st, f, saved) = s in
      case upload_params query of
        None \<Rightarrow> None
      | Some (session_id, file_id, token) \<Rightarrow>
          (case check_upload st session_id file_id token of
             Upload_refused \<Rightarrow> Some (status 404, st, f, saved)
           | Upload_panic \<Rightarrow> None
           | Upload_accepted meta from_alias \<Rightarrow>
               (case save_body (ue_create env) (ue_frames env) (ue_flush env) (ue_remove env)
                       (rc_save_dir cfg) meta f of
                  (Inr path, g) \<Rightarrow> Some (status 200, upload_commit file_id st, g,
                     saved @ [\<lparr>sf_path = path, sf_from = from_alias\<rparr>])
                | (Inl _, g) \<Rightarrow> Some (status 500, Idle, g, saved))))"

section \<open>Cancel\<close>

definition cancel_session :: "string \<Rightarrow> rstate \<Rightarrow> response \<times> rstate" where
  "cancel_session session_id st = (case st of
       Sending s \<Rightarrow> if s_id s = session_id then (status 200, Idle) else (status 404, st)
     | _ \<Rightarrow> (status 404, st))"

definition handle_cancel :: "string option \<Rightarrow> rstate \<Rightarrow> (response \<times> rstate) option" where
  "handle_cancel query st =
     map_option (\<lambda>m. cancel_session (param_or_default m ''sessionId'') st) (query_map query)"

section \<open>Well-formed sessions\<close>

text \<open>
  \<open>session_keys\<close>: every file of the session has a token and every token a file, which is
  all the index in \<open>check_upload\<close> needs.  \<open>session_ok\<close>: moreover what was received is part
  of what was announced, and something is missing.
\<close>

definition session_keys :: "session \<Rightarrow> bool" where
  "session_keys s \<longleftrightarrow> fmdom (s_tokens s) = fmdom (s_files s)"

definition session_ok :: "session \<Rightarrow> bool" where
  "session_ok s \<longleftrightarrow> session_keys s \<and> s_received s |\<subset>| fmdom (s_files s)"

fun state_keys :: "rstate \<Rightarrow> bool" where
  "state_keys (Sending s) = session_keys s"
| "state_keys _ = True"

fun state_ok :: "rstate \<Rightarrow> bool" where
  "state_ok (Sending s) = session_ok s"
| "state_ok _ = True"

lemma state_ok_keys: "state_ok st \<Longrightarrow> state_keys st"
  by (cases st) (simp_all add: session_ok_def)

lemma new_session_keys [simp]: "session_keys (new_session sid tok p)"
  by (simp add: session_keys_def new_session_def)

lemma new_session_ok:
  assumes "fmdom' (pr_files p) \<noteq> {}"
  shows "session_ok (new_session sid tok p)"
proof -
  have "fmdom (pr_files p) \<noteq> {||}" using assms by (auto simp: fmdom'_alt_def)
  then show ?thesis
    using new_session_keys [of sid tok p]
    by (simp add: session_ok_def) (simp add: new_session_def pfsubsetI)
qed

lemma new_session_token [simp]:
  "hm_get (s_tokens (new_session sid tok p)) fid = map_option (\<lambda>_. tok fid) (hm_get (pr_files p) fid)"
  by (simp add: new_session_def)

lemma new_session_simps [simp]:
  "s_id (new_session sid tok p) = sid" "s_files (new_session sid tok p) = pr_files p"
  "s_received (new_session sid tok p) = {||}"
  "s_from_alias (new_session sid tok p) = pi_alias (pr_info p)"
  by (simp_all add: new_session_def)

lemma status_simps [simp]:
  "rs_status (status c) = c" "rs_body (status c) = No_body" "status c = status d \<longleftrightarrow> c = d"
  by (simp_all add: status_def)

lemma json_simps [simp]: "rs_status (json b) = 200" "rs_body (json b) = b"
  by (simp_all add: json_def)

lemma prepare_parse_cases:
  obtains (err) r where "prepare_parse fsl body = Inl r" "rs_status (respond r) \<in> {400, 500}"
  | (ok) b p where "body = Some b" "fsl b = Some p" "fmdom' (pr_files p) \<noteq> {}"
      "prepare_parse fsl body = Inr p"
proof (cases body)
  case None
  then show ?thesis using err [of "Inl ()"] by (simp add: prepare_parse_def respond_def)
next
  case (Some b)
  show ?thesis
  proof (cases "fsl b")
    case None
    with Some show ?thesis using err [of "Inr (status 400)"] by (simp add: prepare_parse_def respond_def)
  next
    case (Some p)
    with \<open>body = Some b\<close> show ?thesis
      using err [of "Inr (status 400)"] ok [of b p]
      by (cases "fmdom' (pr_files p) = {}") (simp_all add: prepare_parse_def respond_def)
  qed
qed

lemma prepare_parse_InrD:
  "prepare_parse fsl body = Inr p \<Longrightarrow> (\<exists>b. body = Some b \<and> fsl b = Some p) \<and> fmdom' (pr_files p) \<noteq> {}"
  by (rule prepare_parse_cases [of fsl body]) auto

lemma check_upload_accepted_iff:
  "check_upload st sid fid tok = Upload_accepted meta al \<longleftrightarrow>
    (\<exists>s. st = Sending s \<and> s_id s = sid \<and> tok \<noteq> '''' \<and> hm_get (s_tokens s) fid = Some tok
      \<and> fid |\<notin>| s_received s \<and> hm_get (s_files s) fid = Some meta \<and> s_from_alias s = al)"
  by (auto simp: check_upload_def split: rstate.split option.split)

lemma check_upload_no_panic: "state_keys st \<Longrightarrow> check_upload st sid fid tok \<noteq> Upload_panic"
  by (cases st)
    (auto simp: check_upload_def session_keys_def split: option.split dest: fmdomI fmdom_notI)

lemma upload_commit_Sending:
  "upload_commit fid (Sending s) =
    (if fcard (finsert fid (s_received s)) = hm_len (s_files s) then Idle
     else Sending (s\<lparr>s_received := finsert fid (s_received s)\<rparr>))"
  by (simp add: upload_commit_def Let_def)

lemma upload_commit_other [simp]: "upload_commit fid Idle = Idle" "upload_commit fid Pending = Pending"
  by (simp_all add: upload_commit_def)

lemma upload_commit_keys: "state_keys st \<Longrightarrow> state_keys (upload_commit fid st)"
  by (cases st) (simp_all add: upload_commit_Sending session_keys_def)

lemma hm_len_fcard: "hm_len m = fcard (fmdom m)"
  by (simp add: hm_len_def fmdom'_alt_def fcard.rep_eq)

lemma received_all_iff:
  assumes "R |\<subseteq>| fmdom m"
  shows "fcard R = hm_len m \<longleftrightarrow> R = fmdom m"
  using assms fcard_seteq [of R "fmdom m"] by (auto simp: hm_len_fcard)

lemma upload_commit_ok:
  assumes "session_ok s" and "fid |\<in>| fmdom (s_files s)"
  shows "state_ok (upload_commit fid (Sending s))"
proof -
  have sub: "finsert fid (s_received s) |\<subseteq>| fmdom (s_files s)"
    using assms by (auto simp: session_ok_def)
  with assms show ?thesis
    by (auto simp: upload_commit_Sending received_all_iff [OF sub] session_ok_def session_keys_def)
qed

lemma handle_upload_cases:
  assumes "handle_upload cfg env q (st, f, sv) = Some (r, st', f', sv')"
  obtains (refused) sid fid tok where "upload_params q = Some (sid, fid, tok)"
      "check_upload st sid fid tok = Upload_refused" "r = status 404" "st' = st" "f' = f" "sv' = sv"
  | (saved) sid fid tok meta al path where "upload_params q = Some (sid, fid, tok)"
      "check_upload st sid fid tok = Upload_accepted meta al"
      "save_body (ue_create env) (ue_frames env) (ue_flush env) (ue_remove env)
         (rc_save_dir cfg) meta f = (Inr path, f')"
      "r = status 200" "st' = upload_commit fid st" "sv' = sv @ [\<lparr>sf_path = path, sf_from = al\<rparr>]"
  | (failed) sid fid tok meta al e where "upload_params q = Some (sid, fid, tok)"
      "check_upload st sid fid tok = Upload_accepted meta al"
      "save_body (ue_create env) (ue_frames env) (ue_flush env) (ue_remove env)
         (rc_save_dir cfg) meta f = (Inl e, f')"
      "r = status 500" "st' = Idle" "sv' = sv"
proof -
  obtain sid fid tok where q: "upload_params q = Some (sid, fid, tok)"
    using assms by (cases "upload_params q") (auto simp: handle_upload_def)
  show ?thesis
  proof (cases "check_upload st sid fid tok")
    case Upload_refused
    with q assms show ?thesis by (intro refused [OF q]) (simp_all add: handle_upload_def)
  next
    case Upload_panic
    with q assms show ?thesis by (simp add: handle_upload_def)
  next
    case (Upload_accepted meta al)
    obtain x g where sb: "save_body (ue_create env) (ue_frames env) (ue_flush env) (ue_remove env)
        (rc_save_dir cfg) meta f = (x, g)"
      by fastforce
    show ?thesis
    proof (cases x)
      case (Inl e)
      with q Upload_accepted sb assms show ?thesis
        by (intro failed [OF q Upload_accepted]) (simp_all add: handle_upload_def)
    next
      case (Inr path)
      with q Upload_accepted sb assms show ?thesis
        by (intro saved [OF q Upload_accepted]) (auto simp: handle_upload_def)
    qed
  qed
qed

lemma handle_prepare_cases:
  assumes "handle_prepare fsl tv env body (st, ts, f) = (r, req, st', ts', f')"
  obtains (bad) e where "prepare_parse fsl body = Inl e" "r = respond e" "req = None"
      "st' = st" "ts' = ts" "f' = f"
  | (busy) p where "prepare_parse fsl body = Inr p" "st \<noteq> Idle" "r = status 409" "req = None"
      "st' = st" "ts' = ts" "f' = f"
  | (refused) p where "prepare_parse fsl body = Inr p" "st = Idle" "pe_approval env \<noteq> Answer True"
      "r = status (if pe_approval env = Timed_out then 408 else 403)"
      "req = Some (prepare_request ts p)" "st' = Idle" "ts' = ts" "f' = f"
  | (granted) p u where "prepare_parse fsl body = Inr p" "st = Idle" "pe_approval env = Answer True"
      "ts_add tv (pe_now env) (pe_mkdir env) (pe_write env)
         (pi_fingerprint (pr_info p)) (pi_alias (pr_info p)) ts f = (u, ts', f')"
      "r = prepare_response (new_session (pe_sid env) (pe_tok env) p)"
      "req = Some (prepare_request ts p)" "st' = Sending (new_session (pe_sid env) (pe_tok env) p)"
proof (cases "prepare_parse fsl body")
  case (Inl e)
  with assms show ?thesis by (intro bad [OF Inl]) (simp_all add: handle_prepare_def)
next
  case (Inr p)
  show ?thesis
  proof (cases "st = Idle")
    case False
    then have "prepare_claim st = Inl (status 409)" by (cases st) (simp_all add: prepare_claim_def)
    with assms Inr show ?thesis by (intro busy [OF Inr False]) (simp_all add: handle_prepare_def)
  next
    case True
    then have c: "prepare_claim st = Inr Pending" by (simp add: prepare_claim_def)
    show ?thesis
    proof (cases "pe_approval env = Answer True")
      case False
      then have "approval_refusal (pe_approval env) =
          Some (status (if pe_approval env = Timed_out then 408 else 403))"
        by (cases "pe_approval env") (auto simp: approval_refusal_def)
      with assms Inr c show ?thesis
        by (intro refused [OF Inr True False]) (auto simp: handle_prepare_def)
    next
      case app: True
      obtain u t g where a: "ts_add tv (pe_now env) (pe_mkdir env) (pe_write env)
         (pi_fingerprint (pr_info p)) (pi_alias (pr_info p)) ts f = (u, t, g)"
        by (metis prod_cases3)
      have ref: "approval_refusal (pe_approval env) = None"
        using app by (simp add: approval_refusal_def)
      from assms Inr c ref a show ?thesis
        by (intro granted [OF Inr True app, of u]) (simp_all add: handle_prepare_def Let_def)
    qed
  qed
qed

section \<open>What each handler answers\<close>

lemma save_body_iff:
  assumes "fs_ok f"
  shows "(\<exists>p g. save_body c frs fl rm dir meta f = (Inr p, g)) \<longleftrightarrow>
    c \<and> fl \<and> (\<forall>x \<in> set frs. frame_ok x) \<and> of_nat (length (body_bytes frs)) = fm_size meta"
proof
  assume "\<exists>p g. save_body c frs fl rm dir meta f = (Inr p, g)"
  then obtain p g where "save_body c frs fl rm dir meta f = (Inr p, g)" by blast
  from save_body_saved(4,6) [OF this assms]
  show "c \<and> fl \<and> (\<forall>x \<in> set frs. frame_ok x) \<and> of_nat (length (body_bytes frs)) = fm_size meta"
    by simp
next
  assume "c \<and> fl \<and> (\<forall>x \<in> set frs. frame_ok x) \<and> of_nat (length (body_bytes frs)) = fm_size meta"
  then show "\<exists>p g. save_body c frs fl rm dir meta f = (Inr p, g)"
    using save_body_complete [OF _ _ assms, of frs meta rm dir] by auto
qed

lemma upload_again_refused:
  "check_upload st sid fid tok = Upload_accepted meta al \<Longrightarrow>
    check_upload (upload_commit fid st) sid fid tok = Upload_refused"
  by (auto simp: check_upload_accepted_iff upload_commit_Sending) (simp_all add: check_upload_def)

text \<open>
  C22: An upload request is answered 200 exactly when it names the current session, gives the
  token issued for a file not yet received, and its body is stored whole with the announced
  size; every other request for a well-formed state is answered 404 and changes nothing, or
  500 and ends the session. It never panics once the query is decoded.
\<close>

theorem upload_answer:
  assumes "fs_ok f" and "state_keys st" and "upload_params q = Some (sid, fid, tok)"
  shows "\<exists>r st' g sv'. handle_upload cfg env q (st, f, sv) = Some (r, st', g, sv')
    \<and> (rs_status r = 200 \<longleftrightarrow> (\<exists>s meta. st = Sending s \<and> s_id s = sid \<and> tok \<noteq> ''''
        \<and> hm_get (s_tokens s) fid = Some tok \<and> fid |\<notin>| s_received s
        \<and> hm_get (s_files s) fid = Some meta
        \<and> ue_create env \<and> ue_flush env \<and> (\<forall>x \<in> set (ue_frames env). frame_ok x)
        \<and> of_nat (length (body_bytes (ue_frames env))) = fm_size meta))
    \<and> (rs_status r = 404 \<longrightarrow> st' = st \<and> g = f \<and> sv' = sv)
    \<and> (rs_status r = 500 \<longrightarrow> st' = Idle \<and> sv' = sv)
    \<and> rs_status r \<in> {200, 404, 500}"
proof (cases "check_upload st sid fid tok")
  case Upload_refused
  then have "\<nexists>meta al. check_upload st sid fid tok = Upload_accepted meta al" by simp
  then show ?thesis
    using Upload_refused assms(3) unfolding check_upload_accepted_iff
    by (auto simp: handle_upload_def)
next
  case Upload_panic
  with check_upload_no_panic [OF assms(2)] show ?thesis by simp
next
  case (Upload_accepted meta al)
  then obtain s where s: "st = Sending s" "s_id s = sid" "tok \<noteq> ''''"
    "hm_get (s_tokens s) fid = Some tok" "fid |\<notin>| s_received s" "hm_get (s_files s) fid = Some meta"
    by (auto simp: check_upload_accepted_iff)
  obtain x g where sb: "save_body (ue_create env) (ue_frames env) (ue_flush env) (ue_remove env)
      (rc_save_dir cfg) meta f = (x, g)"
    by fastforce
  show ?thesis
  proof (cases x)
    case (Inl e)
    then have "\<not> (ue_create env \<and> ue_flush env \<and> (\<forall>x \<in> set (ue_frames env). frame_ok x)
        \<and> of_nat (length (body_bytes (ue_frames env))) = fm_size meta)"
      using sb save_body_iff [OF assms(1)] by (metis Inl_Inr_False prod.inject)
    with Inl sb Upload_accepted assms(3) s show ?thesis by (auto simp: handle_upload_def)
  next
    case (Inr p)
    then have "ue_create env \<and> ue_flush env \<and> (\<forall>x \<in> set (ue_frames env). frame_ok x)
        \<and> of_nat (length (body_bytes (ue_frames env))) = fm_size meta"
      using sb save_body_iff [OF assms(1)] by blast
    with Inr sb Upload_accepted assms(3) s show ?thesis by (auto simp: handle_upload_def)
  qed
qed

text \<open>
  A token is good for one upload: the request that was just answered 200, sent again
  with any body, is answered 404 and changes nothing.
\<close>

theorem upload_no_replay:
  assumes "handle_upload cfg env q (st, f, sv) = Some (r, st', g, sv')" and "rs_status r = 200"
  shows "handle_upload cfg env' q (st', g, sv') = Some (status 404, st', g, sv')"
  using assms(1)
proof (cases rule: handle_upload_cases)
  case (saved sid fid tok meta al path)
  then show ?thesis using upload_again_refused [OF saved(2)] by (simp add: handle_upload_def)
qed (use assms(2) in simp_all)

text \<open>
  C23: A prepare request is answered 200 exactly when it parses and lists files, the receiver
  is idle, and the user approved in time; then every file gets a token in a fresh session and
  the sender is trusted if the clock could be formatted. Every refusal leaves session, trust
  and files alone: 409 when busy, 408 on a timeout, 403 on a rejection, else 400 or 500.
\<close>

theorem prepare_answer:
  assumes "handle_prepare from_slice to_vec env body (st, ts, f) = (r, req, st', ts', f')"
  shows "(rs_status r = 200 \<longrightarrow> (\<exists>p ses. prepare_parse from_slice body = Inr p
        \<and> st = Idle \<and> pe_approval env = Answer True \<and> st' = Sending ses
        \<and> rs_body r = Prepare_body \<lparr>ps_session_id = s_id ses, ps_tokens = s_tokens ses\<rparr>
        \<and> s_files ses = pr_files p \<and> fmdom (s_tokens ses) = fmdom (pr_files p) \<and> session_ok ses
        \<and> (pe_now env \<noteq> None \<longrightarrow> ts_contains ts' (pi_fingerprint (pr_info p)))))
    \<and> (rs_status r \<noteq> 200 \<longrightarrow> st' = st \<and> ts' = ts \<and> f' = f)
    \<and> (rs_status r = 409 \<longleftrightarrow> st \<noteq> Idle \<and> (\<exists>p. prepare_parse from_slice body = Inr p))
    \<and> (rs_status r = 408 \<longrightarrow> pe_approval env = Timed_out)
    \<and> (rs_status r = 403 \<longrightarrow> pe_approval env = Answer False)
    \<and> (st = Idle \<and> (\<exists>p. prepare_parse from_slice body = Inr p) \<and> pe_approval env = Answer True
        \<longrightarrow> rs_status r = 200)
    \<and> rs_status r \<in> {200, 400, 403, 408, 409, 500}"
  using assms
proof (cases rule: handle_prepare_cases)
  case (bad e)
  obtain e' where "e = e'" "rs_status (respond e') \<in> {400, 500}"
    using bad(1) by (cases rule: prepare_parse_cases [of from_slice body]) auto
  with bad show ?thesis by auto
next
  case (busy p)
  then show ?thesis by auto
next
  case (refused p)
  then show ?thesis by (cases "pe_approval env") auto
next
  case (granted p u)
  have "session_ok (new_session (pe_sid env) (pe_tok env) p)"
    using new_session_ok prepare_parse_InrD [OF granted(1)] by blast
  moreover have "pe_now env \<noteq> None \<longrightarrow> ts_contains ts' (pi_fingerprint (pr_info p))"
    using ts_contains_add [OF granted(4)] by blast
  ultimately show ?thesis
    using granted new_session_keys by (auto simp: prepare_response_def session_keys_def)
qed

text \<open>
  Only the session's own id cancels it: then the receiver is idle again and the answer is
  200; any other cancel is answered 404 and leaves the state alone.
\<close>

theorem cancel_answer:
  assumes "query_map q = Some m"
  shows "handle_cancel q st =
    (if \<exists>s. st = Sending s \<and> s_id s = param_or_default m ''sessionId''
     then Some (status 200, Idle) else Some (status 404, st))"
  using assms by (cases st) (auto simp: handle_cancel_def cancel_session_def)

section \<open>A whole transfer\<close>

fun upload_all ::
    "recv_config \<Rightarrow> (upload_env \<times> string option) list \<Rightarrow> rstate \<times> fs \<times> saved_file list
      \<Rightarrow> (response list \<times> rstate \<times> fs \<times> saved_file list) option" where
  "upload_all cfg [] s = Some ([], s)"
| "upload_all cfg ((env, q) # us) s =
     (case handle_upload cfg env q s of
        None \<Rightarrow> None
      | Some (r, s') \<Rightarrow> map_option (\<lambda>(rs, s''). (r # rs, s'')) (upload_all cfg us s'))"

text \<open>A body fit for a file: it arrives whole and has the announced size.\<close>

definition fit_upload :: "upload_env \<Rightarrow> file_meta \<Rightarrow> bool" where
  "fit_upload env meta \<longleftrightarrow> ue_create env \<and> ue_flush env \<and> (\<forall>x \<in> set (ue_frames env). frame_ok x)
     \<and> of_nat (length (body_bytes (ue_frames env))) = fm_size meta"

definition saves_body :: "fs \<Rightarrow> string \<Rightarrow> string \<times> upload_env \<Rightarrow> saved_file \<Rightarrow> bool" where
  "saves_body f from_alias u sf \<longleftrightarrow> fs_read f (sf_path sf) = Some (body_bytes (ue_frames (snd u)))
     \<and> sf_from sf = from_alias"

lemma handle_upload_fit:
  assumes "fs_ok f" and "upload_params q = Some (s_id s, fid, tok)" and "tok \<noteq> ''''"
    and "hm_get (s_tokens s) fid = Some tok" and "fid |\<notin>| s_received s"
    and "hm_get (s_files s) fid = Some meta" and "fit_upload env meta"
  shows "\<exists>p g. handle_upload cfg env q (Sending s, f, sv) =
      Some (status 200, upload_commit fid (Sending s), g, sv @ [\<lparr>sf_path = p, sf_from = s_from_alias s\<rparr>])
    \<and> fs_ok g \<and> fs_read g p = Some (body_bytes (ue_frames env))
    \<and> (\<forall>x d. fs_read f x = Some d \<longrightarrow> fs_read g x = Some d)"
proof -
  have "check_upload (Sending s) (s_id s) fid tok = Upload_accepted meta (s_from_alias s)"
    using assms by (simp add: check_upload_accepted_iff)
  moreover obtain p g where sb: "save_body (ue_create env) (ue_frames env) (ue_flush env) (ue_remove env)
      (rc_save_dir cfg) meta f = (Inr p, g)"
    using assms(7) save_body_iff [OF assms(1)] unfolding fit_upload_def by blast
  moreover note sv = save_body_saved [OF sb assms(1)]
  moreover have "fs_read f p = None"
    using sv(1) resolve_fresh [of f "rc_save_dir cfg" "save_name meta"] by (simp add: fs_exists_read)
  then have "\<forall>x d. fs_read f x = Some d \<longrightarrow> fs_read g x = Some d"
    using sv(5) by (metis option.distinct(1))
  ultimately show ?thesis using assms(2) by (auto simp: handle_upload_def)
qed

text \<open>
  What one upload leaves to do: the last one ends the session, any other leaves a session with
  the rest of the files.
\<close>

lemma upload_commit_rest:
  assumes "session_ok s" and "fid |\<in>| fmdom (s_files s)"
    and "set fids = fset (fmdom (s_files s) |-| finsert fid (s_received s))"
  shows "fids = [] \<Longrightarrow> upload_commit fid (Sending s) = Idle"
    and "fids \<noteq> [] \<Longrightarrow> upload_commit fid (Sending s) = Sending (s\<lparr>s_received := finsert fid (s_received s)\<rparr>)
      \<and> session_ok (s\<lparr>s_received := finsert fid (s_received s)\<rparr>)"
proof -
  have sub: "finsert fid (s_received s) |\<subseteq>| fmdom (s_files s)"
    using assms(1,2) by (auto simp: session_ok_def)
  have "fids = [] \<longleftrightarrow> fmdom (s_files s) |-| finsert fid (s_received s) = {||}"
    using assms(3) by (metis fset_inverse bot_fset.rep_eq set_empty)
  with sub have all: "fids = [] \<longleftrightarrow> finsert fid (s_received s) = fmdom (s_files s)" by blast
  then show "fids = [] \<Longrightarrow> upload_commit fid (Sending s) = Idle"
    by (simp add: upload_commit_Sending received_all_iff [OF sub, symmetric] hm_len_fcard)
  show "fids \<noteq> [] \<Longrightarrow> upload_commit fid (Sending s) = Sending (s\<lparr>s_received := finsert fid (s_received s)\<rparr>)
      \<and> session_ok (s\<lparr>s_received := finsert fid (s_received s)\<rparr>)"
    using all upload_commit_ok [OF assms(1,2)]
    by (simp add: upload_commit_Sending received_all_iff [OF sub])
qed

lemma upload_all_complete:
  assumes "fs_ok f" and "session_ok s"
    and "set (map fst ups) = fset (fmdom (s_files s) |-| s_received s)" and "distinct (map fst ups)"
    and "\<And>fid env. (fid, env) \<in> set ups \<Longrightarrow> \<exists>tok meta. upload_params (qf fid) = Some (s_id s, fid, tok)
      \<and> tok \<noteq> '''' \<and> hm_get (s_tokens s) fid = Some tok \<and> hm_get (s_files s) fid = Some meta
      \<and> fit_upload env meta"
  shows "\<exists>g sv'. upload_all cfg (map (\<lambda>(fid, env). (env, qf fid)) ups) (Sending s, f, sv) =
      Some (replicate (length ups) (status 200), Idle, g, sv @ sv')
    \<and> list_all2 (saves_body g (s_from_alias s)) ups sv'
    \<and> (\<forall>x d. fs_read f x = Some d \<longrightarrow> fs_read g x = Some d)"
  using assms
proof (induction ups arbitrary: f s sv)
  case Nil
  then have "fmdom (s_files s) |\<subseteq>| s_received s" by (simp add: less_eq_fset.rep_eq)
  with Nil show ?case by (auto simp: session_ok_def)
next
  case (Cons u ups)
  obtain fid env where u: "u = (fid, env)" by (cases u)
  have fid: "fid |\<in>| fmdom (s_files s)" "fid |\<notin>| s_received s"
    using Cons.prems(3) u by auto
  from Cons.prems(5) [of fid env] u obtain tok meta where 1: "upload_params (qf fid) = Some (s_id s, fid, tok)"
      "tok \<noteq> ''''" "hm_get (s_tokens s) fid = Some tok" "hm_get (s_files s) fid = Some meta" "fit_upload env meta"
    by auto
  from handle_upload_fit [OF Cons.prems(1) 1(1-3) fid(2) 1(4-5), of cfg sv]
  obtain p g where h: "handle_upload cfg env (qf fid) (Sending s, f, sv) =
      Some (status 200, upload_commit fid (Sending s), g, sv @ [\<lparr>sf_path = p, sf_from = s_from_alias s\<rparr>])"
    and g: "fs_ok g" "fs_read g p = Some (body_bytes (ue_frames env))"
      "\<forall>x d. fs_read f x = Some d \<longrightarrow> fs_read g x = Some d"
    by blast
  let ?s' = "s\<lparr>s_received := finsert fid (s_received s)\<rparr>" and ?sf = "\<lparr>sf_path = p, sf_from = s_from_alias s\<rparr>"
  have rest: "set (map fst ups) = fset (fmdom (s_files s) |-| finsert fid (s_received s))"
    using Cons.prems(3,4) u fid by auto
  note c = upload_commit_rest [OF Cons.prems(2) fid(1) rest]
  have saved: "saves_body h' (s_from_alias s) u ?sf" if "\<forall>x d. fs_read g x = Some d \<longrightarrow> fs_read h' x = Some d" for h'
    using that g(2) u by (simp add: saves_body_def)
  show ?case
  proof (cases "ups = []")
    case True
    with u h g c(1) saved [of g] show ?thesis by (intro exI [of _ g] exI [of _ "[?sf]"]) simp
  next
    case False
    with c(2) have c: "upload_commit fid (Sending s) = Sending ?s'" "session_ok ?s'" by simp_all
    have "\<exists>h sv'. upload_all cfg (map (\<lambda>(fid, env). (env, qf fid)) ups) (Sending ?s', g, sv @ [?sf]) =
        Some (replicate (length ups) (status 200), Idle, h, (sv @ [?sf]) @ sv')
      \<and> list_all2 (saves_body h (s_from_alias ?s')) ups sv'
      \<and> (\<forall>x d. fs_read g x = Some d \<longrightarrow> fs_read h x = Some d)"
      by (rule Cons.IH [OF g(1) c(2)]) (use rest Cons.prems(4,5) u in auto)
    then obtain h' sv' where IH: "upload_all cfg (map (\<lambda>(fid, env). (env, qf fid)) ups) (Sending ?s', g, sv @ [?sf]) =
        Some (replicate (length ups) (status 200), Idle, h', (sv @ [?sf]) @ sv')"
      "list_all2 (saves_body h' (s_from_alias s)) ups sv'" "\<forall>x d. fs_read g x = Some d \<longrightarrow> fs_read h' x = Some d"
      by auto
    with u h c(1) g saved [OF IH(3)] show ?thesis by (intro exI [of _ h'] exI [of _ "?sf # sv'"]) simp
  qed
qed

end
