(* ===== verification/Recv_Refinement.thy ===== *)
theory Recv_Refinement
  imports Recv_Session
begin

text \<open>
  What the session protocol promises, as a specification, and the proof that the handlers
  of \<open>Recv_Session\<close>, served one after the other, implement it.  The specification keeps of
  a session only its id and the files still to come.
\<close>

section \<open>Serving requests one by one\<close>

record receiver =
  rv_state :: rstate
  rv_trust :: trust_store
  rv_fs :: fs
  rv_saved :: "saved_file list"

datatype call =
    Call_prepare prepare_env "string option"
  | Call_upload upload_env "string option"
  | Call_cancel "string option"

text \<open>One request, served to the end; \<open>None\<close> is a panic of its handler.\<close>

fun serve ::
    "(string \<Rightarrow> prepare_upload_request option) \<Rightarrow> ((string, trusted_device) hash_map \<Rightarrow> string)
      \<Rightarrow> recv_config \<Rightarrow> call \<Rightarrow> receiver \<Rightarrow> (response \<times> receiver) option" where
  "serve fsl tv cfg (Call_prepare env body) s =
     (let (r, _, st, ts, f) = handle_prepare fsl tv env body (rv_state s, rv_trust s, rv_fs s)
      in Some (r, s\<lparr>rv_state := st, rv_trust := ts, rv_fs := f\<rparr>))"
| "serve fsl tv cfg (Call_upload env q) s =
     map_option (\<lambda>(r, st, f, sv). (r, s\<lparr>rv_state := st, rv_fs := f, rv_saved := sv\<rparr>))
       (handle_upload cfg env q (rv_state s, rv_fs s, rv_saved s))"
| "serve fsl tv cfg (Call_cancel q) s =
     map_option (\<lambda>(r, st). (r, s\<lparr>rv_state := st\<rparr>)) (handle_cancel q (rv_state s))"

definition serve_step ::
    "(string \<Rightarrow> prepare_upload_request option) \<Rightarrow> ((string, trusted_device) hash_map \<Rightarrow> string)
      \<Rightarrow> recv_config \<Rightarrow> receiver \<Rightarrow> call \<times> response \<Rightarrow> receiver \<Rightarrow> bool" where
  "serve_step fsl tv cfg s l t \<longleftrightarrow> serve fsl tv cfg (fst l) s = Some (snd l, t)"

section \<open>The specification\<close>

datatype spec_state = S_idle | S_pending | S_receiving string "string fset"

inductive spec_step :: "spec_state \<Rightarrow> call \<times> response \<Rightarrow> spec_state \<Rightarrow> bool" where
  spec_open: "rs_body r = Prepare_body \<lparr>ps_session_id = sid, ps_tokens = m\<rparr> \<Longrightarrow> fmdom m \<noteq> {||} \<Longrightarrow>
    spec_step S_idle (Call_prepare env body, r) (S_receiving sid (fmdom m))"
| spec_refuse: "rs_status r \<in> {400, 403, 408, 409, 500} \<Longrightarrow> (rs_status r = 409 \<longrightarrow> a \<noteq> S_idle) \<Longrightarrow>
    spec_step a (Call_prepare env body, r) a"
| spec_receive: "upload_params q = Some (sid, fid, tok) \<Longrightarrow> fid |\<in>| R \<Longrightarrow> R \<noteq> {|fid|} \<Longrightarrow>
    spec_step (S_receiving sid R) (Call_upload env q, status 200) (S_receiving sid (R |-| {|fid|}))"
| spec_finish: "upload_params q = Some (sid, fid, tok) \<Longrightarrow>
    spec_step (S_receiving sid {|fid|}) (Call_upload env q, status 200) S_idle"
| spec_fail: "spec_step (S_receiving sid R) (Call_upload env q, status 500) S_idle"
| spec_upload_refuse: "spec_step a (Call_upload env q, status 404) a"
| spec_cancel: "query_map q = Some m \<Longrightarrow> param_or_default m ''sessionId'' = sid \<Longrightarrow>
    spec_step (S_receiving sid R) (Call_cancel q, status 200) S_idle"
| spec_cancel_refuse: "spec_step a (Call_cancel q, status 404) a"

inductive_cases spec_from_idle: "spec_step S_idle l a"
inductive_cases spec_from_receiving: "spec_step (S_receiving sid R) l a"

fun abs_state :: "rstate \<Rightarrow> spec_state" where
  "abs_state Idle = S_idle"
| "abs_state Pending = S_pending"
| "abs_state (Sending s) = S_receiving (s_id s) (fmdom (s_files s) |-| s_received s)"

section \<open>The refinement\<close>

lemma prepare_step_refines:
  assumes "handle_prepare fsl tv env body (st, ts, f) = (r, req, st', ts', f')" and "state_ok st"
  shows "spec_step (abs_state st) (Call_prepare env body, r) (abs_state st') \<and> state_ok st'"
  using assms(1)
proof (cases rule: handle_prepare_cases)
  case (bad e)
  have "rs_status r \<in> {400, 500}"
    using bad by (cases rule: prepare_parse_cases [of fsl body]) auto
  with bad assms(2) show ?thesis by (auto intro!: spec_refuse)
next
  case (busy p)
  with assms(2) show ?thesis by (cases st) (auto intro!: spec_refuse)
next
  case (refused p)
  then show ?thesis by (auto intro!: spec_refuse)
next
  case (granted p u)
  let ?s = "new_session (pe_sid env) (pe_tok env) p"
  have ne: "fmdom' (pr_files p) \<noteq> {}" using prepare_parse_InrD [OF granted(1)] by blast
  have "fmdom (s_tokens ?s) = fmdom (pr_files p)"
    using new_session_keys [of "pe_sid env" "pe_tok env" p] by (simp add: session_keys_def)
  moreover from this ne have "fmdom (s_tokens ?s) \<noteq> {||}" by (auto simp: fmdom'_alt_def)
  ultimately have "spec_step S_idle (Call_prepare env body, r) (S_receiving (s_id ?s) (fmdom (pr_files p)))"
    using granted(5) spec_open [of r "s_id ?s" "s_tokens ?s" env body] by (simp add: prepare_response_def)
  then show ?thesis using granted new_session_ok [OF ne] by simp
qed

lemma upload_step_refines:
  assumes "handle_upload cfg env q (st, f, sv) = Some (r, st', f', sv')" and "state_ok st"
  shows "spec_step (abs_state st) (Call_upload env q, r) (abs_state st') \<and> state_ok st'"
  using assms(1)
proof (cases rule: handle_upload_cases)
  case (refused sid fid tok)
  with assms(2) show ?thesis by (auto intro: spec_upload_refuse)
next
  case (failed sid fid tok meta al e)
  then obtain s where "st = Sending s" by (auto simp: check_upload_accepted_iff)
  with failed show ?thesis by (auto intro: spec_fail)
next
  case (saved sid fid tok meta al path)
  then obtain s where s: "st = Sending s" "s_id s = sid" "fid |\<notin>| s_received s"
      "hm_get (s_files s) fid = Some meta"
    by (auto simp: check_upload_accepted_iff)
  have fid: "fid |\<in>| fmdom (s_files s)" using s(4) by (rule fmdomI)
  have ok: "session_ok s" using assms(2) s(1) by simp
  let ?R = "fmdom (s_files s) |-| s_received s"
  have R: "fmdom (s_files s) |-| finsert fid (s_received s) = ?R |-| {|fid|}" by auto
  have sub: "finsert fid (s_received s) |\<subseteq>| fmdom (s_files s)"
    using ok fid by (auto simp: session_ok_def)
  have last_iff: "finsert fid (s_received s) = fmdom (s_files s) \<longleftrightarrow> ?R = {|fid|}"
    using sub s(3) by blast
  show ?thesis
  proof (cases "?R = {|fid|}")
    case True
    then have "upload_commit fid st = Idle"
      using s(1) last_iff by (simp add: upload_commit_Sending hm_len_fcard)
    with saved s(1,2) True show ?thesis by (auto intro: spec_finish)
  next
    case False
    then have "upload_commit fid st = Sending (s\<lparr>s_received := finsert fid (s_received s)\<rparr>)"
      using s(1) last_iff by (simp add: upload_commit_Sending received_all_iff [OF sub])
    moreover have "spec_step (S_receiving sid ?R) (Call_upload env q, status 200) (S_receiving sid (?R |-| {|fid|}))"
      using saved(1) s(3) fid False by (intro spec_receive) auto
    ultimately show ?thesis
      using saved(4,5) s(1,2) R upload_commit_ok [OF ok fid] by simp
  qed
qed

lemma cancel_step_refines:
  assumes "handle_cancel q st = Some (r, st')" and "state_ok st"
  shows "spec_step (abs_state st) (Call_cancel q, r) (abs_state st') \<and> state_ok st'"
proof -
  obtain m where "query_map q = Some m" and "cancel_session (param_or_default m ''sessionId'') st = (r, st')"
    using assms(1) by (auto simp: handle_cancel_def)
  with assms(2) show ?thesis
    by (cases st) (auto simp: cancel_session_def intro: spec_cancel spec_cancel_refuse split: if_splits)
qed

lemma serve_step_refines:
  assumes "state_ok (rv_state s)" and "serve_step fsl tv cfg s l t"
  shows "spec_step (abs_state (rv_state s)) l (abs_state (rv_state t)) \<and> state_ok (rv_state t)"
proof -
  obtain c r where l: "l = (c, r)" by (cases l)
  with assms(2) have s: "serve fsl tv cfg c s = Some (r, t)" by (simp add: serve_step_def)
  show ?thesis
  proof (cases c)
    case (Call_prepare env body)
    obtain r' req st ts f where h: "handle_prepare fsl tv env body (rv_state s, rv_trust s, rv_fs s) =
        (r', req, st, ts, f)" by (metis prod_cases5)
    with s Call_prepare l prepare_step_refines [OF h assms(1)] show ?thesis by auto
  next
    case (Call_upload env q)
    with s obtain st f sv where h: "handle_upload cfg env q (rv_state s, rv_fs s, rv_saved s) =
        Some (r, st, f, sv)" and "t = s\<lparr>rv_state := st, rv_fs := f, rv_saved := sv\<rparr>" by auto
    with l Call_upload upload_step_refines [OF h assms(1)] show ?thesis by simp
  next
    case (Call_cancel q)
    with s obtain st where h: "handle_cancel q (rv_state s) = Some (r, st)"
      and "t = s\<lparr>rv_state := st\<rparr>" by auto
    with l Call_cancel cancel_step_refines [OF h assms(1)] show ?thesis by simp
  qed
qed

interpretation session_sim: simulation "serve_step fsl tv cfg" "\<lambda>s. state_ok (rv_state s)"
    spec_step "\<lambda>s. abs_state (rv_state s)" for fsl tv cfg
  by unfold_locales (use serve_step_refines in blast)+

text \<open>
  C2: Served one after the other, whatever requests arrive in whatever order, the handlers
  implement the session protocol: a session opens only from idle, keeps exactly the files not
  yet received, shrinks by the file just stored, and ends with the last file, a failed upload
  or a cancel carrying its id.
\<close>

theorem sessions_refine_protocol:
  assumes "run (serve_step from_slice to_vec cfg) s ls t" and "state_ok (rv_state s)"
  shows "run spec_step (abs_state (rv_state s)) ls (abs_state (rv_state t)) \<and> state_ok (rv_state t)"
  using session_sim.sim_run [OF assms] session_sim.run_inv [OF assms] by blast

end
