(* ===== verification/Recv_Server.thy ===== *)
theory Recv_Server
  imports Recv_Refinement
begin

text \<open>
  The receiver as it runs: every request is a task of its own, and the pieces of the
  handlers of \<open>Recv_Session\<close> interleave.  A task records where its handler stands; an
  event is one uninterrupted piece of one handler, together with what the outside world
  answers in it (the user's decision, a chunk of the body, a disk error, random values).
  \<open>E_drop\<close> is the runtime dropping a handler at an await, as it does when the client
  disconnects.  The flag of \<open>T_failed\<close> says whether the handler stands at such an await, the
  removal of the partial file, which only a file that was created needs.
\<close>

section \<open>Tasks and events\<close>

datatype task =
    T_claimed prepare_upload_request
  | T_asked prepare_upload_request transfer_request
  | T_granted prepare_upload_request
  | T_trusted prepare_upload_request
  | T_checked string string file_meta string
  | T_named string string file_meta string string
  | T_writing string string file_meta string string inode nat u64
  | T_saved string string string string
  | T_failed string string bool
  | T_done response

record server = receiver +
  sv_tasks :: "nat \<Rightarrow> task option"

datatype event =
    E_prepare nat "string option"
  | E_ask nat
  | E_answer nat approval
  | E_trust nat "string option" bool write_outcome
  | E_open nat string "string \<Rightarrow> string"
  | E_upload nat "string option"
  | E_name nat
  | E_create nat bool
  | E_frame nat frame chunk_outcome bool
  | E_end nat bool bool
  | E_settle nat
  | E_cancel nat "string option"
  | E_drop nat

definition set_task :: "nat \<Rightarrow> task option \<Rightarrow> server \<Rightarrow> server" where
  "set_task t x s = s\<lparr>sv_tasks := (sv_tasks s)(t := x)\<rparr>"

definition new_task :: "server \<Rightarrow> nat \<Rightarrow> bool" where
  "new_task s t \<longleftrightarrow> sv_tasks s t = None"

section \<open>One piece of a handler\<close>

text \<open>
  \<open>handle_prepare\<close>, in five pieces: claim the receiver, look the sender up and ask, take
  the answer, record the trust, open the session.
\<close>

definition on_prepare ::
    "(string \<Rightarrow> prepare_upload_request option) \<Rightarrow> nat \<Rightarrow> string option \<Rightarrow> server \<Rightarrow> server" where
  "on_prepare from_slice t body s =
     (case prepare_parse from_slice body of
        Inl r \<Rightarrow> set_task t (Some (T_done (respond r))) s
      | Inr p \<Rightarrow> (case prepare_claim (rv_state s) of
            Inl r \<Rightarrow> set_task t (Some (T_done r)) s
          | Inr st \<Rightarrow> set_task t (Some (T_claimed p)) (s\<lparr>rv_state := st\<rparr>)))"

definition on_ask :: "nat \<Rightarrow> prepare_upload_request \<Rightarrow> server \<Rightarrow> server" where
  "on_ask t p s = set_task t (Some (T_asked p (prepare_request (rv_trust s) p))) s"

definition on_answer :: "nat \<Rightarrow> prepare_upload_request \<Rightarrow> approval \<Rightarrow> server \<Rightarrow> server" where
  "on_answer t p a s = (case approval_refusal a of
       Some r \<Rightarrow> set_task t (Some (T_done r)) (s\<lparr>rv_state := Idle\<rparr>)
     | None \<Rightarrow> set_task t (Some (T_granted p)) s)"

definition on_trust ::
    "((string, trusted_device) hash_map \<Rightarrow> string) \<Rightarrow> nat \<Rightarrow> prepare_upload_request
      \<Rightarrow> string option \<Rightarrow> bool \<Rightarrow> write_outcome \<Rightarrow> server \<Rightarrow> server" where
  "on_trust to_vec t p now mk w s =
     (let (_, ts, f) = ts_add to_vec now mk w (pi_fingerprint (pr_info p)) (pi_alias (pr_info p))
          (rv_trust s) (rv_fs s)
      in set_task t (Some (T_trusted p)) (s\<lparr>rv_trust := ts, rv_fs := f\<rparr>))"

definition on_open :: "nat \<Rightarrow> prepare_upload_request \<Rightarrow> string \<Rightarrow> (string \<Rightarrow> string) \<Rightarrow> server \<Rightarrow> server" where
  "on_open t p sid tok s =
     (let ses = new_session sid tok p
      in set_task t (Some (T_done (prepare_response ses))) (s\<lparr>rv_state := Sending ses\<rparr>))"

text \<open>
  \<open>handle_upload\<close>: check under the lock (a panic ends the task without an answer), choose
  a name, create the file, write chunk by chunk, finish, and settle under the lock again.
\<close>

definition on_upload :: "nat \<Rightarrow> string option \<Rightarrow> server \<Rightarrow> server" where
  "on_upload t q s =
     (case upload_params q of
        None \<Rightarrow> s
      | Some (sid, fid, tok) \<Rightarrow>
          (case check_upload (rv_state s) sid fid tok of
             Upload_refused \<Rightarrow> set_task t (Some (T_done (status 404))) s
           | Upload_panic \<Rightarrow> s
           | Upload_accepted meta al \<Rightarrow> set_task t (Some (T_checked sid fid meta al)) s))"

definition on_name :: "recv_config \<Rightarrow> nat \<Rightarrow> string \<Rightarrow> string \<Rightarrow> file_meta \<Rightarrow> string \<Rightarrow> server \<Rightarrow> server" where
  "on_name cfg t sid fid meta al s =
     set_task t (Some (T_named sid fid meta al
       (resolve_collision (rv_fs s) (rc_save_dir cfg) (save_name meta)))) s"

definition on_create ::
    "nat \<Rightarrow> string \<Rightarrow> string \<Rightarrow> file_meta \<Rightarrow> string \<Rightarrow> string \<Rightarrow> bool \<Rightarrow> server \<Rightarrow> server" where
  "on_create t sid fid meta al target ok s =
     (if ok then
        (let (i, f) = fs_create (rv_fs s) target
         in set_task t (Some (T_writing sid fid meta al target i 0 0)) (s\<lparr>rv_fs := f\<rparr>))
      else set_task t (Some (T_failed sid fid False)) s)"

definition on_frame ::
    "nat \<Rightarrow> string \<Rightarrow> string \<Rightarrow> file_meta \<Rightarrow> string \<Rightarrow> string \<Rightarrow> inode \<Rightarrow> nat \<Rightarrow> u64
      \<Rightarrow> frame \<Rightarrow> chunk_outcome \<Rightarrow> bool \<Rightarrow> server \<Rightarrow> server" where
  "on_frame t sid fid meta al target i off w fr out rm s =
     (case save_frame fr out i off w (rv_fs s) of
        (Inl _, f) \<Rightarrow> set_task t (Some (T_failed sid fid True)) (s\<lparr>rv_fs := save_abort rm target f\<rparr>)
      | (Inr (off', w'), f) \<Rightarrow>
          set_task t (Some (T_writing sid fid meta al target i off' w')) (s\<lparr>rv_fs := f\<rparr>))"

definition on_end ::
    "nat \<Rightarrow> string \<Rightarrow> string \<Rightarrow> file_meta \<Rightarrow> string \<Rightarrow> string \<Rightarrow> u64 \<Rightarrow> bool \<Rightarrow> bool
      \<Rightarrow> server \<Rightarrow> server" where
  "on_end t sid fid meta al target w flush_ok rm s =
     (case save_finish flush_ok w meta of
        Inl _ \<Rightarrow> set_task t (Some (T_failed sid fid True)) (s\<lparr>rv_fs := save_abort rm target (rv_fs s)\<rparr>)
      | Inr _ \<Rightarrow> set_task t (Some (T_saved sid fid al target)) s)"

definition on_settle_saved :: "nat \<Rightarrow> string \<Rightarrow> string \<Rightarrow> string \<Rightarrow> server \<Rightarrow> server" where
  "on_settle_saved t fid al target s =
     set_task t (Some (T_done (status 200)))
       (s\<lparr>rv_state := upload_commit fid (rv_state s),
          rv_saved := rv_saved s @ [\<lparr>sf_path = target, sf_from = al\<rparr>]\<rparr>)"

definition on_settle_failed :: "nat \<Rightarrow> server \<Rightarrow> server" where
  "on_settle_failed t s = set_task t (Some (T_done (status 500))) (s\<lparr>rv_state := Idle\<rparr>)"

definition on_cancel :: "nat \<Rightarrow> string option \<Rightarrow> server \<Rightarrow> server" where
  "on_cancel t q s = (case handle_cancel q (rv_state s) of
       None \<Rightarrow> s
     | Some (r, st) \<Rightarrow> set_task t (Some (T_done r)) (s\<lparr>rv_state := st\<rparr>))"

text \<open>A handler can be dropped only where it awaits something.\<close>

fun droppable :: "task \<Rightarrow> bool" where
  "droppable (T_asked p r) = True"
| "droppable (T_named sid fid meta al target) = True"
| "droppable (T_writing sid fid meta al target i off w) = True"
| "droppable (T_failed sid fid removing) = removing"
| "droppable _ = False"

section \<open>Steps\<close>

inductive step ::
    "(string \<Rightarrow> prepare_upload_request option) \<Rightarrow> ((string, trusted_device) hash_map \<Rightarrow> string)
      \<Rightarrow> recv_config \<Rightarrow> server \<Rightarrow> event \<Rightarrow> server \<Rightarrow> bool"
  for fsl tv cfg where
  s_prepare: "new_task s t \<Longrightarrow> step fsl tv cfg s (E_prepare t body) (on_prepare fsl t body s)"
| s_ask: "sv_tasks s t = Some (T_claimed p) \<Longrightarrow> step fsl tv cfg s (E_ask t) (on_ask t p s)"
| s_answer: "sv_tasks s t = Some (T_asked p rq) \<Longrightarrow>
    step fsl tv cfg s (E_answer t a) (on_answer t p a s)"
| s_trust: "sv_tasks s t = Some (T_granted p) \<Longrightarrow>
    step fsl tv cfg s (E_trust t now mk w) (on_trust tv t p now mk w s)"
| s_open: "sv_tasks s t = Some (T_trusted p) \<Longrightarrow>
    step fsl tv cfg s (E_open t sid tok) (on_open t p sid tok s)"
| s_upload: "new_task s t \<Longrightarrow> step fsl tv cfg s (E_upload t q) (on_upload t q s)"
| s_name: "sv_tasks s t = Some (T_checked sid fid meta al) \<Longrightarrow>
    step fsl tv cfg s (E_name t) (on_name cfg t sid fid meta al s)"
| s_create: "sv_tasks s t = Some (T_named sid fid meta al target) \<Longrightarrow>
    step fsl tv cfg s (E_create t ok) (on_create t sid fid meta al target ok s)"
| s_frame: "sv_tasks s t = Some (T_writing sid fid meta al target i off w) \<Longrightarrow>
    step fsl tv cfg s (E_frame t fr out rm) (on_frame t sid fid meta al target i off w fr out rm s)"
| s_end: "sv_tasks s t = Some (T_writing sid fid meta al target i off w) \<Longrightarrow>
    step fsl tv cfg s (E_end t fl rm) (on_end t sid fid meta al target w fl rm s)"
| s_settle_saved: "sv_tasks s t = Some (T_saved sid fid al target) \<Longrightarrow>
    step fsl tv cfg s (E_settle t) (on_settle_saved t fid al target s)"
| s_settle_failed: "sv_tasks s t = Some (T_failed sid fid removing) \<Longrightarrow>
    step fsl tv cfg s (E_settle t) (on_settle_failed t s)"
| s_cancel: "new_task s t \<Longrightarrow> step fsl tv cfg s (E_cancel t q) (on_cancel t q s)"
| s_drop: "sv_tasks s t = Some x \<Longrightarrow> droppable x \<Longrightarrow>
    step fsl tv cfg s (E_drop t) (set_task t None s)"

definition server_init :: "trust_store \<Rightarrow> fs \<Rightarrow> server" where
  "server_init ts f = \<lparr>rv_state = Idle, rv_trust = ts, rv_fs = f, rv_saved = [], sv_tasks = (\<lambda>_. None)\<rparr>"

text \<open>The same steps as a function, to evaluate runs: \<open>None\<close> where the event cannot happen.\<close>

fun exec ::
    "(string \<Rightarrow> prepare_upload_request option) \<Rightarrow> ((string, trusted_device) hash_map \<Rightarrow> string)
      \<Rightarrow> recv_config \<Rightarrow> server \<Rightarrow> event \<Rightarrow> server option" where
  "exec fsl tv cfg s (E_prepare t body) = (if new_task s t then Some (on_prepare fsl t body s) else None)"
| "exec fsl tv cfg s (E_ask t) = (case sv_tasks s t of
     Some (T_claimed p) \<Rightarrow> Some (on_ask t p s) | _ \<Rightarrow> None)"
| "exec fsl tv cfg s (E_answer t a) = (case sv_tasks s t of
     Some (T_asked p rq) \<Rightarrow> Some (on_answer t p a s) | _ \<Rightarrow> None)"
| "exec fsl tv cfg s (E_trust t now mk w) = (case sv_tasks s t of
     Some (T_granted p) \<Rightarrow> Some (on_trust tv t p now mk w s) | _ \<Rightarrow> None)"
| "exec fsl tv cfg s (E_open t sid tok) = (case sv_tasks s t of
     Some (T_trusted p) \<Rightarrow> Some (on_open t p sid tok s) | _ \<Rightarrow> None)"
| "exec fsl tv cfg s (E_upload t q) = (if new_task s t then Some (on_upload t q s) else None)"
| "exec fsl tv cfg s (E_name t) = (case sv_tasks s t of
     Some (T_checked sid fid meta al) \<Rightarrow> Some (on_name cfg t sid fid meta al s) | _ \<Rightarrow> None)"
| "exec fsl tv cfg s (E_create t ok) = (case sv_tasks s t of
     Some (T_named sid fid meta al target) \<Rightarrow> Some (on_create t sid fid meta al target ok s) | _ \<Rightarrow> None)"
| "exec fsl tv cfg s (E_frame t fr out rm) = (case sv_tasks s t of
     Some (T_writing sid fid meta al target i off w) \<Rightarrow>
       Some (on_frame t sid fid meta al target i off w fr out rm s) | _ \<Rightarrow> None)"
| "exec fsl tv cfg s (E_end t fl rm) = (case sv_tasks s t of
     Some (T_writing sid fid meta al target i off w) \<Rightarrow>
       Some (on_end t sid fid meta al target w fl rm s) | _ \<Rightarrow> None)"
| "exec fsl tv cfg s (E_settle t) = (case sv_tasks s t of
     Some (T_saved sid fid al target) \<Rightarrow> Some (on_settle_saved t fid al target s)
   | Some (T_failed sid fid removing) \<Rightarrow> Some (on_settle_failed t s) | _ \<Rightarrow> None)"
| "exec fsl tv cfg s (E_cancel t q) = (if new_task s t then Some (on_cancel t q s) else None)"
| "exec fsl tv cfg s (E_drop t) = (case sv_tasks s t of
     Some x \<Rightarrow> if droppable x then Some (set_task t None s) else None | None \<Rightarrow> None)"

fun exec_all ::
    "(string \<Rightarrow> prepare_upload_request option) \<Rightarrow> ((string, trusted_device) hash_map \<Rightarrow> string)
      \<Rightarrow> recv_config \<Rightarrow> server \<Rightarrow> event list \<Rightarrow> server option" where
  "exec_all fsl tv cfg s [] = Some s"
| "exec_all fsl tv cfg s (e # es) = (case exec fsl tv cfg s e of
     None \<Rightarrow> None | Some s' \<Rightarrow> exec_all fsl tv cfg s' es)"

lemma step_iff_exec: "step fsl tv cfg s e s' \<longleftrightarrow> exec fsl tv cfg s e = Some s'"
proof
  show "step fsl tv cfg s e s' \<Longrightarrow> exec fsl tv cfg s e = Some s'"
    by (erule step.cases) auto
  show "exec fsl tv cfg s e = Some s' \<Longrightarrow> step fsl tv cfg s e s'"
    by (cases e) (auto split: option.splits task.splits if_splits intro: step.intros)
qed

lemma run_iff_exec_all: "run (step fsl tv cfg) s es s' \<longleftrightarrow> exec_all fsl tv cfg s es = Some s'"
  by (induction es arbitrary: s) (auto simp: run_Cons_iff step_iff_exec split: option.split)

section \<open>Rewriting a step\<close>

lemma set_task_simps [simp]:
  "sv_tasks (set_task t x s) u = (if u = t then x else sv_tasks s u)"
  "rv_state (set_task t x s) = rv_state s" "rv_trust (set_task t x s) = rv_trust s"
  "rv_fs (set_task t x s) = rv_fs s" "rv_saved (set_task t x s) = rv_saved s"
  by (simp_all add: set_task_def)

lemma server_init_simps [simp]:
  "rv_state (server_init ts f) = Idle" "rv_trust (server_init ts f) = ts"
  "rv_fs (server_init ts f) = f" "rv_saved (server_init ts f) = []"
  "sv_tasks (server_init ts f) t = None"
  by (simp_all add: server_init_def)

declare on_ask_def [piece_defs] on_answer_def [piece_defs] on_name_def [piece_defs] on_create_def [piece_defs]
  on_frame_def [piece_defs] on_end_def [piece_defs] on_settle_saved_def [piece_defs] on_settle_failed_def [piece_defs]
  on_open_def [piece_defs]

text \<open>The outcomes of the pieces that branch, as rules.\<close>

lemma on_prepare_cases:
  obtains (answered) r where "on_prepare fsl t body s = set_task t (Some (T_done r)) s"
      "rs_status r = 409 \<longrightarrow> rv_state s \<noteq> Idle"
  | (claimed) p where "on_prepare fsl t body s = set_task t (Some (T_claimed p)) (s\<lparr>rv_state := Pending\<rparr>)"
      "rv_state s = Idle" "fmdom' (pr_files p) \<noteq> {}" "prepare_parse fsl body = Inr p"
proof (cases rule: prepare_parse_cases [of fsl body])
  case (err r)
  then show ?thesis using answered [of "respond r"] by (auto simp: on_prepare_def)
next
  case (ok b p)
  show ?thesis
  proof (cases "rv_state s = Idle")
    case True
    with ok show ?thesis using claimed [of p] by (simp add: on_prepare_def prepare_claim_def)
  next
    case False
    then have "prepare_claim (rv_state s) = Inl (status 409)"
      by (cases "rv_state s") (simp_all add: prepare_claim_def)
    with ok False show ?thesis using answered [of "status 409"] by (simp add: on_prepare_def)
  qed
qed

lemma on_answer_cases:
  obtains (granted) "a = Answer True" "on_answer t p a s = set_task t (Some (T_granted p)) s"
  | (refused) r where "a \<noteq> Answer True"
      "on_answer t p a s = set_task t (Some (T_done r)) (s\<lparr>rv_state := Idle\<rparr>)"
      "rs_status r \<in> {403, 408}"
proof (cases a)
  case Timed_out
  then show ?thesis using refused [of "status 408"] by (simp add: on_answer_def approval_refusal_def)
next
  case (Answer b)
  then show ?thesis
    using refused [of "status 403"] granted
    by (cases b) (simp_all add: on_answer_def approval_refusal_def)
qed

lemma on_upload_cases:
  obtains (same) "on_upload t q s = s"
  | (refused) "on_upload t q s = set_task t (Some (T_done (status 404))) s"
  | (accepted) sid fid tok meta al where "upload_params q = Some (sid, fid, tok)"
      "check_upload (rv_state s) sid fid tok = Upload_accepted meta al"
      "on_upload t q s = set_task t (Some (T_checked sid fid meta al)) s"
proof (cases "upload_params q")
  case None
  then show ?thesis using same by (simp add: on_upload_def)
next
  case (Some x)
  obtain sid fid tok where x: "x = (sid, fid, tok)" by (cases x)
  show ?thesis
    using Some x same refused accepted
    by (cases "check_upload (rv_state s) sid fid tok") (simp_all add: on_upload_def)
qed

lemma on_frame_cases:
  obtains (failed) f where "on_frame t sid fid meta al target i off w fr out rm s =
      set_task t (Some (T_failed sid fid True)) (s\<lparr>rv_fs := save_abort rm target f\<rparr>)"
      "f = snd (save_frame fr out i off w (rv_fs s))"
  | (written) off' w' f where "on_frame t sid fid meta al target i off w fr out rm s =
      set_task t (Some (T_writing sid fid meta al target i off' w')) (s\<lparr>rv_fs := f\<rparr>)"
      "save_frame fr out i off w (rv_fs s) = (Inr (off', w'), f)"
proof -
  obtain x f where sf: "save_frame fr out i off w (rv_fs s) = (x, f)"
    by (cases "save_frame fr out i off w (rv_fs s)")
  show ?thesis
  proof (cases x)
    case (Inl e)
    with sf show ?thesis by (intro failed [of f]) (simp_all add: on_frame_def)
  next
    case (Inr y)
    obtain off' w' where "y = (off', w')" by (cases y)
    with sf Inr show ?thesis by (intro written [of off' w' f]) (simp_all add: on_frame_def)
  qed
qed

lemma on_end_cases:
  obtains (failed) "on_end t sid fid meta al target w fl rm s =
      set_task t (Some (T_failed sid fid True)) (s\<lparr>rv_fs := save_abort rm target (rv_fs s)\<rparr>)"
  | (saved) "on_end t sid fid meta al target w fl rm s = set_task t (Some (T_saved sid fid al target)) s"
      "fl" "w = fm_size meta"
proof (cases "save_finish fl w meta")
  case (Inl e)
  then show ?thesis using failed by (simp add: on_end_def)
next
  case (Inr u)
  then have "fl \<and> w = fm_size meta" by (auto simp: save_finish_def split: if_splits)
  with Inr show ?thesis using saved by (simp add: on_end_def)
qed

lemma on_cancel_cases:
  obtains (same) "on_cancel t q s = s"
  | (refused) "on_cancel t q s = set_task t (Some (T_done (status 404))) s"
  | (cancelled) ses where "rv_state s = Sending ses"
      "on_cancel t q s = set_task t (Some (T_done (status 200))) (s\<lparr>rv_state := Idle\<rparr>)"
proof (cases "query_map q")
  case None
  then show ?thesis using same by (simp add: on_cancel_def handle_cancel_def)
next
  case (Some m)
  let ?sid = "param_or_default m ''sessionId''"
  show ?thesis
  proof (cases "\<exists>ses. rv_state s = Sending ses \<and> s_id ses = ?sid")
    case True
    then obtain ses where "rv_state s = Sending ses" "cancel_session ?sid (rv_state s) = (status 200, Idle)"
      by (auto simp: cancel_session_def)
    with Some show ?thesis
      by (intro cancelled) (simp_all add: on_cancel_def handle_cancel_def)
  next
    case False
    then have "cancel_session ?sid (rv_state s) = (status 404, rv_state s)"
      by (auto simp: cancel_session_def split: rstate.split)
    with Some show ?thesis
      by (intro refused) (simp add: on_cancel_def handle_cancel_def)
  qed
qed

end
