(* ===== verification/Recv_Invariants.thy ===== *)
theory Recv_Invariants
  imports Recv_Server
begin

text \<open>
  What holds of the receiver however its handlers interleave, and, by concrete runs, what
  does not.  Each invariant is shown once per piece and lifted to runs by the locales of
  \<open>Prelude\<close>.
\<close>

section \<open>The basic invariant\<close>

text \<open>
  The files are consistent, a session has a token for each of its files, and every file a
  task is about to write, is writing or has written lies directly in the save folder.
\<close>

fun task_ok :: "recv_config \<Rightarrow> fs \<Rightarrow> task \<Rightarrow> bool" where
  "task_ok cfg f (T_claimed p) = (fmdom' (pr_files p) \<noteq> {})"
| "task_ok cfg f (T_asked p rq) = (fmdom' (pr_files p) \<noteq> {})"
| "task_ok cfg f (T_granted p) = (fmdom' (pr_files p) \<noteq> {})"
| "task_ok cfg f (T_trusted p) = (fmdom' (pr_files p) \<noteq> {})"
| "task_ok cfg f (T_named sid fid meta al target) = in_folder (rc_save_dir cfg) target"
| "task_ok cfg f (T_writing sid fid meta al target i off w) =
     (in_folder (rc_save_dir cfg) target \<and> i < fs_next f
      \<and> (\<forall>p. fmlookup (fs_dir f) p = Some i \<longrightarrow> p = target))"
| "task_ok cfg f (T_saved sid fid al target) = in_folder (rc_save_dir cfg) target"
| "task_ok cfg f _ = True"

definition server_ok :: "recv_config \<Rightarrow> server \<Rightarrow> bool" where
  "server_ok cfg s \<longleftrightarrow> fs_ok (rv_fs s) \<and> state_keys (rv_state s)
     \<and> (\<forall>t x. sv_tasks s t = Some x \<longrightarrow> task_ok cfg (rv_fs s) x)
     \<and> (\<forall>sf \<in> set (rv_saved s). in_folder (rc_save_dir cfg) (sf_path sf))"

text \<open>A file system step that keeps what tasks know: no new name for an old file.\<close>

definition fs_grows :: "fs \<Rightarrow> fs \<Rightarrow> bool" where
  "fs_grows f g \<longleftrightarrow> fs_next f \<le> fs_next g
     \<and> (\<forall>p i. fmlookup (fs_dir g) p = Some i \<longrightarrow> i < fs_next f \<longrightarrow> fmlookup (fs_dir f) p = Some i)"

lemma fs_grows_refl [simp]: "fs_grows f f"
  by (simp add: fs_grows_def)

lemma fs_grows_trans: "fs_grows f g \<Longrightarrow> fs_grows g h \<Longrightarrow> fs_grows f h"
  unfolding fs_grows_def by (meson order_less_le_trans order_trans)

lemma fs_grows_create: "fs_grows f (snd (fs_create f p))"
  by (auto simp: fs_grows_def fs_create_def split: option.splits)

lemma fs_grows_write_at: "fs_grows f (fs_write_at f i off d)"
  by (simp add: fs_grows_def fs_write_at_def)

lemma fs_grows_remove: "fs_grows f (fs_remove f p)"
  by (simp add: fs_grows_def fs_remove_def split: if_splits)

lemma fs_grows_same: "fs_dir g = fs_dir f \<Longrightarrow> fs_next g = fs_next f \<Longrightarrow> fs_grows f g"
  by (simp add: fs_grows_def)

lemma fs_grows_write_file:
  assumes "fs_write_file w f p d = (b, g)"
  shows "fs_grows f g"
proof (cases w)
  case W_no_open
  with assms show ?thesis by (simp add: fs_write_file_def)
next
  case W_ok
  with assms show ?thesis
    using fs_grows_trans [OF fs_grows_create [of f p] fs_grows_write_at]
    by (auto simp: fs_write_file_def split: prod.splits)
next
  case (W_partial n)
  with assms show ?thesis
    using fs_grows_trans [OF fs_grows_create [of f p] fs_grows_write_at]
    by (auto simp: fs_write_file_def split: prod.splits)
qed

lemma ts_save_fs:
  assumes "ts_save tv mk w ts f = (r, g)" and "fs_ok f"
  shows "fs_ok g" and "fs_grows f g"
  using assms fs_write_file_fs_ok [of f w] fs_grows_write_file [of w f]
  by (auto simp: ts_save_def split: if_splits prod.splits)

lemma ts_add_fs:
  assumes "ts_add tv now mk w fp al ts f = (r, ts', g)" and "fs_ok f"
  shows "fs_ok g" and "fs_grows f g"
  using assms by (auto elim!: ts_add_cases dest: ts_save_fs)

lemma task_ok_grows: "task_ok cfg f x \<Longrightarrow> fs_grows f g \<Longrightarrow> task_ok cfg g x"
  by (cases x) (auto simp: fs_grows_def)

lemma server_ok_fs:
  assumes "server_ok cfg s" and "fs_ok f" and "fs_grows (rv_fs s) f"
  shows "server_ok cfg (s\<lparr>rv_fs := f\<rparr>)"
  using assms by (auto simp: server_ok_def intro: task_ok_grows)

lemma server_ok_set_task:
  assumes "server_ok cfg s" and "\<And>y. x = Some y \<Longrightarrow> task_ok cfg (rv_fs s) y"
  shows "server_ok cfg (set_task t x s)"
  using assms by (auto simp: server_ok_def)

lemma server_ok_state: "server_ok cfg s \<Longrightarrow> state_keys st \<Longrightarrow> server_ok cfg (s\<lparr>rv_state := st\<rparr>)"
  by (simp add: server_ok_def)

lemma server_ok_trust: "server_ok cfg s \<Longrightarrow> server_ok cfg (s\<lparr>rv_trust := ts\<rparr>)"
  by (simp add: server_ok_def)

lemma server_ok_task: "server_ok cfg s \<Longrightarrow> sv_tasks s t = Some x \<Longrightarrow> task_ok cfg (rv_fs s) x"
  by (simp add: server_ok_def)

lemma server_ok_fs_ok: "server_ok cfg s \<Longrightarrow> fs_ok (rv_fs s)"
  by (simp add: server_ok_def)

lemmas server_ok_intros = server_ok_set_task server_ok_state server_ok_fs server_ok_trust

lemma save_frame_fs:
  assumes "save_frame fr out i off w f = (r, g)" and "fs_ok f"
  shows "fs_ok g" and "fs_grows f g"
  using save_frame_frame [OF assms(1)] assms(2) by (simp_all add: fs_ok_def fs_grows_same)

lemma save_abort_fs:
  assumes "fs_ok f"
  shows "fs_ok (save_abort rm target f)" and "fs_grows f (save_abort rm target f)"
  using assms by (simp_all add: save_abort_def fs_ok_remove fs_grows_remove)

lemma server_ok_init: "fs_ok f \<Longrightarrow> server_ok cfg (server_init ts f)"
  by (simp add: server_ok_def)

subsection \<open>Preservation, one piece at a time\<close>

lemma server_ok_prepare: "server_ok cfg s \<Longrightarrow> server_ok cfg (on_prepare fsl t body s)"
  by (cases rule: on_prepare_cases [of fsl t body s])
    (auto intro!: server_ok_set_task server_ok_state)

lemma server_ok_answer:
  "server_ok cfg s \<Longrightarrow> sv_tasks s t = Some (T_asked p rq) \<Longrightarrow> server_ok cfg (on_answer t p a s)"
  by (cases rule: on_answer_cases [of a t p s])
    (auto intro!: server_ok_set_task server_ok_state dest: server_ok_task)

lemma server_ok_trust_piece:
  assumes "server_ok cfg s" and "sv_tasks s t = Some (T_granted p)"
  shows "server_ok cfg (on_trust tv t p now mk w s)"
proof -
  obtain r ts f where a: "ts_add tv now mk w (pi_fingerprint (pr_info p)) (pi_alias (pr_info p))
      (rv_trust s) (rv_fs s) = (r, ts, f)"
    by (metis prod_cases3)
  note fs = ts_add_fs [OF a server_ok_fs_ok [OF assms(1)]]
  have "server_ok cfg (s\<lparr>rv_trust := ts, rv_fs := f\<rparr>)"
    using server_ok_fs [OF server_ok_trust [OF assms(1)]] fs by simp
  with server_ok_task [OF assms] a show ?thesis
    by (auto simp: on_trust_def intro!: server_ok_set_task)
qed

lemma server_ok_upload: "server_ok cfg s \<Longrightarrow> server_ok cfg (on_upload t q s)"
  by (cases rule: on_upload_cases [of t q s]) (auto intro!: server_ok_set_task)

lemma server_ok_create:
  assumes "server_ok cfg s" and "sv_tasks s t = Some (T_named sid fid meta al target)"
  shows "server_ok cfg (on_create t sid fid meta al target ok s)"
proof (cases ok)
  case True
  obtain i f where c: "fs_create (rv_fs s) target = (i, f)" by (cases "fs_create (rv_fs s) target")
  have ok: "fs_ok f" and gr: "fs_grows (rv_fs s) f"
    using fs_ok_create [OF server_ok_fs_ok [OF assms(1)], of target] fs_grows_create [of "rv_fs s" target] c
    by simp_all
  have "fmlookup (fs_dir f) target = Some i" using fs_create_dir [of "rv_fs s" target] c by simp
  then have "i < fs_next f" and "\<forall>p. fmlookup (fs_dir f) p = Some i \<longrightarrow> p = target"
    using ok by (auto simp: fs_ok_def)
  then show ?thesis
    using True c server_ok_task [OF assms] server_ok_fs [OF assms(1) ok gr]
    by (auto simp: on_create_def intro!: server_ok_set_task)
qed (use assms(1) in \<open>auto simp: on_create_def intro!: server_ok_set_task\<close>)

lemma server_ok_frame:
  assumes "server_ok cfg s" and "sv_tasks s t = Some (T_writing sid fid meta al target i off w)"
  shows "server_ok cfg (on_frame t sid fid meta al target i off w fr out rm s)"
proof (cases rule: on_frame_cases [of t sid fid meta al target i off w fr out rm s])
  case (failed f)
  have "fs_ok f" "fs_grows (rv_fs s) f"
    using save_frame_fs [OF _ server_ok_fs_ok [OF assms(1)]] failed(2) by (metis surjective_pairing)+
  then have "server_ok cfg (s\<lparr>rv_fs := save_abort rm target f\<rparr>)"
    using assms(1) save_abort_fs by (blast intro: server_ok_fs fs_grows_trans)
  with failed(1) show ?thesis by (auto intro!: server_ok_set_task)
next
  case (written off' w' f)
  note fs = save_frame_fs [OF written(2) server_ok_fs_ok [OF assms(1)]]
  have "task_ok cfg f (T_writing sid fid meta al target i off' w')"
    using task_ok_grows [OF server_ok_task [OF assms] fs(2)] by simp
  with written(1) server_ok_fs [OF assms(1) fs] show ?thesis
    by (auto intro!: server_ok_set_task)
qed

lemma server_ok_end:
  assumes "server_ok cfg s" and "sv_tasks s t = Some (T_writing sid fid meta al target i off w)"
  shows "server_ok cfg (on_end t sid fid meta al target w fl rm s)"
proof (cases rule: on_end_cases [of t sid fid meta al target w fl rm s])
  case failed
  have "server_ok cfg (s\<lparr>rv_fs := save_abort rm target (rv_fs s)\<rparr>)"
    using assms(1) save_abort_fs [OF server_ok_fs_ok [OF assms(1)]] by (blast intro: server_ok_fs)
  with failed show ?thesis by (auto intro!: server_ok_set_task)
qed (use assms in \<open>auto intro!: server_ok_set_task dest: server_ok_task\<close>)

lemma server_ok_settle_saved:
  assumes "server_ok cfg s" and "sv_tasks s t = Some (T_saved sid fid al target)"
  shows "server_ok cfg (on_settle_saved t fid al target s)"
  using assms server_ok_task [OF assms]
  by (auto simp: on_settle_saved_def server_ok_def upload_commit_keys)

lemma server_ok_cancel: "server_ok cfg s \<Longrightarrow> server_ok cfg (on_cancel t q s)"
  by (cases rule: on_cancel_cases [of t q s]) (auto intro!: server_ok_set_task server_ok_state)

lemma server_ok_step:
  assumes "server_ok cfg s" and "step fsl tv cfg s e s'"
  shows "server_ok cfg s'"
  using assms(2,1)
proof (cases rule: step.cases)
  case (s_ask t p)
  with assms(1) show ?thesis
    by (auto simp: on_ask_def intro!: server_ok_set_task dest: server_ok_task)
next
  case (s_open t p sid tok)
  with assms(1) show ?thesis
    by (auto simp: on_open_def Let_def intro!: server_ok_set_task server_ok_state)
next
  case (s_name t sid fid meta al)
  with assms(1) show ?thesis
    by (auto simp: on_name_def intro!: server_ok_set_task resolve_in_folder)
next
  case (s_settle_failed t sid fid)
  with assms(1) show ?thesis
    by (auto simp: on_settle_failed_def intro!: server_ok_set_task server_ok_state)
next
  case (s_drop t x)
  with assms(1) show ?thesis by (auto intro!: server_ok_set_task)
qed (use assms(1) in \<open>auto intro: server_ok_prepare server_ok_answer server_ok_trust_piece
    server_ok_upload server_ok_create server_ok_frame server_ok_end server_ok_settle_saved
    server_ok_cancel\<close>)

interpretation server_inv: step_invariant "step fsl tv cfg" "server_ok cfg" for fsl tv cfg
  by unfold_locales (rule server_ok_step)

text \<open>
  C3: However requests interleave, and whatever names the senders announce, every file the
  receiver reports as saved lies directly in the save folder, under one name that is no
  parent link.
\<close>

theorem saved_files_confined:
  assumes "run (step from_slice to_vec cfg) (server_init ts f) es s" and "fs_ok f"
  shows "\<forall>sf \<in> set (rv_saved s). \<exists>n. path_components (sf_path sf) =
        path_components (rc_save_dir cfg) @ [n] \<and> n \<noteq> ''..'' \<and> CHR ''/'' \<notin> set n"
proof -
  have "server_ok cfg s"
    using server_inv.run_inv [OF assms(1)] server_ok_init [OF assms(2)] by blast
  then show ?thesis
    by (force simp: server_ok_def in_folder_def)
qed

text \<open>
  C7: Every reachable state is well-formed, however requests interleave and whatever the disk, the
  clients and the user do. The file system is consistent; a session has a token for exactly
  its files, so that the check of an upload, which indexes the files under the lock, never
  panics; a request waits for the user only with at least one file; and an upload that is
  writing has a file of its own, which has no name but the target it chose in the save folder.
\<close>

theorem reachable_well_formed:
  assumes "run (step from_slice to_vec cfg) (server_init ts f) es s" and "fs_ok f"
  shows "fs_ok (rv_fs s) \<and> state_keys (rv_state s) \<and> check_upload (rv_state s) sid fid tok \<noteq> Upload_panic
    \<and> (\<forall>t p rq. sv_tasks s t = Some (T_asked p rq) \<longrightarrow> fmdom' (pr_files p) \<noteq> {})
    \<and> (\<forall>t sid fid meta al target i off w. sv_tasks s t = Some (T_writing sid fid meta al target i off w) \<longrightarrow>
         in_folder (rc_save_dir cfg) target \<and> i < fs_next (rv_fs s)
         \<and> (\<forall>p. fmlookup (fs_dir (rv_fs s)) p = Some i \<longrightarrow> p = target))"
proof -
  have ok: "server_ok cfg s"
    using server_inv.run_inv [OF assms(1)] server_ok_init [OF assms(2)] by blast
  then have "fs_ok (rv_fs s)" "state_keys (rv_state s)" by (simp_all add: server_ok_def)
  moreover have "fmdom' (pr_files p) \<noteq> {}" if "sv_tasks s t = Some (T_asked p rq)" for t p rq
    using server_ok_task [OF ok that] by simp
  moreover have "in_folder (rc_save_dir cfg) target \<and> i < fs_next (rv_fs s)
      \<and> (\<forall>p. fmlookup (fs_dir (rv_fs s)) p = Some i \<longrightarrow> p = target)"
    if "sv_tasks s t = Some (T_writing sid fid meta al target i off w)" for t sid fid meta al target i off w
    using server_ok_task [OF ok that] by simp
  ultimately show ?thesis using check_upload_no_panic by blast
qed

end
