(* ===== verification/Recv_Isolation.thy ===== *)
theory Recv_Isolation
  imports Recv_Invariants
begin

text \<open>
  Other devices cannot disturb a transfer.  While a session is open, the pieces of handlers
  that do not name it are refusals, and leaving them out of a run changes nothing for the
  session: noninterference, by a confinement lemma for the foreign pieces and a congruence
  lemma for the own ones.
\<close>

section \<open>Whose event\<close>

fun event_task :: "event \<Rightarrow> nat" where
  "event_task (E_prepare t body) = t"
| "event_task (E_ask t) = t"
| "event_task (E_answer t a) = t"
| "event_task (E_trust t now mk w) = t"
| "event_task (E_open t sid tok) = t"
| "event_task (E_upload t q) = t"
| "event_task (E_name t) = t"
| "event_task (E_create t ok) = t"
| "event_task (E_frame t fr out rm) = t"
| "event_task (E_end t fl rm) = t"
| "event_task (E_settle t) = t"
| "event_task (E_cancel t q) = t"
| "event_task (E_drop t) = t"

text \<open>A request that does not name the session.\<close>

fun foreign :: "string \<Rightarrow> event \<Rightarrow> bool" where
  "foreign sid (E_upload t q) = (case upload_params q of Some (i, _, _) \<Rightarrow> i \<noteq> sid | None \<Rightarrow> True)"
| "foreign sid (E_cancel t q) = (case query_map q of
     Some m \<Rightarrow> param_or_default m ''sessionId'' \<noteq> sid | None \<Rightarrow> True)"
| "foreign sid _ = True"

definition open_session :: "string \<Rightarrow> server \<Rightarrow> bool" where
  "open_session sid s \<longleftrightarrow> (\<exists>ses. rv_state s = Sending ses \<and> s_id ses = sid)"

text \<open>Only the tasks \<open>T\<close> may do as they like; the others come while the session is open, without its id.\<close>

definition unnamed :: "string \<Rightarrow> nat set \<Rightarrow> server \<Rightarrow> event \<Rightarrow> bool" where
  "unnamed sid T s e \<longleftrightarrow> event_task e \<in> T \<or> open_session sid s \<and> foreign sid e"

section \<open>Foreign pieces are refusals\<close>

definition refused :: "task \<Rightarrow> bool" where
  "refused x \<longleftrightarrow> (\<exists>r. x = T_done r \<and> rs_status r \<in> {400, 404, 409, 500})"

text \<open>What a handler finds when the session is open and the request does not name it.\<close>

lemma foreign_new:
  assumes "open_session sid s" and "foreign sid e" and "step fsl tv cfg s e s'" and "new_task s (event_task e)"
  shows "s' = s \<or> (\<exists>x. refused x \<and> s' = set_task (event_task e) (Some x) s)"
proof -
  from assms(1) obtain ses where ses: "rv_state s = Sending ses" "s_id ses = sid" by (auto simp: open_session_def)
  have answer: ?thesis if "s' = set_task (event_task e) (Some (T_done r)) s" "rs_status r \<in> {400, 404, 409, 500}" for r
    using that by (intro disjI2 exI [of _ "T_done r"]) (simp add: refused_def)
  from assms(3) show ?thesis
  proof (cases rule: step.cases)
    case (s_prepare t body)
    show ?thesis
    proof (cases rule: prepare_parse_cases [of fsl body])
      case (err r)
      with s_prepare show ?thesis by (intro answer [of "respond r"]) (auto simp: on_prepare_def)
    next
      case (ok b p)
      with s_prepare ses show ?thesis
        by (intro answer [of "status 409"]) (simp_all add: on_prepare_def prepare_claim_def)
    qed
  next
    case (s_upload t q)
    show ?thesis
    proof (cases rule: on_upload_cases [of t q s])
      case (accepted i fid tok meta al)
      with assms(2) ses s_upload show ?thesis by (simp add: check_upload_accepted_iff)
    qed (use s_upload answer [of "status 404"] in simp_all)
  next
    case (s_cancel t q)
    show ?thesis
    proof (cases "query_map q")
      case (Some m)
      with assms(2) ses s_cancel have "handle_cancel q (rv_state s) = Some (status 404, rv_state s)"
        by (auto simp: handle_cancel_def cancel_session_def)
      with s_cancel answer [of "status 404"] show ?thesis by (simp add: on_cancel_def)
    qed (use s_cancel in \<open>simp add: on_cancel_def handle_cancel_def\<close>)
  qed (use assms(4) in \<open>auto simp: new_task_def\<close>)
qed

text \<open>A handler that has answered does nothing any more.\<close>

lemma done_stuck: "sv_tasks s (event_task e) = Some (T_done r) \<Longrightarrow> \<not> step fsl tv cfg s e s'"
  by (auto simp: step_iff_exec new_task_def split: option.splits task.splits elim!: exec.elims)

section \<open>Own pieces depend only on the own task\<close>

definition with_tasks :: "(nat \<Rightarrow> task option) \<Rightarrow> server \<Rightarrow> server" where
  "with_tasks tk s = s\<lparr>sv_tasks := tk\<rparr>"

lemma with_tasks_simps [simp]:
  "rv_state (with_tasks tk s) = rv_state s" "rv_trust (with_tasks tk s) = rv_trust s"
  "rv_fs (with_tasks tk s) = rv_fs s" "rv_saved (with_tasks tk s) = rv_saved s"
  "sv_tasks (with_tasks tk s) = tk"
  by (simp_all add: with_tasks_def)

text \<open>A piece does to the other fields what it does whatever the other tasks are.\<close>

lemma exec_with_tasks:
  assumes "tk (event_task e) = sv_tasks s (event_task e)"
  shows "exec fsl tv cfg (with_tasks tk s) e =
    map_option (\<lambda>s'. with_tasks (tk(event_task e := sv_tasks s' (event_task e))) s') (exec fsl tv cfg s e)"
  using assms
  by (cases e)
    (auto simp: piece_defs on_prepare_def on_trust_def on_upload_def on_cancel_def new_task_def set_task_def
      with_tasks_def Let_def fun_upd_idem
      split: option.splits task.splits sum.splits prod.splits upload_check.splits)

text \<open>A piece moves its own task only.\<close>

lemma exec_other_tasks:
  assumes "exec fsl tv cfg s e = Some s'" and "u \<noteq> event_task e"
  shows "sv_tasks s' u = sv_tasks s u"
  using assms
  by (cases e)
    (auto simp: piece_defs on_prepare_def on_trust_def on_upload_def on_cancel_def new_task_def
      Let_def split: option.splits task.splits sum.splits prod.splits upload_check.splits if_splits)

section \<open>Isolation\<close>

text \<open>
  \<open>s\<close> is the receiver as it is, \<open>alone\<close> the one where only the tasks \<open>T\<close> ran: they differ in
  refusals of the other tasks.
\<close>

definition same_core :: "server \<Rightarrow> server \<Rightarrow> bool" where
  "same_core s a \<longleftrightarrow> rv_state s = rv_state a \<and> rv_trust s = rv_trust a \<and> rv_fs s = rv_fs a \<and> rv_saved s = rv_saved a"

lemma same_core_with_tasks: "same_core s a \<Longrightarrow> a = with_tasks (sv_tasks a) s"
  by (cases s; cases a) (simp add: same_core_def with_tasks_def)

definition same_for :: "nat set \<Rightarrow> server \<Rightarrow> server \<Rightarrow> bool" where
  "same_for T s alone \<longleftrightarrow> same_core s alone \<and> (\<forall>t \<in> T. sv_tasks s t = sv_tasks alone t)
     \<and> (\<forall>u x. u \<notin> T \<longrightarrow> sv_tasks s u = Some x \<longrightarrow> (\<exists>r. x = T_done r) \<and> (sv_tasks alone u = Some x \<or> refused x))"

lemma same_for_own:
  assumes "same_for T s a" and "event_task e \<in> T" and "step fsl tv cfg s e s'"
  shows "\<exists>a'. step fsl tv cfg a e a' \<and> same_for T s' a'"
proof -
  let ?t = "event_task e"
  from assms(3) have ex: "exec fsl tv cfg s e = Some s'" by (simp add: step_iff_exec)
  have a: "a = with_tasks (sv_tasks a) s" using assms(1) by (intro same_core_with_tasks) (simp add: same_for_def)
  define a' where "a' = with_tasks ((sv_tasks a)(?t := sv_tasks s' ?t)) s'"
  have "sv_tasks a ?t = sv_tasks s ?t" using assms(1,2) by (simp add: same_for_def)
  then have "exec fsl tv cfg (with_tasks (sv_tasks a) s) e = Some a'"
    using exec_with_tasks [of "sv_tasks a" e s fsl tv cfg] ex by (simp add: a'_def)
  with a have "step fsl tv cfg a e a'" by (simp add: step_iff_exec)
  moreover have "sv_tasks s' u = sv_tasks s u" if "u \<noteq> ?t" for u using exec_other_tasks [OF ex that] .
  ultimately show ?thesis using assms(1,2) unfolding same_for_def
    by (intro exI [of _ a']) (auto simp: a'_def same_core_def)
qed

lemma same_for_other:
  assumes "same_for T s a" and "event_task e \<notin> T" and "unnamed sid T s e" and "step fsl tv cfg s e s'"
  shows "same_for T s' a"
proof -
  have "sv_tasks s (event_task e) = None"
    using assms(1,2,4) done_stuck [of s e] unfolding same_for_def by (metis not_None_eq)
  then consider "s' = s" | x where "refused x" "s' = set_task (event_task e) (Some x) s"
    using assms(2-4) foreign_new [of sid s e fsl tv cfg s'] by (auto simp: unnamed_def new_task_def)
  then show ?thesis
  proof cases
    case (2 x)
    then have "\<exists>r. x = T_done r" by (auto simp: refused_def)
    with 2 assms(1,2) show ?thesis unfolding same_for_def by (auto simp: same_core_def)
  qed (use assms(1) in simp)
qed

interpretation undisturbed: isolation "step fsl tv cfg" "unnamed sid T" "\<lambda>e. event_task e \<in> T" "same_for T"
  for fsl tv cfg sid T
  by unfold_locales (use same_for_own same_for_other in blast)+

text \<open>
  C20: Only who knows its id can change a session. Let some handlers run as they like, say those
  of one sender, while other requests come in only as long as the session is open and without
  its id. Then the session, the trusted devices, the files on disk, the files reported, and
  all that those handlers do are what they would be had no one else been there; every other
  request is refused. With no handlers at all: nothing changes. So no other device can disturb
  a transfer; but a session whose sender is gone is never given up either.
\<close>

theorem session_isolated:
  assumes "run (guarded (step from_slice to_vec cfg) (unnamed sid T)) s es s'"
    and "\<And>u x. u \<notin> T \<Longrightarrow> sv_tasks s u = Some x \<Longrightarrow> \<exists>r. x = T_done r"
  shows "\<exists>alone. run (step from_slice to_vec cfg) s (filter (\<lambda>e. event_task e \<in> T) es) alone
    \<and> rv_state s' = rv_state alone \<and> rv_trust s' = rv_trust alone \<and> rv_fs s' = rv_fs alone
    \<and> rv_saved s' = rv_saved alone \<and> (\<forall>t \<in> T. sv_tasks s' t = sv_tasks alone t)
    \<and> (\<forall>u x. u \<notin> T \<longrightarrow> sv_tasks s' u = Some x \<longrightarrow> sv_tasks alone u = Some x
        \<or> (\<exists>r. x = T_done r \<and> rs_status r \<in> {400, 404, 409, 500}))"
proof -
  have "same_for T s s" using assms(2) by (auto simp: same_for_def same_core_def)
  from undisturbed.isolated_run [OF assms(1) this] obtain alone where
    a: "run (step from_slice to_vec cfg) s (filter (\<lambda>e. event_task e \<in> T) es) alone" "same_for T s' alone"
    by blast
  then show ?thesis unfolding same_for_def same_core_def refused_def by blast
qed

end
