(* ===== verification/Recv_Pieces.thy ===== *)
theory Recv_Pieces
  imports Recv_Isolation
begin

text \<open>
  The two models of the receiver agree: the pieces of \<open>Recv_Server\<close>, run without interruption,
  are the handlers of \<open>Recv_Session\<close>.  With the isolation of a session it follows that what
  is shown of handlers served one by one holds of a transfer among other requests.
\<close>

section \<open>The pieces of one request\<close>

text \<open>The frames of a body up to the first that fails, with what happens to the partial file then.\<close>

fun frame_pieces :: "nat \<Rightarrow> bool \<Rightarrow> (frame \<times> chunk_outcome) list \<Rightarrow> event list" where
  "frame_pieces t rm [] = []"
| "frame_pieces t rm ((fr, out) # frs) =
     E_frame t fr out rm # (if frame_ok (fr, out) then frame_pieces t rm frs else [])"

definition body_pieces :: "nat \<Rightarrow> upload_env \<Rightarrow> event list" where
  "body_pieces t env = frame_pieces t (ue_remove env) (ue_frames env)
     @ (if list_all frame_ok (ue_frames env) then [E_end t (ue_flush env) (ue_remove env)] else [])"

fun pieces :: "(string \<Rightarrow> prepare_upload_request option) \<Rightarrow> rstate \<Rightarrow> nat \<Rightarrow> call \<Rightarrow> event list" where
  "pieces fsl st t (Call_prepare env body) = E_prepare t body #
     (case prepare_parse fsl body of Inl r \<Rightarrow> []
      | Inr p \<Rightarrow> if st \<noteq> Idle then []
          else [E_ask t, E_answer t (pe_approval env)] @
            (if pe_approval env = Answer True
             then [E_trust t (pe_now env) (pe_mkdir env) (pe_write env), E_open t (pe_sid env) (pe_tok env)] else []))"
| "pieces fsl st t (Call_upload env q) = E_upload t q #
     (case upload_params q of None \<Rightarrow> []
      | Some (sid, fid, tok) \<Rightarrow> (case check_upload st sid fid tok of
          Upload_accepted meta al \<Rightarrow> [E_name t, E_create t (ue_create env)]
            @ (if ue_create env then body_pieces t env else []) @ [E_settle t]
        | _ \<Rightarrow> []))"
| "pieces fsl st t (Call_cancel q) = [E_cancel t q]"

lemma pieces_task: "e \<in> set (pieces fsl st t c) \<Longrightarrow> event_task e = t"
proof -
  have "e \<in> set (frame_pieces t rm frs) \<Longrightarrow> event_task e = t" for rm frs
    by (induction t rm frs rule: frame_pieces.induct) (auto split: if_splits)
  then have "e \<in> set (body_pieces t env) \<Longrightarrow> event_task e = t" for env
    by (auto simp: body_pieces_def split: if_splits)
  then show "e \<in> set (pieces fsl st t c) \<Longrightarrow> event_task e = t"
    by (cases "(fsl, st, t, c)" rule: pieces.cases)
      (auto split: sum.splits option.splits upload_check.splits if_splits)
qed

section \<open>Running them\<close>

text \<open>The receiver after a request: the fields as served, the task done.\<close>

definition served :: "receiver \<Rightarrow> nat \<Rightarrow> response \<Rightarrow> server \<Rightarrow> server" where
  "served x t r s = set_task t (Some (T_done r)) (s\<lparr>rv_state := rv_state x, rv_trust := rv_trust x,
     rv_fs := rv_fs x, rv_saved := rv_saved x\<rparr>)"

lemma exec_all_append:
  "exec_all fsl tv cfg s (es @ fs) =
    (case exec_all fsl tv cfg s es of None \<Rightarrow> None | Some s' \<Rightarrow> exec_all fsl tv cfg s' fs)"
  by (induction es arbitrary: s) (auto split: option.split)

lemma set_task_twice [simp]: "set_task t x (set_task t y s) = set_task t x s"
  by (simp add: set_task_def)

lemma set_task_update [simp]:
  "(set_task t x s)\<lparr>rv_state := st\<rparr> = set_task t x (s\<lparr>rv_state := st\<rparr>)"
  "(set_task t x s)\<lparr>rv_fs := f\<rparr> = set_task t x (s\<lparr>rv_fs := f\<rparr>)"
  "(set_task t x s)\<lparr>rv_saved := sv\<rparr> = set_task t x (s\<lparr>rv_saved := sv\<rparr>)"
  "(set_task t x s)\<lparr>rv_trust := ts\<rparr> = set_task t x (s\<lparr>rv_trust := ts\<rparr>)"
  by (simp_all add: set_task_def)

lemma update_order [simp]:
  "s\<lparr>rv_fs := f, rv_state := st\<rparr> = s\<lparr>rv_state := st, rv_fs := f\<rparr>"
  "s\<lparr>rv_trust := ts, rv_state := st\<rparr> = s\<lparr>rv_state := st, rv_trust := ts\<rparr>"
  by (cases s, simp)+

lemma exec_frames:
  assumes "sv_tasks s t = Some (T_writing sid fid meta al target i off w)"
    and "save_frames frs i off w (rv_fs s) = (r, g)"
  shows "exec_all fsl tv cfg s (frame_pieces t rm frs) = Some (case r of
      Inl e \<Rightarrow> set_task t (Some (T_failed sid fid True)) (s\<lparr>rv_fs := save_abort rm target g\<rparr>)
    | Inr (off', w') \<Rightarrow> set_task t (Some (T_writing sid fid meta al target i off' w')) (s\<lparr>rv_fs := g\<rparr>))"
  using assms
proof (induction frs arbitrary: s off w)
  case Nil
  then show ?case by (auto simp: set_task_def fun_upd_idem)
next
  case (Cons x frs)
  obtain fr out where x: "x = (fr, out)" by (cases x)
  obtain r1 g1 where f: "save_frame fr out i off w (rv_fs s) = (r1, g1)" by (cases "save_frame fr out i off w (rv_fs s)")
  have ok: "frame_ok (fr, out) \<longleftrightarrow> (\<exists>y. r1 = Inr y)"
    using save_frame_ok_iff [of fr out i off w "rv_fs s"] f by auto
  show ?case
  proof (cases r1)
    case (Inl e)
    with Cons.prems f ok x show ?thesis by (auto simp: on_frame_def)
  next
    case (Inr y)
    obtain o1 w1 where y: "y = (o1, w1)" by (cases y)
    let ?s1 = "set_task t (Some (T_writing sid fid meta al target i o1 w1)) (s\<lparr>rv_fs := g1\<rparr>)"
    have "save_frames frs i o1 w1 (rv_fs ?s1) = (r, g)" using Cons.prems(2) f x Inr y by simp
    with Cons.IH [of ?s1 o1 w1] Cons.prems(1) f ok x Inr y show ?thesis
      by (simp add: on_frame_def split: sum.splits prod.splits)
  qed
qed

text \<open>The body of an accepted upload, from the created file to the last piece before settling.\<close>

lemma exec_body:
  assumes "sv_tasks s t = Some (T_writing sid fid meta al target i 0 0)"
    and "save_frames (ue_frames env) i 0 0 (rv_fs s) = (r, g)"
    and "(case r of Inl e \<Rightarrow> Inl e | Inr (off, w) \<Rightarrow> save_finish (ue_flush env) w meta) = r'"
  shows "exec_all fsl tv cfg s (body_pieces t env) = Some (case r' of
      Inl e \<Rightarrow> set_task t (Some (T_failed sid fid True)) (s\<lparr>rv_fs := save_abort (ue_remove env) target g\<rparr>)
    | Inr u \<Rightarrow> set_task t (Some (T_saved sid fid al target)) (s\<lparr>rv_fs := g\<rparr>))"
proof -
  have all: "list_all frame_ok (ue_frames env) \<longleftrightarrow> (\<exists>x. r = Inr x)"
    using save_frames_ok_iff [of "ue_frames env" i 0 0 "rv_fs s"] assms(2) by (auto simp: list_all_iff)
  note frs = exec_frames [OF assms(1,2), of fsl tv cfg "ue_remove env"]
  show ?thesis
  proof (cases r)
    case (Inl e)
    with all frs assms(3) show ?thesis by (auto simp: body_pieces_def exec_all_append)
  next
    case (Inr x)
    with all frs assms(3) show ?thesis
      by (auto simp: body_pieces_def exec_all_append on_end_def split: prod.splits sum.splits)
  qed
qed

lemma exec_upload_pieces:
  assumes "new_task s t"
  shows "exec_all fsl tv cfg s (pieces fsl (rv_state s) t (Call_upload env q)) = Some (case
      handle_upload cfg env q (rv_state s, rv_fs s, rv_saved s) of None \<Rightarrow> s
    | Some (r, st, f, sv) \<Rightarrow> set_task t (Some (T_done r)) (s\<lparr>rv_state := st, rv_fs := f, rv_saved := sv\<rparr>))"
proof (cases "upload_params q")
  case None
  with assms show ?thesis by (simp add: handle_upload_def on_upload_def)
next
  case (Some p)
  obtain sid fid tok where p: "p = (sid, fid, tok)" by (cases p)
  show ?thesis
  proof (cases "check_upload (rv_state s) sid fid tok")
    case (Upload_accepted meta al)
    define target where "target = resolve_collision (rv_fs s) (rc_save_dir cfg) (save_name meta)"
    show ?thesis
    proof (cases "ue_create env")
      case False
      with assms Some p Upload_accepted show ?thesis
        by (simp add: handle_upload_def save_body_def on_upload_def on_name_def on_create_def on_settle_failed_def)
    next
      case True
      obtain i g where c: "fs_create (rv_fs s) target = (i, g)" by (cases "fs_create (rv_fs s) target")
      obtain r h where fr: "save_frames (ue_frames env) i 0 0 g = (r, h)" by (cases "save_frames (ue_frames env) i 0 0 g")
      define r' where "r' = (case r of Inl e \<Rightarrow> Inl e | Inr (off, w) \<Rightarrow> save_finish (ue_flush env) w meta)"
      let ?s1 = "set_task t (Some (T_writing sid fid meta al target i 0 0)) (s\<lparr>rv_fs := g\<rparr>)"
      have b: "exec_all fsl tv cfg ?s1 (body_pieces t env) = Some (case r' of
          Inl e \<Rightarrow> set_task t (Some (T_failed sid fid True)) (?s1\<lparr>rv_fs := save_abort (ue_remove env) target h\<rparr>)
        | Inr u \<Rightarrow> set_task t (Some (T_saved sid fid al target)) (?s1\<lparr>rv_fs := h\<rparr>))"
        by (rule exec_body) (use fr r'_def in simp_all)
      have sb: "save_body (ue_create env) (ue_frames env) (ue_flush env) (ue_remove env) (rc_save_dir cfg) meta (rv_fs s)
          = (case r' of Inl e \<Rightarrow> (Inl e, save_abort (ue_remove env) target h) | Inr u \<Rightarrow> (Inr target, h))"
        using True c fr unfolding target_def r'_def by (simp add: save_body_def Let_def)
      show ?thesis
        using assms Some p Upload_accepted True c b sb
        by (cases r') (simp_all add: handle_upload_def on_upload_def on_name_def on_create_def on_settle_failed_def
          on_settle_saved_def exec_all_append target_def [symmetric])
    qed
  qed (use assms Some p in \<open>simp_all add: handle_upload_def on_upload_def\<close>)
qed

lemma exec_prepare_pieces:
  assumes "new_task s t" and "handle_prepare fsl tv env body (rv_state s, rv_trust s, rv_fs s) = (r, req, st, ts, f)"
  shows "exec_all fsl tv cfg s (pieces fsl (rv_state s) t (Call_prepare env body)) =
    Some (set_task t (Some (T_done r)) (s\<lparr>rv_state := st, rv_trust := ts, rv_fs := f\<rparr>))"
  using assms(2)
proof (cases rule: handle_prepare_cases)
  case (bad e)
  with assms(1) show ?thesis by (simp add: on_prepare_def)
next
  case (busy p)
  then have "prepare_claim (rv_state s) = Inl (status 409)"
    by (cases "rv_state s") (simp_all add: prepare_claim_def)
  with assms(1) busy show ?thesis by (simp add: on_prepare_def)
next
  case (refused p)
  have "on_answer t p (pe_approval env) s' = set_task t (Some (T_done r)) (s'\<lparr>rv_state := Idle\<rparr>)" for s'
    using refused by (cases "pe_approval env") (auto simp: on_answer_def approval_refusal_def)
  with assms(1) refused show ?thesis by (simp add: on_prepare_def prepare_claim_def on_ask_def)
next
  case (granted p u)
  with assms(1) show ?thesis
    by (simp add: on_prepare_def prepare_claim_def on_ask_def on_answer_def approval_refusal_def on_trust_def on_open_def Let_def)
qed

lemma exec_cancel_piece:
  assumes "new_task s t"
  shows "exec_all fsl tv cfg s (pieces fsl (rv_state s) t (Call_cancel q)) = Some (case handle_cancel q (rv_state s) of
      None \<Rightarrow> s | Some (r, st) \<Rightarrow> set_task t (Some (T_done r)) (s\<lparr>rv_state := st\<rparr>))"
  using assms by (simp add: on_cancel_def)

text \<open>The receiver of \<open>Recv_Refinement\<close> inside the one with its tasks.\<close>

definition receiver_of :: "server \<Rightarrow> receiver" where
  "receiver_of s = \<lparr>rv_state = rv_state s, rv_trust = rv_trust s, rv_fs = rv_fs s, rv_saved = rv_saved s\<rparr>"

lemma receiver_of_simps [simp]:
  "rv_state (receiver_of s) = rv_state s" "rv_trust (receiver_of s) = rv_trust s"
  "rv_fs (receiver_of s) = rv_fs s" "rv_saved (receiver_of s) = rv_saved s"
  by (simp_all add: receiver_of_def)

lemma served_simps [simp]:
  "rv_state (served x t r s) = rv_state x" "rv_trust (served x t r s) = rv_trust x"
  "rv_fs (served x t r s) = rv_fs x" "rv_saved (served x t r s) = rv_saved x"
  "sv_tasks (served x t r s) u = (if u = t then Some (T_done r) else sv_tasks s u)"
  by (simp_all add: served_def)


section \<open>A transfer among other requests\<close>

text \<open>The pieces of an upload that goes well.\<close>

definition upload_pieces :: "nat \<Rightarrow> upload_env \<times> string option \<Rightarrow> event list" where
  "upload_pieces t u = (case u of (env, q) \<Rightarrow>
     [E_upload t q, E_name t, E_create t True] @ body_pieces t env @ [E_settle t])"

lemma upload_pieces_ok:
  assumes "handle_upload cfg env q (st, f, sv) = Some (status 200, st', f', sv')" and "fs_ok f"
  shows "pieces fsl st t (Call_upload env q) = upload_pieces t (env, q) \<and> fs_ok f'"
  using assms(1)
proof (cases rule: handle_upload_cases)
  case (saved sid fid tok meta al path)
  then have "ue_create env" using save_body_iff [OF assms(2)] by blast
  with saved save_body_saved [OF _ assms(2)] show ?thesis by (simp add: upload_pieces_def)
qed simp_all

lemma exec_uploads:
  assumes "upload_all cfg us (rv_state s, rv_fs s, rv_saved s) = Some (replicate (length us) (status 200), st, f, sv)"
    and "fs_ok (rv_fs s)" and "length ts = length us" and "distinct ts" and "\<And>t. t \<in> set ts \<Longrightarrow> new_task s t"
  shows "\<exists>s'. exec_all fsl tv cfg s (concat (map2 upload_pieces ts us)) = Some s'
    \<and> rv_state s' = st \<and> rv_fs s' = f \<and> rv_saved s' = sv \<and> rv_trust s' = rv_trust s
    \<and> (\<forall>t \<in> set ts. sv_tasks s' t = Some (T_done (status 200))) \<and> (\<forall>u. u \<notin> set ts \<longrightarrow> sv_tasks s' u = sv_tasks s u)"
  using assms
proof (induction us arbitrary: s ts)
  case (Cons u us)
  obtain env q where u: "u = (env, q)" by (cases u)
  from Cons.prems(3) obtain t ts' where ts: "ts = t # ts'" by (cases ts) auto
  from Cons.prems(1) u obtain st1 f1 sv1 where h: "handle_upload cfg env q (rv_state s, rv_fs s, rv_saved s)
      = Some (status 200, st1, f1, sv1)"
    and rest: "upload_all cfg us (st1, f1, sv1) = Some (replicate (length us) (status 200), st, f, sv)"
    by (auto split: option.splits)
  let ?s1 = "set_task t (Some (T_done (status 200))) (s\<lparr>rv_state := st1, rv_fs := f1, rv_saved := sv1\<rparr>)"
  note ok = upload_pieces_ok [OF h Cons.prems(2), of fsl t]
  have 1: "exec_all fsl tv cfg s (upload_pieces t u) = Some ?s1"
    using exec_upload_pieces [of s t fsl tv cfg env q, unfolded h conjunct1 [OF ok]] Cons.prems(5) ts u by simp
  have "new_task ?s1 t'" if "t' \<in> set ts'" for t'
    using that Cons.prems(4,5) ts by (auto simp: new_task_def)
  with Cons.IH [of ?s1 ts'] rest ok Cons.prems(3,4) ts obtain s' where
    "exec_all fsl tv cfg ?s1 (concat (map2 upload_pieces ts' us)) = Some s'"
    "rv_state s' = st" "rv_fs s' = f" "rv_saved s' = sv" "rv_trust s' = rv_trust s"
    "\<forall>t \<in> set ts'. sv_tasks s' t = Some (T_done (status 200))" "\<forall>u. u \<notin> set ts' \<longrightarrow> sv_tasks s' u = sv_tasks ?s1 u"
    by auto
  with 1 ts Cons.prems(4) show ?case by (intro exI [of _ s']) (auto simp: exec_all_append)
qed simp

text \<open>
  C4: A transfer succeeds whatever the others do. The handlers \<open>ts\<close> of one sender upload the
  missing files of the open session, one after the other and each with a fit body, while any
  number of other requests, none with the session's id, run between any two of their pieces.
  At the end every upload was answered 200, the receiver is idle, the files reported are
  exactly these, every body is on disk under the sender's alias, and no other file changed.
\<close>

theorem transfer_despite_others:
  assumes "run (guarded (step from_slice to_vec cfg) (unnamed (s_id ses) (set ts))) s es s'"
    and "filter (\<lambda>e. event_task e \<in> set ts) es = concat (map2 upload_pieces ts (map (\<lambda>(fid, env). (env, qf fid)) ups))"
    and "rv_state s = Sending ses" and "session_ok ses" and "fs_ok (rv_fs s)"
    and "length ts = length ups" and "distinct ts" and "\<And>t. t \<in> set ts \<Longrightarrow> new_task s t"
    and "\<And>u x. u \<notin> set ts \<Longrightarrow> sv_tasks s u = Some x \<Longrightarrow> \<exists>r. x = T_done r"
    and "set (map fst ups) = fset (fmdom (s_files ses) |-| s_received ses)" and "distinct (map fst ups)"
    and "\<And>fid env. (fid, env) \<in> set ups \<Longrightarrow> \<exists>tok meta. upload_params (qf fid) = Some (s_id ses, fid, tok)
      \<and> tok \<noteq> '''' \<and> hm_get (s_tokens ses) fid = Some tok \<and> hm_get (s_files ses) fid = Some meta \<and> fit_upload env meta"
  shows "rv_state s' = Idle \<and> rv_trust s' = rv_trust s
    \<and> (\<forall>t \<in> set ts. sv_tasks s' t = Some (T_done (status 200)))
    \<and> (\<exists>saved. rv_saved s' = rv_saved s @ saved \<and> list_all2 (saves_body (rv_fs s') (s_from_alias ses)) ups saved)
    \<and> (\<forall>x d. fs_read (rv_fs s) x = Some d \<longrightarrow> fs_read (rv_fs s') x = Some d)"
proof -
  let ?us = "map (\<lambda>(fid, env). (env, qf fid)) ups"
  obtain g sv' where all: "upload_all cfg ?us (rv_state s, rv_fs s, rv_saved s) =
      Some (replicate (length ?us) (status 200), Idle, g, rv_saved s @ sv')"
    and saved: "list_all2 (saves_body g (s_from_alias ses)) ups sv'"
    and keep: "\<forall>x d. fs_read (rv_fs s) x = Some d \<longrightarrow> fs_read g x = Some d"
    using upload_all_complete [OF assms(5,4,10-12), of cfg "rv_saved s"] assms(3) by auto
  from exec_uploads [OF all assms(5) _ assms(7,8), of from_slice to_vec] assms(6) obtain r where
    r: "exec_all from_slice to_vec cfg s (concat (map2 upload_pieces ts ?us)) = Some r" "rv_state r = Idle" "rv_fs r = g"
      "rv_saved r = rv_saved s @ sv'" "rv_trust r = rv_trust s" "\<forall>t \<in> set ts. sv_tasks r t = Some (T_done (status 200))"
    by auto
  have "same_for (set ts) s s" using assms(9) by (auto simp: same_for_def same_core_def)
  from undisturbed.isolated_run [OF assms(1) this] obtain alone where
    "exec_all from_slice to_vec cfg s (concat (map2 upload_pieces ts ?us)) = Some alone" "same_for (set ts) s' alone"
    unfolding assms(2) run_iff_exec_all by blast
  with r saved keep show ?thesis by (auto simp: same_for_def same_core_def)
qed

end
