(* ===== verification/Send.thy ===== *)
theory Send
  imports Recv_Session
begin

text \<open>
  \<open>app/rust/src/core/transfer/send.rs\<close>: the messages for refused transfers, the certificate
  check that replaces CA validation (\<open>FingerprintVerifier\<close>), the manual \<open>/info\<close> exchange, and
  the requests of \<open>Sender\<close>.  hyper and rustls are not part of the sources.  The other end is
  an \<open>endpoint\<close>: the certificate it presents, whether its handshake signature verifies, and
  how it answers a request; \<open>connect\<close> states what the code relies on, that a connection
  exists only when the certificate check and the handshake signature check passed.
\<close>

section \<open>Messages\<close>

definition msg_rejected :: string where
  "msg_rejected = utf8 [0xC218, 0xC2E0, 0xC790, 0xAC00, 32, 0xAC70, 0xC808, 0xD588, 0xC2B5,
     0xB2C8, 0xB2E4]"

definition msg_timeout :: string where
  "msg_timeout = utf8 [0xC2B9, 0xC778, 32, 0xB300, 0xAE30, 32, 0xC2DC, 0xAC04, 40, 54, 48, 0xCD08,
     41, 0xC744, 32, 0xCD08, 0xACFC, 0xD588, 0xC2B5, 0xB2C8, 0xB2E4]"

definition msg_busy :: string where
  "msg_busy = utf8 [0xC218, 0xC2E0, 0xC790, 0xAC00, 32, 0xB2E4, 0xB978, 32, 0xC804, 0xC1A1, 0xC744,
     32, 0xC9C4, 0xD589, 32, 0xC911, 0xC785, 0xB2C8, 0xB2E4, 32, 40, 98, 117, 115, 121, 41]"

definition msg_peer_error :: string where
  "msg_peer_error = utf8 [0xC218, 0xC2E0, 32, 0xCE21, 32, 0xC624, 0xB958, 32, 40, 72, 84, 84, 80, 32]"

definition status_message :: "u16 \<Rightarrow> string" where
  "status_message code =
     (if code = 403 then msg_rejected
      else if code = 408 then msg_timeout
      else if code = 409 then msg_busy
      else msg_peer_error @ dec_string (unat code) @ '')'')"

text \<open>What the certificate check says of a wrong fingerprint; \<open>mismatch_marker\<close> is the part
  the app looks for.\<close>

definition mismatch_marker :: string where
  "mismatch_marker = utf8 [0xC9C0, 0xBB38, 32, 0xBD88, 0xC77C, 0xCE58]"

definition msg_mismatch :: "string \<Rightarrow> string" where
  "msg_mismatch fp16 = utf8 [0xC778, 0xC99D, 0xC11C, 32, 0xC9C0, 0xBB38, 32, 0xBD88, 0xC77C, 0xCE58,
     58, 32, 0xAD11, 0xACE0, 0xB41C, 32, 0xAE30, 0xAE30, 0xAC00, 32, 0xC544, 0xB2D9, 0xB2C8, 0xB2E4,
     32, 40] @ fp16 @ utf8 [0x2026, 41]"

lemma msg_mismatch_marked: "contains_str (msg_mismatch fp16) mismatch_marker"
proof -
  have "msg_mismatch fp16 = utf8 [0xC778, 0xC99D, 0xC11C, 32] @ mismatch_marker @
      (utf8 [58, 32, 0xAD11, 0xACE0, 0xB41C, 32, 0xAE30, 0xAE30, 0xAC00, 32, 0xC544, 0xB2D9, 0xB2C8,
        0xB2E4, 32, 40] @ fp16 @ utf8 [0x2026, 41])"
    by (simp add: msg_mismatch_def mismatch_marker_def flip: utf8_append append_assoc)
  then show ?thesis unfolding contains_str_iff by blast
qed

section \<open>The certificate check\<close>

record verifier =
  fv_expected :: "string option"
  fv_captured :: "string option"

datatype verdict = Verified | Rejected string | Verify_panic

text \<open>
  \<open>fp\<close> is \<open>fingerprint_of\<close>; the panic is the slice of its first 16 bytes.
\<close>

definition verify_server_cert :: "(string \<Rightarrow> string) \<Rightarrow> verifier \<Rightarrow> string \<Rightarrow> verdict \<times> verifier" where
  "verify_server_cert fp v end_entity =
     (let observed = fp end_entity; v' = v\<lparr>fv_captured := Some observed\<rparr>
      in (case fv_expected v of
            Some expected \<Rightarrow>
              if observed \<noteq> expected
              then (case str_slice observed 0 16 of
                  Some h \<Rightarrow> Rejected (msg_mismatch h) | None \<Rightarrow> Verify_panic)
              else Verified
          | None \<Rightarrow> Verified, v'))"

definition verifier_for :: "string option \<Rightarrow> verifier" where
  "verifier_for expected = \<lparr>fv_expected = expected, fv_captured = None\<rparr>"

lemma verify_server_cert_Verified:
  "verify_server_cert fp v c = (Verified, v') \<Longrightarrow>
    fv_captured v' = Some (fp c) \<and> (\<forall>e. fv_expected v = Some e \<longrightarrow> fp c = e)"
  by (auto simp: verify_server_cert_def Let_def split: option.splits if_splits)

section \<open>Requests\<close>

record http_request =
  hr_path :: string
  hr_length :: "u64 option"
  hr_info :: "peer_info option"
  hr_prepare :: "prepare_upload_request option"
  hr_chunks :: "string list"
  hr_broken :: bool

definition plain_request :: "string \<Rightarrow> http_request" where
  "plain_request p = \<lparr>hr_path = p, hr_length = None, hr_info = None, hr_prepare = None,
     hr_chunks = [], hr_broken = False\<rparr>"

text \<open>The other end: \<open>ep_reply\<close> is \<open>None\<close> when the connection breaks; a reply has a status and,
  if it could be read, a body.  \<open>ep_polled\<close> is how many chunks of the body it took.\<close>

record endpoint =
  ep_cert :: string
  ep_signed :: bool
  ep_reply :: "http_request \<Rightarrow> (u16 \<times> string option) option"
  ep_polled :: "http_request \<Rightarrow> nat"

datatype send_error =
    Bad_uri | No_connection string | Bad_reply string | Unreadable_reply | Bad_json
  | Fingerprint_differs | No_file | Crash

text \<open>
  An HTTP client has its certificate check and a pool of connections it made earlier.  A
  request goes over a pooled connection or a new one; which, is the client library's choice.
\<close>

record client =
  cl_verifier :: verifier
  cl_pool :: "endpoint list"

datatype connection = Pooled endpoint | Fresh endpoint

definition client_for :: "string option \<Rightarrow> client" where
  "client_for expected = \<lparr>cl_verifier = verifier_for expected, cl_pool = []\<rparr>"

definition connect :: "(string \<Rightarrow> string) \<Rightarrow> client \<Rightarrow> connection \<Rightarrow> (send_error + endpoint) \<times> client" where
  "connect fp cl conn =
     (case conn of
        Pooled ep \<Rightarrow> if ep \<in> set (cl_pool cl) then (Inr ep, cl) else (Inl (No_connection ''''), cl)
      | Fresh ep \<Rightarrow>
          (let (d, v) = verify_server_cert fp (cl_verifier cl) (ep_cert ep);
               cl' = cl\<lparr>cl_verifier := v\<rparr>
           in case d of
             Verify_panic \<Rightarrow> (Inl Crash, cl')
           | Rejected m \<Rightarrow> (Inl (No_connection m), cl')
           | Verified \<Rightarrow>
               if ep_signed ep then (Inr ep, cl'\<lparr>cl_pool := ep # cl_pool cl\<rparr>)
               else (Inl (No_connection ''''), cl')))"

text \<open>A request: the result, the client afterwards, and what left this device, to whom.\<close>

definition client_request ::
    "(string \<Rightarrow> string) \<Rightarrow> client \<Rightarrow> connection \<Rightarrow> http_request
      \<Rightarrow> (send_error + u16 \<times> string option) \<times> client \<times> (endpoint \<times> http_request) list" where
  "client_request fp cl conn rq =
     (case connect fp cl conn of
        (Inl e, cl') \<Rightarrow> (Inl e, cl', [])
      | (Inr ep, cl') \<Rightarrow>
          ((case ep_reply ep rq of None \<Rightarrow> Inl (No_connection '''') | Some r \<Rightarrow> Inr r), cl', [(ep, rq)]))"

text \<open>\<open>uri_ok\<close> is the HTTP library's parser of request addresses.\<close>

definition exchange_info ::
    "(string \<Rightarrow> string) \<Rightarrow> (string \<Rightarrow> bool) \<Rightarrow> (string \<Rightarrow> peer_info option) \<Rightarrow> endpoint \<Rightarrow> string
      \<Rightarrow> peer_info \<Rightarrow> send_error + peer_info" where
  "exchange_info fp uri_ok from_slice ep addr self_info =
     (let uri = ''https://'' @ addr @ API_PREFIX @ ''/info'' in
      if \<not> uri_ok uri then Inl Bad_uri
      else
        (let (res, cl, _) = client_request fp (client_for None) (Fresh ep)
               ((plain_request uri)\<lparr>hr_info := Some self_info\<rparr>) in
         case res of
           Inl e \<Rightarrow> Inl e
         | Inr (code, body) \<Rightarrow>
             if code \<noteq> 200 then Inl (Bad_reply (status_message code))
             else (case body of None \<Rightarrow> Inl Unreadable_reply
               | Some b \<Rightarrow> (case from_slice b of None \<Rightarrow> Inl Bad_json
                   | Some info \<Rightarrow>
                       if Some (pi_fingerprint info) \<noteq> fv_captured (cl_verifier cl)
                       then Inl Fingerprint_differs else Inr info))))"

record sender =
  sd_addr :: string
  sd_client :: client
  sd_self_info :: peer_info

definition sender_new :: "string \<Rightarrow> string \<Rightarrow> peer_info \<Rightarrow> sender" where
  "sender_new addr expected_fingerprint self_info =
     \<lparr>sd_addr = addr, sd_client = client_for (Some expected_fingerprint), sd_self_info = self_info\<rparr>"

definition sender_url :: "sender \<Rightarrow> string \<Rightarrow> string \<Rightarrow> string" where
  "sender_url sd path query = ''https://'' @ sd_addr sd @ API_PREFIX @ path @ query"

text \<open>A request of the sender: built only for an address the library takes, then sent.\<close>

definition sender_request ::
    "(string \<Rightarrow> string) \<Rightarrow> (string \<Rightarrow> bool) \<Rightarrow> sender \<Rightarrow> connection \<Rightarrow> http_request
      \<Rightarrow> (send_error + u16 \<times> string option) \<times> sender \<times> (endpoint \<times> http_request) list" where
  "sender_request fp uri_ok sd conn rq =
     (if \<not> uri_ok (hr_path rq) then (Inl Bad_uri, sd, [])
      else (let (res, cl, sent) = client_request fp (sd_client sd) conn rq
            in (res, sd\<lparr>sd_client := cl\<rparr>, sent)))"

definition prepare_upload ::
    "(string \<Rightarrow> string) \<Rightarrow> (string \<Rightarrow> bool) \<Rightarrow> (string \<Rightarrow> prepare_upload_response option) \<Rightarrow> sender
      \<Rightarrow> connection \<Rightarrow> (string, file_meta) hash_map
      \<Rightarrow> (send_error + prepare_upload_response) \<times> sender \<times> (endpoint \<times> http_request) list" where
  "prepare_upload fp uri_ok from_slice sd conn files =
     (let (res, sd', sent) = sender_request fp uri_ok sd conn
            ((plain_request (sender_url sd ''/prepare-upload'' ''''))
               \<lparr>hr_prepare := Some \<lparr>pr_info = sd_self_info sd, pr_files = files\<rparr>\<rparr>) in
      (case res of
         Inl e \<Rightarrow> Inl e
       | Inr (code, body) \<Rightarrow>
           if code \<noteq> 200 then Inl (Bad_reply (status_message code))
           else (case body of None \<Rightarrow> Inl Unreadable_reply
             | Some b \<Rightarrow> (case from_slice b of None \<Rightarrow> Inl Bad_json | Some r \<Rightarrow> Inr r)), sd', sent))"

text \<open>The query strings of \<open>upload_file\<close> and \<open>cancel\<close>, and the running totals reported.\<close>

definition upload_query :: "string \<Rightarrow> string \<Rightarrow> string \<Rightarrow> string" where
  "upload_query session_id file_id token =
     ''?sessionId='' @ session_id @ ''&fileId='' @ file_id @ ''&token='' @ token"

definition cancel_query :: "string \<Rightarrow> string" where
  "cancel_query session_id = ''?sessionId='' @ session_id"

fun progress_totals :: "u64 \<Rightarrow> string list \<Rightarrow> u64 list" where
  "progress_totals sent [] = []"
| "progress_totals sent (c # cs) =
     (sent + of_nat (length c)) # progress_totals (sent + of_nat (length c)) cs"

text \<open>\<open>file\<close> is \<open>None\<close> when the file cannot be opened, else the chunks it is read in and whether
  a read error ended them.  The last component is what \<open>on_progress\<close> is called with.\<close>

definition upload_file ::
    "(string \<Rightarrow> string) \<Rightarrow> (string \<Rightarrow> bool) \<Rightarrow> sender \<Rightarrow> connection \<Rightarrow> string \<Rightarrow> string \<Rightarrow> string
      \<Rightarrow> (string list \<times> bool) option \<Rightarrow> u64
      \<Rightarrow> (send_error + unit) \<times> sender \<times> (endpoint \<times> http_request) list \<times> u64 list" where
  "upload_file fp uri_ok sd conn session_id file_id token file file_size =
     (case file of
        None \<Rightarrow> (Inl No_file, sd, [], [])
      | Some (chunks, broken) \<Rightarrow>
          (let (res, sd', sent) = sender_request fp uri_ok sd conn
                 ((plain_request (sender_url sd ''/upload'' (upload_query session_id file_id token)))
                    \<lparr>hr_length := Some file_size, hr_chunks := chunks, hr_broken := broken\<rparr>) in
           (case res of
              Inl e \<Rightarrow> Inl e
            | Inr (code, _) \<Rightarrow> if code \<noteq> 200 then Inl (Bad_reply (status_message code)) else Inr (),
            sd', sent,
            concat (map (\<lambda>(ep, rq). progress_totals 0 (take (ep_polled ep rq) chunks)) sent))))"

definition cancel ::
    "(string \<Rightarrow> string) \<Rightarrow> (string \<Rightarrow> bool) \<Rightarrow> sender \<Rightarrow> connection \<Rightarrow> string
      \<Rightarrow> sender \<times> (endpoint \<times> http_request) list" where
  "cancel fp uri_ok sd conn session_id =
     snd (sender_request fp uri_ok sd conn
       (plain_request (sender_url sd ''/cancel'' (cancel_query session_id))))"

section \<open>What the receiver reads from the sender's queries\<close>

text \<open>A text the sender may put into a query unescaped.\<close>

definition query_safe :: "string \<Rightarrow> bool" where
  "query_safe s \<longleftrightarrow> valid_utf8 s \<and> CHR ''%'' \<notin> set s \<and> CHR ''+'' \<notin> set s \<and> CHR ''&'' \<notin> set s"

lemma query_safe_ascii:
  "\<forall>c \<in> set s. byte c < 128 \<and> c \<notin> {CHR ''%'', CHR ''+'', CHR ''&''} \<Longrightarrow> query_safe s"
  by (induction s) (auto simp: query_safe_def valid_utf8_ascii_Cons valid_utf8.simps [of "[]"])

text \<open>What \<open>random_hex16\<close> delivers may stand in a query as it is.\<close>

lemma query_safe_hex:
  assumes "set s \<subseteq> set ''0123456789abcdef''"
  shows "query_safe s"
proof (rule query_safe_ascii, intro ballI)
  fix c assume "c \<in> set s"
  with assms have "c \<in> set ''0123456789abcdef''" by blast
  then show "byte c < 128 \<and> c \<notin> {CHR ''%'', CHR ''+'', CHR ''&''}" by auto
qed

lemma query_safe_decode: "query_safe s \<Longrightarrow> url_decode s = Some s"
  by (simp add: query_safe_def url_decode_plain)

lemma query_safe_pair:
  assumes "query_safe v" and "url_decode k = Some k" and "CHR ''='' \<notin> set k"
  shows "query_pairs ((k @ CHR ''='' # v) # ps) = map_option (Cons (k, v)) (query_pairs ps)"
  using assms by (simp add: split_once_append query_safe_decode)

lemma decode_key:
  "url_decode ''sessionId'' = Some ''sessionId''" "url_decode ''fileId'' = Some ''fileId''"
  "url_decode ''token'' = Some ''token''"
  by (simp_all add: url_decode_plain valid_utf8_ascii_Cons valid_utf8.simps [of "[]"])

lemma query_pairs_session:
  assumes "query_safe sid"
  shows "query_pairs ((''sessionId='' @ sid) # ps) = map_option (Cons (''sessionId'', sid)) (query_pairs ps)"
  using query_safe_pair [OF assms decode_key(1), of ps] by simp

lemma query_pairs_file:
  assumes "query_safe fid"
  shows "query_pairs ((''fileId='' @ fid) # ps) = map_option (Cons (''fileId'', fid)) (query_pairs ps)"
  using query_safe_pair [OF assms decode_key(2), of ps] by simp

lemma query_pairs_token:
  assumes "query_safe tok"
  shows "query_pairs ((''token='' @ tok) # ps) = map_option (Cons (''token'', tok)) (query_pairs ps)"
  using query_safe_pair [OF assms decode_key(3), of ps] by simp

lemma split_upload_query:
  assumes "query_safe sid" and "query_safe fid" and "query_safe tok"
  shows "split_on CHR ''&'' (''sessionId='' @ sid @ ''&fileId='' @ fid @ ''&token='' @ tok) =
    [''sessionId='' @ sid, ''fileId='' @ fid, ''token='' @ tok]"
proof -
  have "split_on CHR ''&'' ((''sessionId='' @ sid) @ CHR ''&'' # (''fileId='' @ fid) @ CHR ''&'' #
      (''token='' @ tok)) = [''sessionId='' @ sid, ''fileId='' @ fid, ''token='' @ tok]"
    unfolding split_on_append_sep using assms by (simp add: query_safe_def split_on_no_sep)
  then show ?thesis by simp
qed

lemma upload_params_query:
  assumes "query_safe sid" and "query_safe fid" and "query_safe tok"
  shows "upload_params (strip_prefix ''?'' (upload_query sid fid tok)) = Some (sid, fid, tok)"
proof -
  have q: "strip_prefix ''?'' (upload_query sid fid tok) =
      Some (''sessionId='' @ sid @ ''&fileId='' @ fid @ ''&token='' @ tok)"
    by (simp add: upload_query_def)
  have "query_params (''sessionId='' @ sid @ ''&fileId='' @ fid @ ''&token='' @ tok) =
      Some (fmupd ''token'' tok (fmupd ''fileId'' fid (fmupd ''sessionId'' sid fmempty)))"
    unfolding query_params_def split_upload_query [OF assms] query_pairs_session [OF assms(1)]
      query_pairs_file [OF assms(2)] query_pairs_token [OF assms(3)]
    by simp
  then show ?thesis unfolding q by (simp add: upload_params_def query_map_def param_or_default_def)
qed

lemma cancel_params_query:
  assumes "query_safe sid"
  shows "map_option (\<lambda>m. param_or_default m ''sessionId'') (query_map (strip_prefix ''?'' (cancel_query sid)))
    = Some sid"
proof -
  have s: "split_on CHR ''&'' (''sessionId='' @ sid) = [''sessionId='' @ sid]"
    by (rule split_on_no_sep) (use assms in \<open>simp add: query_safe_def\<close>)
  have "query_params (''sessionId='' @ sid) = Some (fmupd ''sessionId'' sid fmempty)"
    unfolding query_params_def s query_pairs_session [OF assms] by simp
  then show ?thesis by (simp add: cancel_query_def query_map_def param_or_default_def)
qed

text \<open>
  The receiver reads from the sender's queries what the sender put in: for ids and tokens
  that need no escaping, as the ones the two sides make up, an upload query parses to the
  session, the file and the token, and a cancel query to the session.
\<close>

theorem query_roundtrip:
  assumes "query_safe sid" and "query_safe fid" and "query_safe tok"
  shows "upload_params (strip_prefix ''?'' (upload_query sid fid tok)) = Some (sid, fid, tok)
    \<and> map_option (\<lambda>m. param_or_default m ''sessionId'')
        (query_map (strip_prefix ''?'' (cancel_query sid))) = Some sid"
  using upload_params_query [OF assms] cancel_params_query [OF assms(1)] by simp

section \<open>Who it talks to\<close>

text \<open>A connection is authentic when its certificate has the fingerprint that is expected and
  its handshake signature verified.\<close>

definition authentic :: "(string \<Rightarrow> string) \<Rightarrow> string option \<Rightarrow> endpoint \<Rightarrow> bool" where
  "authentic fp expected ep \<longleftrightarrow> ep_signed ep \<and> (\<forall>e. expected = Some e \<longrightarrow> fp (ep_cert ep) = e)"

definition client_ok :: "(string \<Rightarrow> string) \<Rightarrow> string option \<Rightarrow> client \<Rightarrow> bool" where
  "client_ok fp expected cl \<longleftrightarrow> fv_expected (cl_verifier cl) = expected
     \<and> (\<forall>ep \<in> set (cl_pool cl). authentic fp expected ep)"

lemma client_ok_init [simp]: "client_ok fp expected (client_for expected)"
  by (simp add: client_ok_def client_for_def verifier_for_def)

lemma verify_server_cert_expected:
  "fv_expected (snd (verify_server_cert fp v c)) = fv_expected v"
  by (simp add: verify_server_cert_def Let_def)

lemma connect_cases:
  assumes "connect fp cl conn = (r, cl')" and "client_ok fp expected cl"
  obtains (refused) e where "r = Inl e" "client_ok fp expected cl'"
  | (made) ep where "r = Inr ep" "client_ok fp expected cl'" "authentic fp expected ep"
      "conn = Pooled ep \<or> conn = Fresh ep"
      "conn = Fresh ep \<Longrightarrow> fv_captured (cl_verifier cl') = Some (fp (ep_cert ep))"
proof (cases conn)
  case (Pooled ep)
  with assms show ?thesis using refused made by (auto simp: connect_def client_ok_def split: if_splits)
next
  case (Fresh ep)
  obtain d v where dv: "verify_server_cert fp (cl_verifier cl) (ep_cert ep) = (d, v)"
    by fastforce
  have e: "fv_expected v = expected"
    using verify_server_cert_expected [of fp "cl_verifier cl" "ep_cert ep"] dv assms(2)
    by (simp add: client_ok_def)
  show ?thesis
  proof (cases "d = Verified \<and> ep_signed ep")
    case True
    with dv verify_server_cert_Verified [of fp "cl_verifier cl" "ep_cert ep" v] assms(2)
    have "authentic fp expected ep" and "fv_captured v = Some (fp (ep_cert ep))"
      by (auto simp: authentic_def client_ok_def)
    with True Fresh dv e assms show ?thesis
      by (intro made [of ep]) (auto simp: connect_def client_ok_def)
  next
    case False
    then have "\<exists>e. connect fp cl conn = (Inl e, cl\<lparr>cl_verifier := v\<rparr>)"
      using Fresh dv by (cases d) (auto simp: connect_def)
    then show ?thesis using refused e assms by (auto simp: client_ok_def)
  qed
qed

lemma client_request_ok:
  assumes "client_request fp cl conn rq = (res, cl', sent)" and "client_ok fp expected cl"
  shows "client_ok fp expected cl'" and "\<forall>(ep, q) \<in> set sent. authentic fp expected ep \<and> q = rq"
    and "res = Inr (code, body) \<Longrightarrow> \<exists>ep. sent = [(ep, rq)] \<and> ep_reply ep rq = Some (code, body)
      \<and> (conn = Pooled ep \<or> conn = Fresh ep)
      \<and> (conn = Fresh ep \<longrightarrow> fv_captured (cl_verifier cl') = Some (fp (ep_cert ep)))"
proof -
  obtain r cl1 where c: "connect fp cl conn = (r, cl1)" by fastforce
  show "client_ok fp expected cl'" and "\<forall>(ep, q) \<in> set sent. authentic fp expected ep \<and> q = rq"
    using assms c by (cases rule: connect_cases [OF c assms(2)]; auto simp: client_request_def)+
  show "\<exists>ep. sent = [(ep, rq)] \<and> ep_reply ep rq = Some (code, body)
      \<and> (conn = Pooled ep \<or> conn = Fresh ep)
      \<and> (conn = Fresh ep \<longrightarrow> fv_captured (cl_verifier cl') = Some (fp (ep_cert ep)))"
    if "res = Inr (code, body)"
    using assms c that
    by (cases rule: connect_cases [OF c assms(2)]) (auto simp: client_request_def split: option.splits)
qed

text \<open>
  The manual exchange by address trusts an answer only if it is authentic: the info it
  returns carries the fingerprint of the very certificate the other end presented, and that
  end proved possession of the certificate's key.
\<close>

theorem exchange_info_authentic:
  assumes "exchange_info fp uri_ok from_slice ep addr self_info = Inr info"
  shows "pi_fingerprint info = fp (ep_cert ep) \<and> ep_signed ep
    \<and> (\<exists>rq b. ep_reply ep rq = Some (200, Some b) \<and> from_slice b = Some info)"
proof -
  let ?rq = "(plain_request (''https://'' @ addr @ API_PREFIX @ ''/info''))\<lparr>hr_info := Some self_info\<rparr>"
  obtain res cl sent where cr: "client_request fp (client_for None) (Fresh ep) ?rq = (res, cl, sent)"
    by (metis prod_cases3)
  from assms cr obtain b where res: "res = Inr (200, Some b)" "from_slice b = Some info"
    and fp: "fv_captured (cl_verifier cl) = Some (pi_fingerprint info)"
    by (auto simp: exchange_info_def Let_def split: if_splits sum.splits option.splits)
  note ok = client_request_ok [OF cr client_ok_init]
  from ok(3) [OF res(1)] have "ep_reply ep ?rq = Some (200, Some b)" "sent = [(ep, ?rq)]"
    and "fv_captured (cl_verifier cl) = Some (fp (ep_cert ep))"
    by auto
  with ok(2) fp res(2) show ?thesis by (auto simp: authentic_def)
qed

text \<open>The calls a job makes on its sender, each labelled with what left this device.\<close>

inductive sender_step ::
    "(string \<Rightarrow> string) \<Rightarrow> (string \<Rightarrow> bool) \<Rightarrow> (string \<Rightarrow> prepare_upload_response option)
      \<Rightarrow> sender \<Rightarrow> (endpoint \<times> http_request) list \<Rightarrow> sender \<Rightarrow> bool"
  for fp uri_ok from_slice where
  ss_prepare: "prepare_upload fp uri_ok from_slice sd conn files = (r, sd', sent) \<Longrightarrow>
    sender_step fp uri_ok from_slice sd sent sd'"
| ss_upload: "upload_file fp uri_ok sd conn sid fid tok content len = (r, sd', sent, ps) \<Longrightarrow>
    sender_step fp uri_ok from_slice sd sent sd'"
| ss_cancel: "cancel fp uri_ok sd conn sid = (sd', sent) \<Longrightarrow> sender_step fp uri_ok from_slice sd sent sd'"

lemma sender_request_ok:
  assumes "sender_request fp uri_ok sd conn rq = (res, sd', sent)"
    and "client_ok fp expected (sd_client sd)"
  shows "client_ok fp expected (sd_client sd')" and "\<forall>(ep, q) \<in> set sent. authentic fp expected ep"
  using assms client_request_ok(1,2) [of fp "sd_client sd" conn rq _ _ _ expected]
  by (fastforce simp: sender_request_def Let_def split: if_splits prod.splits)+

lemma sender_step_request:
  assumes "sender_step fp uri_ok fsl sd sent sd'"
  obtains (request) conn rq res where "sender_request fp uri_ok sd conn rq = (res, sd', sent)"
  | (none) "sent = []" "sd' = sd"
  using assms
proof (cases rule: sender_step.cases)
  case (ss_prepare conn files r)
  then show ?thesis using request by (auto simp: prepare_upload_def Let_def split: prod.splits)
next
  case (ss_upload conn sid fid tok content len r ps)
  then show ?thesis using request none
    by (auto simp: upload_file_def Let_def split: prod.splits option.splits)
next
  case (ss_cancel conn sid)
  then show ?thesis using request by (metis cancel_def surjective_pairing)
qed

interpretation sender_pin: step_invariant "sender_step fp uri_ok fsl"
    "\<lambda>sd. client_ok fp expected (sd_client sd)" for fp uri_ok fsl expected
  by unfold_locales (auto elim!: sender_step_request dest: sender_request_ok)

lemma sender_run_authentic:
  "run (sender_step fp uri_ok fsl) sd sents sd' \<Longrightarrow> client_ok fp expected (sd_client sd) \<Longrightarrow>
    (ep, rq) \<in> set (concat sents) \<Longrightarrow> authentic fp expected ep"
proof (induction rule: run.induct)
  case (run_Cons s l t ls u)
  have "client_ok fp expected (sd_client t)"
    using sender_pin.step_inv [OF run_Cons.prems(1) TrueI run_Cons.hyps(1)] .
  moreover have "(ep, rq) \<in> set l \<Longrightarrow> authentic fp expected ep"
    using run_Cons.hyps(1) run_Cons.prems(1) by (auto elim!: sender_step_request dest: sender_request_ok)
  ultimately show ?case using run_Cons.IH run_Cons.prems(2) by auto
qed simp

text \<open>
  C9: Whatever a sender is asked to do, and whatever connections its client library makes or
  reuses, nothing it sends (the file list, file contents, cancellations) leaves this device to
  an end whose certificate does not have the fingerprint the sender was made with, or that
  has not proved possession of that certificate's key.
\<close>

theorem sender_pins_fingerprint:
  assumes "run (sender_step fp uri_ok from_slice) (sender_new addr expected info) sents sd"
    and "(ep, rq) \<in> set (concat sents)"
  shows "fp (ep_cert ep) = expected \<and> ep_signed ep"
  using sender_run_authentic [OF assms(1) _ assms(2), of "Some expected"]
  by (simp add: sender_new_def authentic_def)

section \<open>Progress\<close>

lemma progress_totals_eq:
  "progress_totals s cs = map (\<lambda>k. s + of_nat (length (concat (take (Suc k) cs)))) [0..<length cs]"
proof (induction cs arbitrary: s)
  case (Cons c cs)
  show ?case
    by (simp add: Cons.IH upt_conv_Cons map_Suc_upt [symmetric] ac_simps del: upt_Suc)
qed simp

lemma concat_take_mono: "i \<le> j \<Longrightarrow> length (concat (take i cs)) \<le> length (concat (take j cs))"
  by (metis append_take_drop_id concat_append le_add1 length_append min.absorb1 take_take)

lemma concat_take_le: "length (concat (take i cs)) \<le> length (concat cs)"
  by (metis append_take_drop_id concat_append le_add1 length_append)

lemma sender_request_sent:
  assumes "sender_request fp uri_ok sd conn rq = (res, sd', sent)"
  shows "sent = [] \<or> (\<exists>ep. sent = [(ep, rq)])"
    and "res = Inr (code, body) \<Longrightarrow> \<exists>ep. sent = [(ep, rq)] \<and> ep_reply ep rq = Some (code, body)"
  using assms
  by (auto simp: sender_request_def client_request_def split: if_splits prod.splits sum.splits option.splits)

text \<open>The totals reported while a stream is read, as natural numbers.\<close>

lemma progress_totals_nat:
  assumes "length (concat cs) < 2 ^ 64"
  shows "map unat (progress_totals 0 (take m cs) :: u64 list)
    = map (\<lambda>k. length (concat (take (Suc k) cs))) [0..<min m (length cs)]"
proof -
  have "length (concat (take k cs)) < 2 ^ 64" for k
    using concat_take_le [of k cs] assms by linarith
  then show ?thesis
    by (simp add: progress_totals_eq unat_of_nat take_bit_nat_eq_self min_def)
qed

lemma progress_of_prefix:
  assumes "map unat ps = map (\<lambda>k. length (concat (take (Suc k) cs))) [0..<n]"
  shows "sorted (map unat ps) \<and> (\<forall>p \<in> set ps. unat p \<le> length (concat cs))"
proof
  show "sorted (map unat ps)" unfolding assms sorted_iff_nth_mono by (auto intro: concat_take_mono)
  have "set (map unat ps) \<subseteq> {..length (concat cs)}" unfolding assms using concat_take_le by auto
  then show "\<forall>p \<in> set ps. unat p \<le> length (concat cs)" by auto
qed

text \<open>
  C37: The progress reported during one file counts the bytes handed over so far: the totals
  after each chunk of the file in order, never decreasing, never above the length of the
  file; and an upload that succeeds was answered 200 on a request carrying the file's chunks.
\<close>

theorem upload_progress:
  assumes "upload_file fp uri_ok sd conn sid fid tok (Some (chunks, broken)) len = (r, sd', sent, ps)"
    and "length (concat chunks) < 2 ^ 64"
  shows "(\<exists>n \<le> length chunks. map unat ps = map (\<lambda>k. length (concat (take (Suc k) chunks))) [0..<n])
    \<and> sorted (map unat ps) \<and> (\<forall>p \<in> set ps. unat p \<le> length (concat chunks))
    \<and> (r = Inr () \<longrightarrow> (\<exists>ep rq body. sent = [(ep, rq)] \<and> ep_reply ep rq = Some (200, body)
        \<and> hr_chunks rq = chunks \<and> hr_length rq = Some len))"
proof -
  let ?rq = "(plain_request (sender_url sd ''/upload'' (upload_query sid fid tok)))
      \<lparr>hr_length := Some len, hr_chunks := chunks, hr_broken := broken\<rparr>"
  obtain res sd1 sent1 where sr: "sender_request fp uri_ok sd conn ?rq = (res, sd1, sent1)"
    by (metis prod_cases3)
  have eqs: "sent = sent1" "ps = concat (map (\<lambda>(ep, rq). progress_totals 0 (take (ep_polled ep rq) chunks)) sent1)"
    and r: "r = Inr () \<Longrightarrow> \<exists>body. res = Inr (200, body)"
    using assms(1) sr by (auto simp: upload_file_def Let_def split: sum.splits if_splits)
  obtain n where n: "n \<le> length chunks" "map unat ps = map (\<lambda>k. length (concat (take (Suc k) chunks))) [0..<n]"
    using sender_request_sent(1) [OF sr]
  proof (elim disjE exE)
    fix ep assume "sent1 = [(ep, ?rq)]"
    with eqs(2) have "ps = progress_totals 0 (take (ep_polled ep ?rq) chunks)" by simp
    with progress_totals_nat [OF assms(2)] show ?thesis by (intro that) (simp_all add: min_def)
  qed (use eqs that [of 0] in simp)
  have "\<exists>ep rq body. sent = [(ep, rq)] \<and> ep_reply ep rq = Some (200, body)
        \<and> hr_chunks rq = chunks \<and> hr_length rq = Some len" if "r = Inr ()"
  proof -
    from r [OF that] obtain body where "res = Inr (200, body)" by blast
    from sender_request_sent(2) [OF sr this] obtain ep where "sent = [(ep, ?rq)]" "ep_reply ep ?rq = Some (200, body)"
      using eqs(1) by blast
    then show ?thesis by (intro exI [of _ ep] exI [of _ ?rq] exI [of _ body]) simp
  qed
  with n progress_of_prefix [OF n(2)] show ?thesis by blast
qed

end
