(* ===== verification/Recv_Races.thy ===== *)
theory Recv_Races
  imports Recv_Pieces Send
begin

text \<open>
  What the receiver promises when handlers interleave, under which conditions on the
  interleaving, and concrete runs where a condition fails and the promise with it.
\<close>

section \<open>Nothing happens without approval\<close>

fun undecided :: "task \<Rightarrow> bool" where
  "undecided (T_claimed p) = True"
| "undecided (T_asked p rq) = True"
| "undecided (T_done r) = True"
| "undecided _ = False"

definition untouched :: "trust_store \<Rightarrow> fs \<Rightarrow> server \<Rightarrow> bool" where
  "untouched ts f s \<longleftrightarrow> rv_trust s = ts \<and> rv_fs s = f \<and> rv_saved s = []
     \<and> rv_state s \<in> {Idle, Pending} \<and> (\<forall>t x. sv_tasks s t = Some x \<longrightarrow> undecided x)"

definition not_approving :: "server \<Rightarrow> event \<Rightarrow> bool" where
  "not_approving s e \<longleftrightarrow> (\<forall>t. e \<noteq> E_answer t (Answer True))"

lemma untouched_set_task:
  "untouched ts f s \<Longrightarrow> (\<And>y. x = Some y \<Longrightarrow> undecided y) \<Longrightarrow> untouched ts f (set_task t x s)"
  by (auto simp: untouched_def)

lemma untouched_state:
  "untouched ts f s \<Longrightarrow> st \<in> {Idle, Pending} \<Longrightarrow> untouched ts f (s\<lparr>rv_state := st\<rparr>)"
  by (simp add: untouched_def)

lemma untouched_task: "untouched ts f s \<Longrightarrow> sv_tasks s t = Some x \<Longrightarrow> undecided x"
  by (simp add: untouched_def)

lemma untouched_step:
  assumes "untouched ts f s" and "not_approving s e" and "step fsl tv cfg s e s'"
  shows "untouched ts f s'"
  using assms(3)
proof (cases rule: step.cases)
  case (s_prepare t body)
  with assms(1) show ?thesis
    by (cases rule: on_prepare_cases [of fsl t body s])
      (auto intro!: untouched_set_task untouched_state)
next
  case (s_answer t p rq a)
  with assms(1,2) show ?thesis
    by (cases rule: on_answer_cases [of a t p s])
      (auto simp: not_approving_def intro!: untouched_set_task untouched_state)
next
  case (s_upload t q)
  have "rv_state s = Idle \<or> rv_state s = Pending" using assms(1) by (simp add: untouched_def)
  with s_upload assms(1) show ?thesis
    by (cases rule: on_upload_cases [of t q s])
      (auto simp: check_upload_accepted_iff intro!: untouched_set_task)
next
  case (s_cancel t q)
  with assms(1) show ?thesis
    by (cases rule: on_cancel_cases [of t q s])
      (auto intro!: untouched_set_task untouched_state)
qed (use assms(1) untouched_task [OF assms(1)] in
    \<open>fastforce simp: on_ask_def intro!: untouched_set_task\<close>)+

interpretation approval_gate: guarded_invariant "step fsl tv cfg" not_approving "untouched ts f"
  for fsl tv cfg ts f
  by unfold_locales (rule untouched_step)

text \<open>
  C5: However requests interleave, as long as the user has not said yes to any, the receiver
  opens no session, trusts nobody new, saves no file and leaves every file on disk as it was.
\<close>

theorem no_approval_no_effect:
  assumes "run (step from_slice to_vec cfg) (server_init ts f) es s"
    and "\<And>t. E_answer t (Answer True) \<notin> set es"
  shows "rv_trust s = ts \<and> rv_fs s = f \<and> rv_saved s = [] \<and> (\<forall>ses. rv_state s \<noteq> Sending ses)"
proof -
  have "untouched ts f (server_init ts f)" by (simp add: untouched_def)
  moreover have "run (guarded (step from_slice to_vec cfg) not_approving) (server_init ts f) es s"
    using assms by (intro guarded_runI) (auto simp: not_approving_def)
  ultimately have "untouched ts f s" using approval_gate.guarded_run_inv by blast
  then show ?thesis by (auto simp: untouched_def)
qed

section \<open>One transfer at a time\<close>

fun asking :: "task \<Rightarrow> prepare_upload_request option" where
  "asking (T_claimed p) = Some p"
| "asking (T_asked p rq) = Some p"
| "asking (T_granted p) = Some p"
| "asking (T_trusted p) = Some p"
| "asking _ = None"

fun uploading :: "task \<Rightarrow> (string \<times> string) option" where
  "uploading (T_checked sid fid meta al) = Some (sid, fid)"
| "uploading (T_named sid fid meta al target) = Some (sid, fid)"
| "uploading (T_writing sid fid meta al target i off w) = Some (sid, fid)"
| "uploading (T_saved sid fid al target) = Some (sid, fid)"
| "uploading (T_failed sid fid removing) = Some (sid, fid)"
| "uploading _ = None"

text \<open>
  A timely step: an upload settles while its own session is still the current one, and a
  new session gets an id that no upload still under way carries.
\<close>

fun timely :: "server \<Rightarrow> event \<Rightarrow> bool" where
  "timely s (E_settle t) =
     (case sv_tasks s t of None \<Rightarrow> True | Some x \<Rightarrow>
        (case uploading x of None \<Rightarrow> True | Some (sid, fid) \<Rightarrow>
           (case rv_state s of Sending ses \<Rightarrow> s_id ses = sid | _ \<Rightarrow> False)))"
| "timely s (E_open t sid tok) = (\<forall>u x fid. sv_tasks s u = Some x \<longrightarrow> uploading x \<noteq> Some (sid, fid))"
| "timely s _ = True"

definition one_transfer :: "server \<Rightarrow> bool" where
  "one_transfer s \<longleftrightarrow> state_ok (rv_state s)
     \<and> (\<forall>t x p. sv_tasks s t = Some x \<longrightarrow> asking x = Some p \<longrightarrow>
          rv_state s = Pending \<and> fmdom' (pr_files p) \<noteq> {})
     \<and> (\<forall>t u x y p q. sv_tasks s t = Some x \<longrightarrow> asking x = Some p \<longrightarrow>
          sv_tasks s u = Some y \<longrightarrow> asking y = Some q \<longrightarrow> t = u)
     \<and> (\<forall>t x sid fid ses. sv_tasks s t = Some x \<longrightarrow> uploading x = Some (sid, fid) \<longrightarrow>
          rv_state s = Sending ses \<longrightarrow> s_id ses = sid \<longrightarrow> fid |\<in>| fmdom (s_files ses))"

lemma one_transferI:
  assumes "state_ok (rv_state s)"
    and "\<And>t x p. sv_tasks s t = Some x \<Longrightarrow> asking x = Some p \<Longrightarrow>
      rv_state s = Pending \<and> fmdom' (pr_files p) \<noteq> {}"
    and "\<And>t u x y p q. sv_tasks s t = Some x \<Longrightarrow> asking x = Some p \<Longrightarrow>
      sv_tasks s u = Some y \<Longrightarrow> asking y = Some q \<Longrightarrow> t = u"
    and "\<And>t x sid fid ses. sv_tasks s t = Some x \<Longrightarrow> uploading x = Some (sid, fid) \<Longrightarrow>
      rv_state s = Sending ses \<Longrightarrow> s_id ses = sid \<Longrightarrow> fid |\<in>| fmdom (s_files ses)"
  shows "one_transfer s"
  using assms(1) unfolding one_transfer_def by (auto dest: assms(2-4))

lemma one_transfer_init: "one_transfer (server_init ts f)"
  by (simp add: one_transfer_def)

lemma one_transfer_asking:
  "one_transfer s \<Longrightarrow> sv_tasks s t = Some x \<Longrightarrow> asking x = Some p \<Longrightarrow>
    rv_state s = Pending \<and> fmdom' (pr_files p) \<noteq> {}"
  unfolding one_transfer_def by blast

lemma one_transfer_uploading:
  "one_transfer s \<Longrightarrow> sv_tasks s t = Some x \<Longrightarrow> uploading x = Some (sid, fid) \<Longrightarrow>
    rv_state s = Sending ses \<Longrightarrow> s_id ses = sid \<Longrightarrow> fid |\<in>| fmdom (s_files ses)"
  unfolding one_transfer_def by blast

text \<open>A task that moves on within its handler, or leaves it, keeps the invariant.\<close>

lemma one_transfer_set_task:
  assumes "one_transfer s"
    and "\<And>y p. x = Some y \<Longrightarrow> asking y = Some p \<Longrightarrow> \<exists>z. sv_tasks s t = Some z \<and> asking z = Some p"
    and "\<And>y sid fid. x = Some y \<Longrightarrow> uploading y = Some (sid, fid) \<Longrightarrow>
      (\<exists>z. sv_tasks s t = Some z \<and> uploading z = Some (sid, fid))
      \<or> (\<exists>ses. rv_state s = Sending ses \<and> fid |\<in>| fmdom (s_files ses))"
  shows "one_transfer (set_task t x s)"
proof -
  have ask: "rv_state s = Pending \<and> fmdom' (pr_files p) \<noteq> {} \<and> (\<exists>z. sv_tasks s v = Some z \<and> asking z = Some p)"
    if "sv_tasks (set_task t x s) v = Some y" "asking y = Some p" for v y p
    using that assms(1,2) one_transfer_asking [OF assms(1)] by (auto split: if_splits) blast+
  have up: "fid |\<in>| fmdom (s_files ses)"
    if "sv_tasks (set_task t x s) v = Some y" "uploading y = Some (sid, fid)"
      "rv_state s = Sending ses" "s_id ses = sid" for v y sid fid ses
    using that assms(3) one_transfer_uploading [OF assms(1)]
    by (cases "v = t") fastforce+
  have same: "v = w"
    if "sv_tasks (set_task t x s) v = Some y" "asking y = Some p"
      "sv_tasks (set_task t x s) w = Some z" "asking z = Some q" for v w y z p q
    using ask [OF that(1,2)] ask [OF that(3,4)] assms(1) unfolding one_transfer_def by blast
  show ?thesis
  proof (rule one_transferI, unfold set_task_simps(2))
    show "state_ok (rv_state s)" using assms(1) by (simp add: one_transfer_def)
  qed (use ask up same in blast)+
qed

lemma one_transfer_fields:
  "one_transfer s \<Longrightarrow> rv_state s' = rv_state s \<Longrightarrow> sv_tasks s' = sv_tasks s \<Longrightarrow> one_transfer s'"
  by (simp add: one_transfer_def)

text \<open>While no request asks for approval, the session may end.\<close>

lemma one_transfer_end:
  assumes "one_transfer s" and "\<And>u x. sv_tasks s u = Some x \<Longrightarrow> u \<noteq> t \<Longrightarrow> asking x = None"
  shows "one_transfer (set_task t (Some (T_done r)) (s\<lparr>rv_state := Idle\<rparr>))"
  using assms unfolding one_transfer_def by (auto split: if_splits)

lemma one_transfer_not_asking:
  "one_transfer s \<Longrightarrow> rv_state s \<noteq> Pending \<Longrightarrow> sv_tasks s u = Some x \<Longrightarrow> asking x = None"
  using one_transfer_asking by (cases "asking x") auto

lemma one_transfer_alone:
  assumes "one_transfer s" and "sv_tasks s t = Some y" and "asking y = Some q"
    and "sv_tasks s u = Some x" and "u \<noteq> t"
  shows "asking x = None"
  using assms unfolding one_transfer_def by (cases "asking x") auto

text \<open>An upload that moves on, whatever it writes.\<close>

lemma one_transfer_writing:
  assumes "one_transfer s" and "sv_tasks s t = Some y" and "uploading y = Some (sid, fid)"
    and "uploading x = Some (sid, fid)" and "asking x = None"
  shows "one_transfer (set_task t (Some x) (s\<lparr>rv_fs := f\<rparr>))" and "one_transfer (set_task t (Some x) s)"
  using one_transfer_fields [OF assms(1), of "s\<lparr>rv_fs := f\<rparr>"] assms
  by (auto intro!: one_transfer_set_task)

lemma one_transfer_prepare:
  assumes "one_transfer s"
  shows "one_transfer (on_prepare fsl t body s)"
proof (cases rule: on_prepare_cases [of fsl t body s])
  case (answered r)
  with assms show ?thesis by (auto intro!: one_transfer_set_task)
next
  case (claimed p)
  have "asking x = None" if "sv_tasks s u = Some x" for u x
    using one_transfer_not_asking [OF assms _ that] claimed(2) by simp
  with claimed assms show ?thesis unfolding one_transfer_def by (auto split: if_splits)
qed

lemma one_transfer_answer:
  assumes "one_transfer s" and "sv_tasks s t = Some (T_asked p rq)"
  shows "one_transfer (on_answer t p a s)"
proof (cases rule: on_answer_cases [of a t p s])
  case granted
  with assms show ?thesis by (auto intro!: one_transfer_set_task)
next
  case (refused r)
  with assms show ?thesis using one_transfer_alone [OF assms(1), of t] by (auto intro!: one_transfer_end)
qed

lemma one_transfer_open:
  assumes "one_transfer s" and "timely s (E_open t sid tok)" and "sv_tasks s t = Some (T_trusted p)"
  shows "one_transfer (on_open t p sid tok s)"
proof -
  have "asking x = None" if "sv_tasks s u = Some x" "u \<noteq> t" for u x
    using one_transfer_alone [OF assms(1,3) _ that] by simp
  moreover have "session_ok (new_session sid tok p)"
    using one_transfer_asking [OF assms(1,3)] by (auto intro: new_session_ok)
  ultimately show ?thesis
    using assms(2) unfolding one_transfer_def by (auto simp: on_open_def Let_def split: if_splits)
qed

lemma one_transfer_settle:
  assumes "one_transfer s" and "timely s (E_settle t)" and "sv_tasks s t = Some (T_saved sid fid al target)"
  shows "one_transfer (on_settle_saved t fid al target s)"
proof -
  obtain ses where ses: "rv_state s = Sending ses" "s_id ses = sid" using assms(2,3) by (auto split: rstate.splits)
  have none: "asking x = None" if "sv_tasks s u = Some x" for u x
    using one_transfer_not_asking [OF assms(1) _ that] ses by simp
  have fid: "fid |\<in>| fmdom (s_files ses)"
    using one_transfer_uploading [OF assms(1,3) _ ses] by simp
  have "session_ok ses" using assms(1) ses by (simp add: one_transfer_def)
  then have "state_ok (upload_commit fid (Sending ses))" using upload_commit_ok fid by blast
  moreover have "\<forall>ses'. upload_commit fid (Sending ses) = Sending ses' \<longrightarrow>
      s_id ses' = s_id ses \<and> s_files ses' = s_files ses"
    by (auto simp: upload_commit_Sending)
  ultimately show ?thesis
    using none assms(1) ses unfolding one_transfer_def by (auto simp: on_settle_saved_def split: if_splits)
qed

lemma one_transfer_step:
  assumes "one_transfer s" and "timely s e" and "step fsl tv cfg s e s'"
  shows "one_transfer s'"
  using assms(3)
proof (cases rule: step.cases)
  case (s_trust t p now mk w)
  have "one_transfer (set_task t (Some (T_trusted p)) (s\<lparr>rv_trust := x, rv_fs := y\<rparr>))" for x y
    using s_trust(3) one_transfer_fields [OF assms(1), of "s\<lparr>rv_trust := x, rv_fs := y\<rparr>"]
    by (auto intro!: one_transfer_set_task)
  with s_trust show ?thesis by (auto simp: on_trust_def split: prod.splits)
next
  case (s_upload t q)
  then show ?thesis
    using assms(1)
    by (cases rule: on_upload_cases [of t q s])
      (auto simp: check_upload_accepted_iff intro!: one_transfer_set_task intro: fmdomI)
next
  case (s_create t sid fid meta al target ok)
  with one_transfer_writing [OF assms(1) s_create(3)] show ?thesis by (auto simp: on_create_def split: prod.splits)
next
  case (s_frame t sid fid meta al target i off w fr out rm)
  with one_transfer_writing [OF assms(1) s_frame(3)] show ?thesis
    by (cases rule: on_frame_cases [of t sid fid meta al target i off w fr out rm s]) auto
next
  case (s_end t sid fid meta al target i off w fl rm)
  with one_transfer_writing [OF assms(1) s_end(3)] show ?thesis
    by (cases rule: on_end_cases [of t sid fid meta al target w fl rm s]) auto
next
  case (s_settle_failed t sid fid)
  then have "rv_state s \<noteq> Pending" using assms(2) by (auto split: rstate.splits)
  with s_settle_failed show ?thesis
    using one_transfer_not_asking [OF assms(1)]
    by (auto simp: on_settle_failed_def intro!: one_transfer_end assms(1))
next
  case (s_cancel t q)
  then show ?thesis
    using assms(1) one_transfer_not_asking [OF assms(1)]
    by (cases rule: on_cancel_cases [of t q s]) (auto intro!: one_transfer_set_task one_transfer_end)
next
  case s_prepare
  with one_transfer_prepare [OF assms(1)] show ?thesis by simp
next
  case s_answer
  with one_transfer_answer [OF assms(1)] show ?thesis by blast
next
  case s_open
  with one_transfer_open [OF assms(1)] assms(2) show ?thesis by blast
next
  case s_settle_saved
  with one_transfer_settle [OF assms(1)] assms(2) show ?thesis by blast
qed (use assms(1) in \<open>auto simp: on_ask_def on_name_def intro!: one_transfer_set_task\<close>)

interpretation timely_sessions: guarded_invariant "step fsl tv cfg" timely one_transfer
  for fsl tv cfg
  by unfold_locales (rule one_transfer_step)

text \<open>
  C6: If uploads settle while their own session is current and a new session gets an id no
  upload under way carries, then at most one prepare request is between its claim and its
  answer, and only while the receiver is pending; and a session always has a token for
  exactly its files and has received some, but not all, of them.
\<close>

theorem one_transfer_at_a_time:
  assumes "run (guarded (step from_slice to_vec cfg) timely) (server_init ts f) es s"
  shows "state_ok (rv_state s)
    \<and> (\<forall>t x p. sv_tasks s t = Some x \<and> asking x = Some p \<longrightarrow> rv_state s = Pending)
    \<and> (\<forall>t u x y p q. sv_tasks s t = Some x \<and> asking x = Some p \<and>
          sv_tasks s u = Some y \<and> asking y = Some q \<longrightarrow> t = u)"
  using timely_sessions.guarded_run_inv [OF assms one_transfer_init]
  unfolding one_transfer_def by blast

section \<open>Runs that break it\<close>

text \<open>Two senders, each with two files of the same name.\<close>

definition some_peer :: "string \<Rightarrow> peer_info" where
  "some_peer n = \<lparr>pi_alias = n, pi_device_type = ''desktop'', pi_fingerprint = n, pi_port = 53318\<rparr>"

definition some_request :: "string \<Rightarrow> prepare_upload_request option" where
  "some_request n = Some \<lparr>pr_info = some_peer n, pr_files =
     fmupd ''0'' \<lparr>fm_name = ''a'', fm_size = 2, fm_mime = ''''\<rparr> fmempty\<rparr>"

definition some_pair :: "string \<Rightarrow> prepare_upload_request option" where
  "some_pair n = Some \<lparr>pr_info = some_peer n, pr_files =
     fmupd ''1'' \<lparr>fm_name = ''a'', fm_size = 1, fm_mime = ''''\<rparr>
       (fmupd ''0'' \<lparr>fm_name = ''a'', fm_size = 2, fm_mime = ''''\<rparr> fmempty)\<rparr>"

definition some_config :: recv_config where
  "some_config = \<lparr>rc_self_info = some_peer ''R'', rc_save_dir = ''/d'',
     rc_approval_timeout = APPROVAL_TIMEOUT, rc_port = 53318\<rparr>"

definition some_server :: server where
  "some_server = server_init \<lparr>ts_path = ''/c/t'', ts_devices = fmempty\<rparr> fs_empty"

text \<open>Opening a session: asked, approved, the sender trusted.\<close>

definition session_opening :: "nat \<Rightarrow> string \<Rightarrow> string \<Rightarrow> event list" where
  "session_opening t b sid = [E_prepare t (Some b), E_ask t, E_answer t (Answer True),
     E_trust t None True W_ok, E_open t sid (\<lambda>_. ''k'')]"

definition upload_event :: "nat \<Rightarrow> string \<Rightarrow> string \<Rightarrow> event" where
  "upload_event t sid fid = E_upload t (strip_prefix ''?'' (upload_query sid fid ''k''))"

definition cancel_event :: "nat \<Rightarrow> string \<Rightarrow> event" where
  "cancel_event t sid = E_cancel t (strip_prefix ''?'' (cancel_query sid))"

lemma exec_upload_event:
  assumes "query_safe sid" and "query_safe fid"
  shows "exec fsl tv cfg s (upload_event t sid fid) = (if new_task s t then
    Some (case check_upload (rv_state s) sid fid ''k'' of
       Upload_refused \<Rightarrow> set_task t (Some (T_done (status 404))) s
     | Upload_panic \<Rightarrow> s
     | Upload_accepted meta al \<Rightarrow> set_task t (Some (T_checked sid fid meta al)) s) else None)"
proof -
  have "query_safe ''k''" by (rule query_safe_ascii) simp
  from upload_params_query [OF assms this] show ?thesis
    by (simp add: upload_event_def on_upload_def)
qed

lemma exec_cancel_event:
  assumes "query_safe sid"
  shows "exec fsl tv cfg s (cancel_event t sid) = (if new_task s t then
    Some (let (r, st) = cancel_session sid (rv_state s)
      in set_task t (Some (T_done r)) (s\<lparr>rv_state := st\<rparr>)) else None)"
proof -
  obtain m where "query_map (strip_prefix ''?'' (cancel_query sid)) = Some m"
    and "param_or_default m ''sessionId'' = sid"
    using cancel_params_query [OF assms] by auto
  then show ?thesis by (simp add: cancel_event_def on_cancel_def handle_cancel_def split: prod.split)
qed

lemma safe_names: "query_safe ''0''" "query_safe ''1''" "query_safe ''A''" "query_safe ''B''"
  by (rule query_safe_ascii; simp)+

lemmas exec_demo = exec_upload_event [OF safe_names(3) safe_names(1)]
  exec_upload_event [OF safe_names(3) safe_names(2)]
  exec_upload_event [OF safe_names(4) safe_names(1)]
  exec_cancel_event [OF safe_names(3)] exec_cancel_event [OF safe_names(4)]

lemma exec_opening:
  assumes "rv_state s = Idle" and "new_task s t" and "fsl b = Some p" and "fmdom' (pr_files p) \<noteq> {}"
  shows "exec_all fsl tv cfg s (session_opening t b sid) =
    Some (s\<lparr>rv_state := Sending (new_session sid (\<lambda>_. ''k'') p),
      sv_tasks := (sv_tasks s)(t := Some (T_done (prepare_response (new_session sid (\<lambda>_. ''k'') p))))\<rparr>)"
  using assms
  by (simp add: session_opening_def on_prepare_def prepare_parse_def prepare_claim_def on_ask_def on_answer_def
      approval_refusal_def on_trust_def ts_add_def on_open_def Let_def set_task_def)

lemmas demo_defs = some_request_def some_server_def some_config_def some_peer_def
  new_task_def check_upload_def new_session_def set_task_def piece_defs server_init_def
  cancel_session_def

text \<open>
  An upload that outlives its session breaks the exclusion. A sender cancels while its
  upload fails; the next sender is waiting for the user's approval when the failed upload
  settles and makes the receiver idle; a third sender is let in, and the user is asked about
  two transfers at once.
\<close>

theorem stale_failure_asks_twice:
  "\<exists>s p q. run (step some_request to_vec some_config) some_server
      (session_opening 0 ''A'' ''A'' @ [upload_event 1 ''A'' ''0'', E_name 1, E_create 1 False,
        cancel_event 2 ''A'', E_prepare 3 (Some ''B''), E_ask 3, E_settle 1,
        E_prepare 4 (Some ''C''), E_ask 4]) s
    \<and> sv_tasks s 3 = Some (T_asked p (prepare_request (rv_trust s) p)) \<and> pi_alias (pr_info p) = ''B''
    \<and> sv_tasks s 4 = Some (T_asked q (prepare_request (rv_trust s) q)) \<and> pi_alias (pr_info q) = ''C''"
  by (simp add: run_iff_exec_all exec_all_append exec_opening exec_demo demo_defs on_prepare_def
      prepare_parse_def prepare_claim_def)

lemma fs_empty_simps:
  "fs_dir fs_empty = fmempty" "fs_data fs_empty = (\<lambda>_. [])" "fs_next fs_empty = 0"
  by (simp_all add: fs_empty_def)

lemma demo_name:
  "resolve_collision fs_empty ''/d'' (save_name \<lparr>fm_name = ''a'', fm_size = n, fm_mime = m\<rparr>) = ''/d/a''"
proof -
  have "from_utf8_lossy ''a'' = ''a''"
    by (rule from_utf8_lossy_valid) (simp add: valid_utf8_ascii_Cons valid_utf8.simps [of "[]"])
  then show ?thesis
    by (simp add: resolve_collision_def save_name_def file_name_def path_components_def split_stem_def
        rfind_def rsplit_once_def find_free.simps fs_exists_def fs_empty_def path_join_def)
qed

lemmas demo_save = demo_name fs_defs write_at_def fs_empty_simps save_finish_def upload_commit_def
  on_create_def on_frame_def on_end_def on_settle_saved_def hm_len_def Let_def fcard.rep_eq

text \<open>
  An upload that outlives its session is counted for the next one. The sender cancels
  while the body arrives, a second sender opens a session with a file of the same id, the
  first upload completes: it is answered 200 and saved although its session was cancelled,
  the second session is over with nothing of it received, and its own upload is refused.
\<close>

theorem stale_success_ends_next_session:
  "\<exists>s. run (step some_request to_vec some_config) some_server
      (session_opening 0 ''A'' ''A'' @ [upload_event 1 ''A'' ''0'', E_name 1, E_create 1 True,
        E_frame 1 (Data ''hi'') Written True, cancel_event 2 ''A''] @
       session_opening 3 ''B'' ''B'' @ [E_end 1 True True, E_settle 1, upload_event 4 ''B'' ''0'']) s
    \<and> sv_tasks s 2 = Some (T_done (status 200)) \<and> sv_tasks s 1 = Some (T_done (status 200))
    \<and> rv_saved s = [\<lparr>sf_path = ''/d/a'', sf_from = ''A''\<rparr>] \<and> rv_state s = Idle
    \<and> sv_tasks s 4 = Some (T_done (status 404))"
  by (simp add: run_iff_exec_all exec_all_append exec_opening exec_demo demo_defs demo_save)

lemma demo_name_taken:
  assumes "fmlookup (fs_dir f) ''/d/a'' \<noteq> None" and "fmlookup (fs_dir f) ''/d/a (1)'' = None"
  shows "resolve_collision f ''/d'' (save_name \<lparr>fm_name = ''a'', fm_size = n, fm_mime = m\<rparr>) = ''/d/a (1)''"
proof -
  have "from_utf8_lossy ''a'' = ''a''"
    by (rule from_utf8_lossy_valid) (simp add: valid_utf8_ascii_Cons valid_utf8.simps [of "[]"])
  then have name: "save_name \<lparr>fm_name = ''a'', fm_size = n, fm_mime = m\<rparr> = ''a''"
    by (simp add: save_name_def file_name_def path_components_def)
  have num: "numbered ''/d'' ''a'' [] 1 = ''/d/a (1)''"
    by (simp add: numbered_def path_join_def dec_string.simps digit_char_def char_of_eq_iff)
  have "find_free f ''/d'' ''a'' [] ''/d/a (1)'' 2 = ''/d/a (1)''"
    using assms(2) by (subst find_free.simps) (simp add: fs_exists_def)
  then have "find_free f ''/d'' ''a'' [] ''/d/a'' 1 = ''/d/a (1)''"
    using assms(1) num by (subst find_free.simps) (simp add: fs_exists_def numeral_2_eq_2)
  then show ?thesis
    unfolding name by (simp add: resolve_collision_def split_stem_def rfind_def rsplit_once_def path_join_def)
qed

text \<open>
  A token is good for one upload only if uploads do not overlap: whether a file was received is
  asked at the start and noted at the end. Two requests with one token, the second before the
  first is done, are both answered 200 and both stored, the second under a numbered name.
\<close>

theorem token_used_twice:
  "\<exists>s. run (step some_request to_vec some_config) some_server
      (session_opening 0 ''A'' ''A'' @ [upload_event 1 ''A'' ''0'', upload_event 2 ''A'' ''0'',
        E_name 1, E_create 1 True, E_name 2, E_create 2 True, E_frame 1 (Data ''hi'') Written True, E_end 1 True True, E_settle 1,
        E_frame 2 (Data ''ho'') Written True, E_end 2 True True, E_settle 2]) s
    \<and> sv_tasks s 1 = Some (T_done (status 200)) \<and> sv_tasks s 2 = Some (T_done (status 200))
    \<and> fs_read (rv_fs s) ''/d/a'' = Some ''hi'' \<and> fs_read (rv_fs s) ''/d/a (1)'' = Some ''ho''"
  by (simp add: run_iff_exec_all exec_all_append exec_opening exec_demo demo_defs demo_save demo_name_taken)

text \<open>
  Two uploads at once can take the same name: between choosing a free name and creating
  the file another upload may choose the same one. Both uploads of one session are answered
  200 and reported saved, but there is one file, with the second body; the first is lost.
\<close>

theorem same_name_overwrites:
  "\<exists>s. run (step some_pair to_vec some_config) some_server
      (session_opening 0 ''A'' ''A'' @ [upload_event 1 ''A'' ''0'', E_name 1, upload_event 2 ''A'' ''1'',
        E_name 2, E_create 1 True, E_frame 1 (Data ''hi'') Written True, E_end 1 True True, E_settle 1,
        E_create 2 True, E_frame 2 (Data ''x'') Written True, E_end 2 True True, E_settle 2]) s
    \<and> sv_tasks s 1 = Some (T_done (status 200)) \<and> sv_tasks s 2 = Some (T_done (status 200))
    \<and> map sf_path (rv_saved s) = [''/d/a'', ''/d/a''] \<and> fs_read (rv_fs s) ''/d/a'' = Some ''x''"
  by (simp add: run_iff_exec_all exec_all_append exec_opening exec_demo some_pair_def demo_defs demo_save)

section \<open>A request dropped while the user is asked\<close>

definition hung :: "server \<Rightarrow> bool" where
  "hung s \<longleftrightarrow> rv_state s = Pending
     \<and> (\<forall>t x. sv_tasks s t = Some x \<longrightarrow> (\<exists>r. x = T_done r \<and> rs_status r \<in> {400, 404, 409, 500}))"

lemma hung_task: "hung s \<Longrightarrow> sv_tasks s t = Some x \<Longrightarrow> \<exists>r. x = T_done r"
  by (auto simp: hung_def)

lemma hung_answer:
  "hung s \<Longrightarrow> rs_status r \<in> {400, 404, 409, 500} \<Longrightarrow> hung (set_task t (Some (T_done r)) s)"
  by (auto simp: hung_def)

lemma hung_prepare:
  assumes "hung s"
  shows "hung (on_prepare fsl t body s)"
proof (cases rule: prepare_parse_cases [of fsl body])
  case (err r)
  with assms show ?thesis by (auto simp: on_prepare_def intro!: hung_answer)
next
  case (ok b p)
  moreover have "prepare_claim (rv_state s) = Inl (status 409)"
    using assms by (simp add: hung_def prepare_claim_def)
  ultimately show ?thesis using assms by (simp add: on_prepare_def hung_answer)
qed

lemma hung_upload: "hung s \<Longrightarrow> hung (on_upload t q s)"
  by (cases rule: on_upload_cases [of t q s])
    (auto simp: hung_answer check_upload_accepted_iff hung_def)

lemma hung_cancel: "hung s \<Longrightarrow> hung (on_cancel t q s)"
  by (cases rule: on_cancel_cases [of t q s]) (auto simp: hung_answer hung_def)

interpretation hung_receiver: step_invariant "step fsl tv cfg" hung for fsl tv cfg
proof unfold_locales
  fix s e s' assume h: "hung s" and "step fsl tv cfg s e s'"
  from this(2) show "hung s'"
    by (cases rule: step.cases)
      (use h hung_task [OF h] in \<open>force intro: hung_prepare hung_upload hung_cancel\<close>)+
qed

text \<open>
  A sender that goes away while the user is asked blocks the receiver: the dropped handler
  never resets the state. In every run that continues from there the receiver stays pending;
  whatever arrives, no one is asked, and every request is answered 400, 404, 409 or 500.
\<close>

theorem dropped_request_blocks:
  assumes "prepare_parse from_slice body = Inr p"
    and "run (step from_slice to_vec cfg) (server_init ts f) (E_prepare t body # E_ask t # E_drop t # es) s"
  shows "rv_state s = Pending \<and> (\<forall>u x. sv_tasks s u = Some x \<longrightarrow>
    (\<exists>r. x = T_done r \<and> rs_status r \<in> {400, 404, 409, 500}))"
proof -
  obtain s' where "exec_all from_slice to_vec cfg (server_init ts f) [E_prepare t body, E_ask t, E_drop t] = Some s'"
    and r: "run (step from_slice to_vec cfg) s' es s"
    using assms(2) by (auto simp: run_Cons_iff step_iff_exec)
  then have "hung s'"
    using assms(1) by (auto simp: new_task_def on_prepare_def prepare_claim_def on_ask_def hung_def split: if_splits)
  with r have "hung s" using hung_receiver.run_inv by blast
  then show ?thesis by (simp add: hung_def)
qed

end
