(* ===== verification/Recv_Files.thy ===== *)
theory Recv_Files
  imports Recv_Invariants
begin

text \<open>
  What happens to files while uploads interleave: under the condition that no upload creates
  a file whose name another took meanwhile, uploads never touch each other's files, files
  saved before, or files that were there.
\<close>

section \<open>Files that belong to an upload\<close>

fun created :: "task \<Rightarrow> string option" where
  "created (T_writing sid fid meta al target i off w) = Some target"
| "created (T_saved sid fid al target) = Some target"
| "created _ = None"

definition owns :: "server \<Rightarrow> nat \<Rightarrow> string option" where
  "owns s t = Option.bind (sv_tasks s t) created"

text \<open>The name chosen by \<open>resolve_collision\<close> is still free when the file is created.\<close>

fun fresh_create :: "server \<Rightarrow> event \<Rightarrow> bool" where
  "fresh_create s (E_create t ok) = (case sv_tasks s t of
     Some (T_named sid fid meta al target) \<Rightarrow> ok \<longrightarrow> \<not> fs_exists (rv_fs s) target | _ \<Rightarrow> True)"
| "fresh_create s _ = True"

text \<open>A change of the files that leaves every name but \<open>p\<close> as it is.\<close>

definition only_at :: "string \<Rightarrow> fs \<Rightarrow> fs \<Rightarrow> bool" where
  "only_at p f g \<longleftrightarrow> (\<forall>q. q \<noteq> p \<longrightarrow> fs_read g q = fs_read f q)"

lemma only_at_refl [simp]: "only_at p f f"
  by (simp add: only_at_def)

lemma only_at_trans: "only_at p f g \<Longrightarrow> only_at p g h \<Longrightarrow> only_at p f h"
  by (simp add: only_at_def)

lemma only_at_create: "fs_ok f \<Longrightarrow> only_at p f (snd (fs_create f p))"
  by (simp add: only_at_def fs_create_read_other)

lemma only_at_remove: "only_at p f (fs_remove f p)"
  by (simp add: only_at_def fs_remove_read)

lemma only_at_abort: "only_at p f (save_abort rm p f)"
  by (simp add: save_abort_def only_at_remove)

lemma only_at_frame:
  assumes "save_frame fr out i off w f = (r, g)"
    and "\<forall>q. fmlookup (fs_dir f) q = Some i \<longrightarrow> q = p"
  shows "only_at p f g" and "fs_exists g q = fs_exists f q"
proof -
  note fr = save_frame_frame [OF assms(1)]
  show "fs_exists g q = fs_exists f q" by (simp add: fs_exists_def fr(1))
  show "only_at p f g"
    unfolding only_at_def
  proof (intro allI impI)
    fix q assume "q \<noteq> p"
    then have "fmlookup (fs_dir f) q \<noteq> Some i" using assms(2) by blast
    then show "fs_read g q = fs_read f q"
      using fr(1,3) by (cases "fmlookup (fs_dir f) q") (auto simp: fs_read_def)
  qed
qed

lemma fs_exists_write_file: "fs_write_file w f p d = (b, g) \<Longrightarrow> fs_exists f q \<Longrightarrow> fs_exists g q"
  by (auto simp: fs_write_file_def fs_exists_def fs_create_def
      split: write_outcome.splits prod.splits option.splits)

lemma only_at_save:
  assumes "ts_save tv mk w ts f = (r, g)" and "fs_ok f"
  shows "only_at (ts_path ts) f g" and "fs_exists f q \<Longrightarrow> fs_exists g q"
  using assms fs_write_file_read_other [of f w] fs_exists_write_file [of w f]
  by (auto simp: ts_save_def only_at_def split: if_splits prod.splits)

lemma only_at_add:
  assumes a: "ts_add tv now mk w fp al ts f = (r, ts', g)" and "fs_ok f"
  shows "only_at (ts_path ts) f g \<and> (\<forall>q. fs_exists f q \<longrightarrow> fs_exists g q)"
  using a
proof (cases rule: ts_add_cases)
  case same
  then show ?thesis by simp
next
  case (new t)
  have "only_at (ts_path ts') f g" "\<And>q. fs_exists f q \<Longrightarrow> fs_exists g q"
    using only_at_save [OF new(4) assms(2)] by blast+
  then show ?thesis unfolding new(3) by simp
qed

text \<open>One piece of an upload that has its file open.\<close>

definition write_effect :: "nat \<Rightarrow> string \<Rightarrow> server \<Rightarrow> server \<Rightarrow> bool" where
  "write_effect t p s s' \<longleftrightarrow> owns s t = Some p \<and> (\<forall>u. u \<noteq> t \<longrightarrow> owns s' u = owns s u)
     \<and> (owns s' t = None \<or> owns s' t = Some p \<and> fs_exists (rv_fs s') p = fs_exists (rv_fs s) p)
     \<and> only_at p (rv_fs s) (rv_fs s') \<and> rv_saved s' = rv_saved s \<and> rv_trust s' = rv_trust s"

lemma write_effect_frame:
  assumes t: "sv_tasks s t = Some (T_writing sid fid meta al target i off w)"
    and "\<forall>q. fmlookup (fs_dir (rv_fs s)) q = Some i \<longrightarrow> q = target"
  shows "write_effect t target s (on_frame t sid fid meta al target i off w fr out rm s)"
proof -
  obtain x f where sf: "save_frame fr out i off w (rv_fs s) = (x, f)" by fastforce
  note f = only_at_frame [OF sf assms(2)]
  show ?thesis
  proof (cases rule: on_frame_cases [of t sid fid meta al target i off w fr out rm s])
    case (failed g)
    have "only_at target (rv_fs s) (save_abort rm target f)"
      using f(1) only_at_abort by (rule only_at_trans)
    with failed t sf show ?thesis by (simp add: write_effect_def owns_def)
  next
    case (written off' w' g)
    with t sf f show ?thesis by (simp add: write_effect_def owns_def)
  qed
qed

lemma write_effect_end:
  assumes t: "sv_tasks s t = Some (T_writing sid fid meta al target i off w)"
  shows "write_effect t target s (on_end t sid fid meta al target w fl rm s)"
  by (cases rule: on_end_cases [of t sid fid meta al target w fl rm s])
    (use t in \<open>simp_all add: write_effect_def owns_def only_at_abort\<close>)

text \<open>The piece that creates a file which was not there.\<close>

definition create_effect :: "nat \<Rightarrow> string \<Rightarrow> server \<Rightarrow> server \<Rightarrow> bool" where
  "create_effect t p s s' \<longleftrightarrow> (\<forall>u. u \<noteq> t \<longrightarrow> owns s' u = owns s u) \<and> owns s' t = Some p
     \<and> \<not> fs_exists (rv_fs s) p \<and> fs_exists (rv_fs s') p \<and> only_at p (rv_fs s) (rv_fs s')
     \<and> rv_saved s' = rv_saved s \<and> rv_trust s' = rv_trust s"

lemma create_effect_create:
  assumes "fs_ok (rv_fs s)" and "\<not> fs_exists (rv_fs s) target"
  shows "create_effect t target s (on_create t sid fid meta al target True s)"
proof -
  obtain i f where c: "fs_create (rv_fs s) target = (i, f)" by fastforce
  then have "fmlookup (fs_dir f) target = Some i" and "only_at target (rv_fs s) f"
    using fs_create_dir [of "rv_fs s" target] only_at_create [OF assms(1), of target] by simp_all
  with c assms(2) show ?thesis by (simp add: create_effect_def on_create_def owns_def fs_exists_def)
qed

text \<open>
  Every step works for one task; it leaves the files alone, writes the trust file, creates a
  file that was not there, changes or removes the task's own file, or reports it saved.
\<close>

lemma step_effect:
  assumes "step fsl tv cfg s e s'" and "server_ok cfg s" and "fresh_create s e"
  obtains (quiet) t where "\<And>u. u \<noteq> t \<Longrightarrow> owns s' u = owns s u" "owns s' t = owns s t \<or> owns s' t = None"
      "rv_saved s' = rv_saved s" "rv_fs s' = rv_fs s" "ts_path (rv_trust s') = ts_path (rv_trust s)"
  | (trusting) "owns s' = owns s" "rv_saved s' = rv_saved s"
      "only_at (ts_path (rv_trust s)) (rv_fs s) (rv_fs s')"
      "\<And>p. fs_exists (rv_fs s) p \<Longrightarrow> fs_exists (rv_fs s') p"
      "ts_path (rv_trust s') = ts_path (rv_trust s)"
  | (creating) t p where "create_effect t p s s'"
  | (writing) t p where "write_effect t p s s'"
  | (reporting) t p al where "owns s t = Some p" "\<And>u. u \<noteq> t \<Longrightarrow> owns s' u = owns s u" "owns s' t = None"
      "rv_fs s' = rv_fs s" "rv_saved s' = rv_saved s @ [\<lparr>sf_path = p, sf_from = al\<rparr>]"
      "rv_trust s' = rv_trust s"
  using assms(1)
proof (cases rule: step.cases)
  case (s_prepare t body)
  then show ?thesis
    by (intro quiet [of t]; cases rule: on_prepare_cases [of fsl t body s])
      (simp_all add: owns_def new_task_def)
next
  case (s_ask t p)
  then show ?thesis by (intro quiet [of t]) (simp_all add: owns_def on_ask_def)
next
  case (s_answer t p rq a)
  then show ?thesis
    by (intro quiet [of t]; cases rule: on_answer_cases [of a t p s]) (simp_all add: owns_def)
next
  case (s_trust t p now mk w)
  obtain r ts f where a: "ts_add tv now mk w (pi_fingerprint (pr_info p)) (pi_alias (pr_info p))
      (rv_trust s) (rv_fs s) = (r, ts, f)"
    by (metis prod_cases3)
  have "only_at (ts_path (rv_trust s)) (rv_fs s) f \<and> (\<forall>p. fs_exists (rv_fs s) p \<longrightarrow> fs_exists f p)"
    using only_at_add [OF a server_ok_fs_ok [OF assms(2)]] by blast
  moreover have "s' = set_task t (Some (T_trusted p)) (s\<lparr>rv_trust := ts, rv_fs := f\<rparr>)"
    using s_trust a by (simp add: on_trust_def)
  ultimately show ?thesis
    using s_trust(3) ts_add_path [OF a] trusting by (simp add: owns_def fun_eq_iff)
next
  case (s_open t p sid tok)
  then show ?thesis by (intro quiet [of t]) (simp_all add: owns_def on_open_def Let_def)
next
  case (s_upload t q)
  then show ?thesis
    by (intro quiet [of t]; cases rule: on_upload_cases [of t q s])
      (simp_all add: owns_def new_task_def)
next
  case (s_name t sid fid meta al)
  then show ?thesis by (intro quiet [of t]) (simp_all add: owns_def on_name_def)
next
  case (s_create t sid fid meta al target ok)
  show ?thesis
  proof (cases ok)
    case True
    with s_create assms(3) create_effect_create [OF server_ok_fs_ok [OF assms(2)]] show ?thesis
      by (intro creating [of t target]) simp
  next
    case False
    with s_create show ?thesis by (intro quiet [of t]) (simp_all add: owns_def on_create_def)
  qed
next
  case (s_frame t sid fid meta al target i off w fr out rm)
  have "\<forall>q. fmlookup (fs_dir (rv_fs s)) q = Some i \<longrightarrow> q = target"
    using server_ok_task [OF assms(2) s_frame(3)] by simp
  with write_effect_frame [OF s_frame(3)] s_frame(2) show ?thesis by (intro writing) simp
next
  case (s_end t sid fid meta al target i off w fl rm)
  with write_effect_end [OF s_end(3)] show ?thesis by (intro writing) simp
next
  case (s_settle_saved t sid fid al target)
  then show ?thesis by (intro reporting [of t target al]) (simp_all add: owns_def on_settle_saved_def)
next
  case (s_settle_failed t sid fid)
  then show ?thesis by (intro quiet [of t]) (simp_all add: owns_def on_settle_failed_def)
next
  case (s_cancel t q)
  then show ?thesis
    by (intro quiet [of t]; cases rule: on_cancel_cases [of t q s])
      (simp_all add: owns_def new_task_def)
next
  case (s_drop t x)
  then show ?thesis by (intro quiet [of t]) (simp_all add: owns_def)
qed

section \<open>Uploads stay apart\<close>

text \<open>Every file being received or reported exists, and belongs to one upload or one report.\<close>

definition apart :: "server \<Rightarrow> bool" where
  "apart s \<longleftrightarrow> (\<forall>t p. owns s t = Some p \<longrightarrow> fs_exists (rv_fs s) p)
     \<and> (\<forall>t u p. owns s t = Some p \<longrightarrow> owns s u = Some p \<longrightarrow> t = u)
     \<and> (\<forall>sf \<in> set (rv_saved s). fs_exists (rv_fs s) (sf_path sf) \<and> (\<forall>t. owns s t \<noteq> Some (sf_path sf)))
     \<and> distinct (map sf_path (rv_saved s))"

lemma apart_exists: "apart s \<Longrightarrow> owns s t = Some p \<Longrightarrow> fs_exists (rv_fs s) p"
  by (simp add: apart_def)

lemma apart_inj: "apart s \<Longrightarrow> owns s t = Some p \<Longrightarrow> owns s u = Some p \<Longrightarrow> t = u"
  unfolding apart_def by blast

lemma apart_saved:
  "apart s \<Longrightarrow> sf \<in> set (rv_saved s) \<Longrightarrow>
    fs_exists (rv_fs s) (sf_path sf) \<and> owns s t \<noteq> Some (sf_path sf)"
  by (simp add: apart_def)

lemma only_at_exists: "only_at p f g \<Longrightarrow> q \<noteq> p \<Longrightarrow> fs_exists g q = fs_exists f q"
  by (simp add: only_at_def fs_exists_read)

lemma apart_cong:
  assumes "apart s" and "\<And>u p. owns s' u = Some p \<Longrightarrow> owns s u = Some p" and "rv_saved s' = rv_saved s"
    and "\<And>p. (\<exists>u. owns s' u = Some p) \<or> p \<in> sf_path ` set (rv_saved s) \<Longrightarrow>
      fs_exists (rv_fs s) p \<Longrightarrow> fs_exists (rv_fs s') p"
  shows "apart s'"
proof -
  have "fs_exists (rv_fs s') p" if "owns s' t = Some p" for t p
    using assms(1) assms(2) [OF that] assms(4) [of p] that unfolding apart_def by blast
  moreover have "t = u" if "owns s' t = Some p" "owns s' u = Some p" for t u p
    using assms(1) assms(2) [OF that(1)] assms(2) [OF that(2)] unfolding apart_def by blast
  moreover have "fs_exists (rv_fs s') (sf_path sf) \<and> (\<forall>t. owns s' t \<noteq> Some (sf_path sf))"
    if "sf \<in> set (rv_saved s)" for sf
    using assms(1,2) assms(4) [of "sf_path sf"] that unfolding apart_def by blast
  moreover have "distinct (map sf_path (rv_saved s))" using assms(1) by (simp add: apart_def)
  ultimately show ?thesis using assms(3) unfolding apart_def by simp
qed

lemma apart_creating:
  assumes "apart s" and "create_effect t p s s'"
  shows "apart s'"
proof -
  have creating: "\<And>u. u \<noteq> t \<Longrightarrow> owns s' u = owns s u" "owns s' t = Some p" "\<not> fs_exists (rv_fs s) p"
    "fs_exists (rv_fs s') p" "only_at p (rv_fs s) (rv_fs s')" "rv_saved s' = rv_saved s"
    using assms(2) by (simp_all add: create_effect_def)
  have old: "q \<noteq> p \<and> fs_exists (rv_fs s') q" if "fs_exists (rv_fs s) q" for q
  proof -
    from that creating(3) have "q \<noteq> p" by auto
    with that show ?thesis by (simp add: only_at_exists [OF creating(5)])
  qed
  have sv: "fs_exists (rv_fs s') (sf_path sf) \<and> (\<forall>u. owns s' u \<noteq> Some (sf_path sf))"
    if "sf \<in> set (rv_saved s)" for sf
  proof -
    have "fs_exists (rv_fs s) (sf_path sf)" and not: "owns s u \<noteq> Some (sf_path sf)" for u
      using assms(1) that by (simp_all add: apart_def)
    from old [OF this(1)] have "p \<noteq> sf_path sf" and "fs_exists (rv_fs s') (sf_path sf)" by auto
    moreover have "owns s' u \<noteq> Some (sf_path sf)" for u
      using not creating(1,2) \<open>p \<noteq> sf_path sf\<close> by (cases "u = t") simp_all
    ultimately show ?thesis by blast
  qed
  have other: "fs_exists (rv_fs s') q \<and> q \<noteq> p" if "owns s' u = Some q" "u \<noteq> t" for u q
    using that creating(1) old apart_exists [OF assms(1), of u q] by simp
  have ex: "fs_exists (rv_fs s') q" if "owns s' u = Some q" for u q
    using that other creating(2,4) by (cases "u = t") auto
  have "u = v" if "owns s' u = Some q" "owns s' v = Some q" for u v q
  proof (cases "u = t \<or> v = t")
    case True
    with that other creating(2) show ?thesis by force
  next
    case False
    with that creating(1) show ?thesis using apart_inj [OF assms(1)] by simp
  qed
  with ex sv assms(1) creating(6) show ?thesis unfolding apart_def by simp
qed

lemma apart_writing:
  assumes "apart s" and "write_effect t p s s'"
  shows "apart s'"
proof -
  from assms(2) have w: "owns s t = Some p" "\<forall>u. u \<noteq> t \<longrightarrow> owns s' u = owns s u"
    "owns s' t = None \<or> owns s' t = Some p \<and> fs_exists (rv_fs s') p = fs_exists (rv_fs s) p"
    "only_at p (rv_fs s) (rv_fs s')" "rv_saved s' = rv_saved s"
    by (simp_all add: write_effect_def)
  show ?thesis
  proof (rule apart_cong [OF assms(1)])
    show "owns s u = Some q" if "owns s' u = Some q" for u q
      using that w(1-3) by (metis option.distinct(1) option.inject)
    fix q assume q: "(\<exists>u. owns s' u = Some q) \<or> q \<in> sf_path ` set (rv_saved s)" and ex: "fs_exists (rv_fs s) q"
    show "fs_exists (rv_fs s') q"
    proof (cases "q = p")
      case False
      with ex show ?thesis using only_at_exists [OF w(4)] by simp
    next
      case True
      have "\<forall>sf \<in> set (rv_saved s). sf_path sf \<noteq> p" using assms(1) w(1) unfolding apart_def by metis
      with q True obtain u where u: "owns s' u = Some p" by auto
      have "u = t"
        using u w(1,2) assms(1) unfolding apart_def by metis
      with u True w(3) ex show ?thesis by simp
    qed
  qed (rule w(5))
qed

lemma apart_reporting:
  assumes "apart s" and "owns s t = Some p" and "\<And>u. u \<noteq> t \<Longrightarrow> owns s' u = owns s u" and "owns s' t = None"
    and "rv_fs s' = rv_fs s" and "rv_saved s' = rv_saved s @ [\<lparr>sf_path = p, sf_from = al\<rparr>]"
  shows "apart s'"
proof -
  have own: "owns s u = Some q" "u \<noteq> t" if "owns s' u = Some q" for u q
    using that assms(3,4) by (metis option.distinct(1))+
  have p: "fs_exists (rv_fs s) p" "\<forall>sf \<in> set (rv_saved s). sf_path sf \<noteq> p"
    "\<And>u. owns s' u \<noteq> Some p"
    using assms(1) assms(2) own unfolding apart_def by metis+
  show ?thesis
    unfolding apart_def assms(5,6)
  proof (intro conjI allI impI ballI)
    fix u q assume "owns s' u = Some q"
    from own(1) [OF this] show "fs_exists (rv_fs s) q" using assms(1) unfolding apart_def by blast
  next
    fix u v q assume "owns s' u = Some q" "owns s' v = Some q"
    from this [THEN own(1)] show "u = v" using assms(1) unfolding apart_def by blast
  next
    fix sf assume "sf \<in> set (rv_saved s @ [\<lparr>sf_path = p, sf_from = al\<rparr>])"
    then have sf: "sf_path sf = p \<or> sf \<in> set (rv_saved s)" by auto
    then show "fs_exists (rv_fs s) (sf_path sf)" using p(1) apart_saved [OF assms(1)] by auto
    show "owns s' u \<noteq> Some (sf_path sf)" for u
      using sf p(3) own(1) apart_saved [OF assms(1)] by metis
  next
    show "distinct (map sf_path (rv_saved s @ [\<lparr>sf_path = p, sf_from = al\<rparr>]))"
      using p(2) assms(1) by (auto simp: apart_def)
  qed
qed

lemma apart_step:
  assumes "step fsl tv cfg s e s'" and "server_ok cfg s" and "fresh_create s e" and "apart s"
  shows "apart s'"
  using assms(1-3)
proof (cases rule: step_effect)
  case (quiet t)
  then show ?thesis by (intro apart_cong [OF assms(4)]) (metis option.distinct(1), simp_all)
next
  case trusting
  then show ?thesis by (intro apart_cong [OF assms(4)]) simp_all
next
  case (reporting t p al)
  with apart_reporting [OF assms(4)] show ?thesis by blast
qed (use assms(4) in \<open>blast intro: apart_creating apart_writing\<close>)+

interpretation apart_uploads: guarded_invariant "step fsl tv cfg" fresh_create
    "\<lambda>s. server_ok cfg s \<and> apart s" for fsl tv cfg
  by unfold_locales (blast intro: server_ok_step apart_step)

section \<open>Settled files stay as they are\<close>

text \<open>A file no upload is receiving, that is not the trust file, with its contents.\<close>

definition settled :: "string \<Rightarrow> string \<Rightarrow> server \<Rightarrow> bool" where
  "settled p d s \<longleftrightarrow> fs_read (rv_fs s) p = Some d \<and> (\<forall>t. owns s t \<noteq> Some p) \<and> p \<noteq> ts_path (rv_trust s)"

lemma settled_step:
  assumes "step fsl tv cfg s e s'" and "server_ok cfg s" and "fresh_create s e" and "settled p d s"
  shows "settled p d s'"
  using assms(1-3)
proof (cases rule: step_effect)
  case (quiet t)
  with assms(4) show ?thesis unfolding settled_def by (metis option.distinct(1))
next
  case trusting
  with assms(4) show ?thesis by (simp add: settled_def only_at_def)
next
  case (creating t q)
  then have "q \<noteq> p" using assms(4) by (auto simp: settled_def fs_exists_read create_effect_def)
  with creating assms(4) show ?thesis
    unfolding settled_def create_effect_def only_at_def by (metis option.inject)
next
  case (writing t q)
  then have "q \<noteq> p" using assms(4) by (auto simp: settled_def write_effect_def)
  with writing assms(4) show ?thesis
    unfolding settled_def write_effect_def only_at_def by (metis option.distinct(1) option.inject)
next
  case (reporting t q al)
  with assms(4) show ?thesis unfolding settled_def by (metis option.distinct(1))
qed

interpretation settled_files: guarded_invariant "step fsl tv cfg" fresh_create
    "\<lambda>s. server_ok cfg s \<and> settled p d s" for fsl tv cfg p d
  by unfold_locales (blast intro: server_ok_step settled_step)

lemma on_trust_path: "ts_path (rv_trust (on_trust tv t p now mk w s)) = ts_path (rv_trust s)"
  by (auto simp: on_trust_def split: prod.split)

lemma trust_path_step:
  assumes "step fsl tv cfg s e s'"
  shows "ts_path (rv_trust s') = ts_path (rv_trust s)"
  using assms
proof (cases rule: step.cases)
  case (s_prepare t body)
  then show ?thesis by (cases rule: on_prepare_cases [of fsl t body s]) simp_all
next
  case (s_answer t p rq a)
  then show ?thesis by (cases rule: on_answer_cases [of a t p s]) simp_all
next
  case (s_upload t q)
  then show ?thesis by (cases rule: on_upload_cases [of t q s]) simp_all
next
  case (s_create t sid fid meta al target ok)
  then show ?thesis by (simp add: on_create_def split: prod.split)
next
  case (s_frame t sid fid meta al target i off w fr out rm)
  then show ?thesis by (cases rule: on_frame_cases [of t sid fid meta al target i off w fr out rm s]) simp_all
next
  case (s_end t sid fid meta al target i off w fl rm)
  then show ?thesis by (cases rule: on_end_cases [of t sid fid meta al target w fl rm s]) simp_all
next
  case (s_cancel t q)
  then show ?thesis by (cases rule: on_cancel_cases [of t q s]) simp_all
qed (simp_all add: on_trust_path piece_defs Let_def)

interpretation trust_path: step_invariant "step fsl tv cfg" "\<lambda>s. ts_path (rv_trust s) = p"
  for fsl tv cfg p
  by unfold_locales (simp add: trust_path_step)


end
