(* ===== verification/Discovery.thy ===== *)
theory Discovery
  imports Protocol
begin

text \<open>
  \<open>app/rust/src/core/discovery.rs\<close>: the list of devices on the network.  The state is the
  device map, the socket, and which read loop runs; an event is a datagram, a tick of the
  one-second cleanup, a call of \<open>devices()\<close>, a read error, an announcement or \<open>stop()\<close>.
  Times are nanoseconds of the monotonic clock.  Sockets are numbered in the order they are
  opened; what the operating system refuses is an argument.
\<close>

section \<open>Addresses\<close>

type_synonym ipv4 = u32

definition ipv4_string :: "ipv4 \<Rightarrow> string" where
  "ipv4_string ip = dec_string (unat (drop_bit 24 ip)) @ ''.''
     @ dec_string (unat (and (drop_bit 16 ip) 255)) @ ''.''
     @ dec_string (unat (and (drop_bit 8 ip) 255)) @ ''.'' @ dec_string (unat (and ip 255))"

datatype if_addr = V4 ipv4 ipv4 "ipv4 option" | V6

text \<open>The broadcast address of an interface: the one it has, else from its netmask.\<close>

definition broadcast_of :: "ipv4 \<Rightarrow> ipv4 \<Rightarrow> ipv4 option \<Rightarrow> ipv4" where
  "broadcast_of ip netmask bc = (case bc of Some b \<Rightarrow> b | None \<Rightarrow> or ip (not netmask))"

text \<open>\<open>get_if_addrs\<close> yields the interfaces, each with whether it is a loopback.\<close>

definition ipv4_interfaces :: "(bool \<times> if_addr) list option \<Rightarrow> (ipv4 \<times> ipv4) list" where
  "ipv4_interfaces addrs = (case addrs of None \<Rightarrow> []
     | Some xs \<Rightarrow> List.map_filter (\<lambda>(_, a). case a of
           V4 ip netmask bc \<Rightarrow> Some (ip, broadcast_of ip netmask bc) | V6 \<Rightarrow> None)
         (filter (\<lambda>(loopback, _). \<not> loopback) xs))"

section \<open>Devices\<close>

record device =
  dv_info :: peer_info
  dv_ip :: ipv4
  dv_last_seen :: nat

definition device_addr :: "device \<Rightarrow> string" where
  "device_addr d = ipv4_string (dv_ip d) @ '':'' @ dec_string (unat (pi_port (dv_info d)))"

record discoverer =
  dc_self :: peer_info
  dc_devices :: "(string, device) hash_map"
  dc_socket :: "nat option"
  dc_reading :: "nat option"
  dc_opened :: nat

definition fresh_at :: "nat \<Rightarrow> device \<Rightarrow> bool" where
  "fresh_at now d \<longleftrightarrow> now - dv_last_seen d \<le> DEVICE_TTL"

definition retain_fresh :: "nat \<Rightarrow> (string, device) hash_map \<Rightarrow> (string, device) hash_map" where
  "retain_fresh now m =
     fmfilter (\<lambda>k. case fmlookup m k of Some d \<Rightarrow> fresh_at now d | None \<Rightarrow> False) m"

text \<open>The values in the iteration order \<open>it\<close>, sorted stably by alias.\<close>

definition snapshot_of :: "(string \<times> device) list \<Rightarrow> device list" where
  "snapshot_of it = sort_key (\<lambda>d. pi_alias (dv_info d)) (map snd it)"

section \<open>Events\<close>

text \<open>
  What an event sends (destination, port and announcement) and, if the callback is called,
  the device map its snapshot is taken from.
\<close>

record effects =
  ou_emit :: "(string, device) hash_map option"
  ou_sent :: "(ipv4 \<times> u16 \<times> announcement) list"

definition quiet :: effects where
  "quiet = \<lparr>ou_emit = None, ou_sent = []\<rparr>"

text \<open>One datagram, at most 4096 bytes of which are read.\<close>

definition handle_packet ::
    "(string \<Rightarrow> wire_announcement option) \<Rightarrow> nat \<Rightarrow> ipv4 \<times> u16 \<Rightarrow> string \<Rightarrow> discoverer
      \<Rightarrow> effects \<times> discoverer" where
  "handle_packet from_slice now src data st =
     (case decode from_slice (take 4096 data) of
        None \<Rightarrow> (quiet, st)
      | Some ann \<Rightarrow>
          if pi_fingerprint (an_info ann) = pi_fingerprint (dc_self st) then (quiet, st)
          else
            (let known = hm_get (dc_devices st) (pi_fingerprint (an_info ann));
                 changed = (case known of None \<Rightarrow> True
                   | Some dev \<Rightarrow> pi_alias (dv_info dev) \<noteq> pi_alias (an_info ann)
                       \<or> pi_port (dv_info dev) \<noteq> pi_port (an_info ann) \<or> dv_ip dev \<noteq> fst src);
                 m = fmupd (pi_fingerprint (an_info ann))
                   \<lparr>dv_info = an_info ann, dv_ip = fst src, dv_last_seen = now\<rparr> (dc_devices st)
             in (\<lparr>ou_emit = (if changed then Some m else None),
                  ou_sent = (if an_announce ann
                    then [(fst src, snd src, announcement_new (dc_self st) False)] else [])\<rparr>,
                 st\<lparr>dc_devices := m\<rparr>)))"

definition handle_prune :: "nat \<Rightarrow> discoverer \<Rightarrow> effects \<times> discoverer" where
  "handle_prune now st =
     (let m = retain_fresh now (dc_devices st) in
      (if hm_len m \<noteq> hm_len (dc_devices st) then \<lparr>ou_emit = Some m, ou_sent = []\<rparr> else quiet,
       st\<lparr>dc_devices := m\<rparr>))"

text \<open>\<open>devices()\<close> leaves the map without expired devices and returns a snapshot of it.\<close>

definition devices_call :: "nat \<Rightarrow> discoverer \<Rightarrow> discoverer" where
  "devices_call now st = st\<lparr>dc_devices := retain_fresh now (dc_devices st)\<rparr>"

text \<open>
  \<open>bind\<close> opens a socket, starts its read loop in place of the old one, and only then makes
  it the current socket; these are two steps to another thread.
\<close>

definition bind_spawn :: "discoverer \<Rightarrow> discoverer" where
  "bind_spawn st = st\<lparr>dc_reading := Some (dc_opened st), dc_opened := Suc (dc_opened st)\<rparr>"

definition bind_store :: "nat \<Rightarrow> discoverer \<Rightarrow> discoverer" where
  "bind_store k st = st\<lparr>dc_socket := Some k\<rparr>"

definition bind :: "bool \<Rightarrow> discoverer \<Rightarrow> discoverer option" where
  "bind ok st = (if ok then Some (bind_store (dc_opened st) (bind_spawn st)) else None)"

definition current_or_rebind :: "bool \<Rightarrow> discoverer \<Rightarrow> discoverer option" where
  "current_or_rebind ok st = (case dc_socket st of Some _ \<Rightarrow> Some st | None \<Rightarrow> bind ok st)"

definition announce :: "bool \<Rightarrow> (bool \<times> if_addr) list option \<Rightarrow> discoverer \<Rightarrow> effects \<times> discoverer" where
  "announce ok addrs st = (case current_or_rebind ok st of
       None \<Rightarrow> (quiet, st)
     | Some st' \<Rightarrow>
         (let ann = announcement_new (dc_self st) True in
          (quiet\<lparr>ou_sent := concat (map (\<lambda>(ip, bc).
              [(MULTICAST_GROUP, DISCOVERY_PORT, ann), (bc, DISCOVERY_PORT, ann)])
            (ipv4_interfaces addrs))\<rparr>, st')))"

text \<open>The read loop of socket \<open>k\<close> fails: it ends, and the socket is given up if it is the
  current one.\<close>

definition read_failed :: "nat \<Rightarrow> discoverer \<Rightarrow> discoverer" where
  "read_failed k st =
     st\<lparr>dc_reading := None, dc_socket := (if dc_socket st = Some k then None else dc_socket st)\<rparr>"

definition stop :: "discoverer \<Rightarrow> discoverer" where
  "stop st = st\<lparr>dc_reading := None, dc_socket := None\<rparr>"

definition start :: "bool \<Rightarrow> (bool \<times> if_addr) list option \<Rightarrow> peer_info \<Rightarrow> (effects \<times> discoverer) option" where
  "start ok addrs self_info =
     map_option (announce ok addrs)
       (bind ok \<lparr>dc_self = self_info, dc_devices = fmempty, dc_socket = None, dc_reading = None, dc_opened = 0\<rparr>)"

datatype dc_event =
    Ev_packet nat "ipv4 \<times> u16" string
  | Ev_prune nat
  | Ev_devices nat
  | Ev_announce bool "(bool \<times> if_addr) list option"
  | Ev_read_error
  | Ev_stop

inductive dstep ::
    "(string \<Rightarrow> wire_announcement option) \<Rightarrow> discoverer \<Rightarrow> dc_event \<times> effects \<Rightarrow> discoverer \<Rightarrow> bool"
  for from_slice where
  d_packet: "dc_reading st = Some k \<Longrightarrow> handle_packet from_slice now src data st = (out, st') \<Longrightarrow>
    dstep from_slice st (Ev_packet now src data, out) st'"
| d_prune: "handle_prune now st = (out, st') \<Longrightarrow> dstep from_slice st (Ev_prune now, out) st'"
| d_devices: "dstep from_slice st (Ev_devices now, quiet) (devices_call now st)"
| d_announce: "announce ok addrs st = (out, st') \<Longrightarrow> dstep from_slice st (Ev_announce ok addrs, out) st'"
| d_error: "dc_reading st = Some k \<Longrightarrow> dstep from_slice st (Ev_read_error, quiet) (read_failed k st)"
| d_stop: "dstep from_slice st (Ev_stop, quiet) (stop st)"

inductive_cases dstep_packetE: "dstep from_slice st (Ev_packet now src data, out) st'"
inductive_cases dstep_pruneE: "dstep from_slice st (Ev_prune now, out) st'"
inductive_cases dstep_devicesE: "dstep from_slice st (Ev_devices now, out) st'"
inductive_cases dstep_announceE: "dstep from_slice st (Ev_announce ok addrs, out) st'"
inductive_cases dstep_errorE: "dstep from_slice st (Ev_read_error, out) st'"
inductive_cases dstep_stopE: "dstep from_slice st (Ev_stop, out) st'"

lemmas dstep_cases = dstep_packetE dstep_pruneE dstep_devicesE dstep_announceE dstep_errorE dstep_stopE

section \<open>The device list follows the announcements\<close>

text \<open>What an event tells of a device, and the last such news of each fingerprint.\<close>

fun heard :: "(string \<Rightarrow> wire_announcement option) \<Rightarrow> string \<Rightarrow> dc_event \<Rightarrow> (string \<times> device) option" where
  "heard from_slice self_fp (Ev_packet now src data) =
     (case decode from_slice (take 4096 data) of None \<Rightarrow> None
      | Some a \<Rightarrow> if pi_fingerprint (an_info a) = self_fp then None
          else Some (pi_fingerprint (an_info a),
            \<lparr>dv_info = an_info a, dv_ip = fst src, dv_last_seen = now\<rparr>))"
| "heard from_slice self_fp _ = None"

definition last_heard ::
    "(string \<Rightarrow> wire_announcement option) \<Rightarrow> string \<Rightarrow> dc_event list \<Rightarrow> string \<Rightarrow> device option" where
  "last_heard from_slice self_fp evs = map_of (rev (List.map_filter (heard from_slice self_fp) evs))"

fun ev_time :: "dc_event \<Rightarrow> nat option" where
  "ev_time (Ev_packet now src data) = Some now"
| "ev_time (Ev_prune now) = Some now"
| "ev_time (Ev_devices now) = Some now"
| "ev_time _ = None"

lemma retain_fresh_lookup [simp]:
  "hm_get (retain_fresh now m) k =
    (case hm_get m k of Some d \<Rightarrow> if fresh_at now d then Some d else None | None \<Rightarrow> None)"
  by (auto simp: retain_fresh_def split: option.split)

lemma last_heard_Nil [simp]: "last_heard fsl self [] fp = None"
  by (simp add: last_heard_def List.map_filter_simps)

lemma last_heard_snoc:
  "last_heard fsl self (evs @ [e]) =
    (case heard fsl self e of Some (q, d) \<Rightarrow> (last_heard fsl self evs)(q := Some d)
     | None \<Rightarrow> last_heard fsl self evs)"
  by (auto simp: last_heard_def List.map_filter_def split: option.split)

text \<open>The map as the history determines it, up to devices that have expired by \<open>now\<close>.\<close>

definition tracks :: "(string \<Rightarrow> device option) \<Rightarrow> nat \<Rightarrow> (string, device) hash_map \<Rightarrow> bool" where
  "tracks hist now m \<longleftrightarrow> (\<forall>fp. hm_get m fp = hist fp
     \<or> hm_get m fp = None \<and> (\<forall>d. hist fp = Some d \<longrightarrow> \<not> fresh_at now d))"

lemma fresh_at_mono: "now \<le> later \<Longrightarrow> fresh_at later d \<Longrightarrow> fresh_at now d"
  by (simp add: fresh_at_def)

lemma tracks_later: "tracks hist now m \<Longrightarrow> now \<le> later \<Longrightarrow> tracks hist later m"
  unfolding tracks_def using fresh_at_mono by blast

lemma tracks_upd: "tracks hist now m \<Longrightarrow> tracks (hist(fp := Some d)) now (fmupd fp d m)"
  by (simp add: tracks_def)

lemma tracks_fresh:
  assumes "tracks hist now m"
  shows "hm_get (retain_fresh now m) fp =
    (case hist fp of Some d \<Rightarrow> if fresh_at now d then Some d else None | None \<Rightarrow> None)"
proof (cases "hm_get m fp = hist fp")
  case True
  then show ?thesis by simp
next
  case False
  with assms have "hm_get m fp = None" "\<forall>d. hist fp = Some d \<longrightarrow> \<not> fresh_at now d"
    unfolding tracks_def by blast+
  then show ?thesis by (simp split: option.split)
qed

lemma tracks_retain: "tracks hist now m \<Longrightarrow> tracks hist now (retain_fresh now m)"
  by (simp add: tracks_def [of _ _ "retain_fresh now m"] tracks_fresh split: option.split
      del: retain_fresh_lookup)

lemma handle_packet_heard:
  assumes "handle_packet fsl now src data st = (out, st')"
  shows "dc_self st' = dc_self st \<and> dc_devices st' =
    (case heard fsl (pi_fingerprint (dc_self st)) (Ev_packet now src data) of
       None \<Rightarrow> dc_devices st | Some (fp, d) \<Rightarrow> fmupd fp d (dc_devices st))"
  using assms by (auto simp: handle_packet_def Let_def split: option.splits if_splits)

lemma announce_same:
  "announce ok addrs st = (out, st') \<Longrightarrow> dc_self st' = dc_self st \<and> dc_devices st' = dc_devices st"
  by (auto simp: announce_def current_or_rebind_def bind_def bind_store_def bind_spawn_def Let_def
      split: option.splits if_splits)

lemma dstep_self: "dstep fsl st l st' \<Longrightarrow> dc_self st' = dc_self st"
  by (erule dstep.cases)
    (auto simp: devices_call_def read_failed_def stop_def handle_prune_def Let_def
      dest: handle_packet_heard announce_same)

interpretation same_self: step_invariant "dstep fsl" "\<lambda>st. dc_self st = p" for fsl p
  by unfold_locales (simp add: dstep_self)

lemma tracks_step:
  assumes "dstep fsl st (e, out) st'" and "tracks (last_heard fsl (pi_fingerprint (dc_self st)) evs) now (dc_devices st)"
    and "\<And>t. ev_time e = Some t \<Longrightarrow> now = t"
  shows "tracks (last_heard fsl (pi_fingerprint (dc_self st)) (evs @ [e])) now (dc_devices st')"
proof (cases e)
  case (Ev_packet t src data)
  with assms(1) have hp: "handle_packet fsl t src data st = (out, st')" by (auto elim: dstep_packetE)
  define h where "h = heard fsl (pi_fingerprint (dc_self st)) e"
  have "dc_devices st' = (case h of None \<Rightarrow> dc_devices st | Some (fp, d) \<Rightarrow> fmupd fp d (dc_devices st))"
    using handle_packet_heard [OF hp] Ev_packet by (simp add: h_def)
  then show ?thesis
    using tracks_upd [OF assms(2)] assms(2) unfolding last_heard_snoc h_def [symmetric]
    by (cases h) auto
next
  case (Ev_prune t)
  with assms(1,3) have "dc_devices st' = retain_fresh now (dc_devices st)"
    by (auto elim!: dstep_pruneE simp: handle_prune_def Let_def)
  with Ev_prune assms(2) tracks_retain show ?thesis by (simp add: last_heard_snoc)
next
  case (Ev_devices t)
  with assms(1,3) have "dc_devices st' = retain_fresh now (dc_devices st)"
    by (auto elim!: dstep_devicesE simp: devices_call_def)
  with Ev_devices assms(2) tracks_retain show ?thesis by (simp add: last_heard_snoc)
next
  case (Ev_announce ok addrs)
  with assms(1) have "dc_devices st' = dc_devices st"
    by (auto elim!: dstep_announceE dest: announce_same)
  with Ev_announce assms(2) show ?thesis by (simp add: last_heard_snoc)
next
  case Ev_read_error
  with assms(1) have "dc_devices st' = dc_devices st"
    by (auto elim!: dstep_errorE simp: read_failed_def)
  with Ev_read_error assms(2) show ?thesis by (simp add: last_heard_snoc)
next
  case Ev_stop
  with assms(1) have "dc_devices st' = dc_devices st" by (auto elim!: dstep_stopE simp: stop_def)
  with Ev_stop assms(2) show ?thesis by (simp add: last_heard_snoc)
qed

lemma tracks_run:
  assumes "run (dstep fsl) st ls st'" and "dc_devices st = fmempty"
    and "sorted (List.map_filter (ev_time \<circ> fst) ls)"
    and "\<And>t. t \<in> set (List.map_filter (ev_time \<circ> fst) ls) \<Longrightarrow> t \<le> now"
  shows "tracks (last_heard fsl (pi_fingerprint (dc_self st)) (map fst ls)) now (dc_devices st')"
  using assms
proof (induction ls arbitrary: st' now rule: rev_induct)
  case Nil
  then show ?case by (simp add: tracks_def)
next
  case (snoc l ls)
  obtain e out where l: "l = (e, out)" by (cases l)
  obtain st1 where r: "run (dstep fsl) st ls st1" and d: "dstep fsl st1 (e, out) st'"
    using snoc.prems(1) l by (auto simp: run_append run_Cons_iff)
  have self: "dc_self st1 = dc_self st" using same_self.run_inv [OF r refl] .
  let ?now = "case ev_time e of Some t \<Rightarrow> t | None \<Rightarrow> now"
  have le: "?now \<le> now" and mono: "t \<le> ?now" if "t \<in> set (List.map_filter (ev_time \<circ> fst) ls)" for t
    using snoc.prems(3,4) l that
    by (auto simp: List.map_filter_def sorted_append split: option.splits)
  have le': "?now \<le> now"
    using snoc.prems(4) l by (auto simp: List.map_filter_def split: option.splits)
  have "tracks (last_heard fsl (pi_fingerprint (dc_self st)) (map fst ls)) ?now (dc_devices st1)"
    using snoc.IH [OF r snoc.prems(2) _ mono] snoc.prems(3) by (simp add: List.map_filter_def sorted_append)
  from tracks_step [OF d, of "map fst ls" ?now] this self
  have "tracks (last_heard fsl (pi_fingerprint (dc_self st)) (map fst ls @ [e])) ?now (dc_devices st')"
    by simp
  with le' l show ?case by (simp add: tracks_later)
qed

text \<open>
  C28: The device list is what the announcements say. At any time, the devices kept (as
  \<open>devices()\<close> and the cleanup leave them) are, for every other fingerprint that was
  announced validly, the info, address and time of its last announcement, if that is at most
  15 seconds ago; never this device itself; and no cleanup, call or socket failure in
  between makes a difference.
\<close>

theorem devices_are_last_announced:
  assumes "run (dstep from_slice) st ls st'" and "dc_devices st = fmempty"
    and "sorted (List.map_filter (ev_time \<circ> fst) ls)"
    and "\<And>t. t \<in> set (List.map_filter (ev_time \<circ> fst) ls) \<Longrightarrow> t \<le> now"
  shows "hm_get (retain_fresh now (dc_devices st')) fp =
    (case last_heard from_slice (pi_fingerprint (dc_self st)) (map fst ls) fp of
       Some d \<Rightarrow> if now - dv_last_seen d \<le> 15000000000 then Some d else None | None \<Rightarrow> None)"
proof -
  have ttl: "DEVICE_TTL = 15000000000" by (simp add: DEVICE_TTL_def nanos_of_secs_def)
  show ?thesis
    using tracks_fresh [OF tracks_run [OF assms], of fp] unfolding fresh_at_def ttl by blast
qed

section \<open>When the callback is called\<close>

text \<open>What a listener can see of a device map: alias, port and address by fingerprint.\<close>

definition visible :: "(string, device) hash_map \<Rightarrow> (string, string \<times> u16 \<times> ipv4) hash_map" where
  "visible m = fmmap (\<lambda>d. (pi_alias (dv_info d), pi_port (dv_info d), dv_ip d)) m"

lemma visible_lookup [simp]:
  "hm_get (visible m) k = map_option (\<lambda>d. (pi_alias (dv_info d), pi_port (dv_info d), dv_ip d)) (hm_get m k)"
  by (simp add: visible_def)

lemma visible_dom: "fmdom' (visible m) = fmdom' m"
  by (simp add: visible_def)

lemma fmupd_same_iff: "fmupd k v m = m \<longleftrightarrow> hm_get m k = Some v"
proof
  assume "fmupd k v m = m"
  then have "hm_get (fmupd k v m) k = hm_get m k" by simp
  then show "hm_get m k = Some v" by simp
next
  assume "hm_get m k = Some v"
  then show "fmupd k v m = m" by (intro fmap_ext) auto
qed

lemma visible_upd:
  "visible (fmupd k d m) = visible m \<longleftrightarrow> (\<exists>e. hm_get m k = Some e \<and> pi_alias (dv_info e) = pi_alias (dv_info d)
    \<and> pi_port (dv_info e) = pi_port (dv_info d) \<and> dv_ip e = dv_ip d)"
proof -
  have "visible (fmupd k d m) = fmupd k (pi_alias (dv_info d), pi_port (dv_info d), dv_ip d) (visible m)"
    by (intro fmap_ext) simp
  then show ?thesis by (auto simp: fmupd_same_iff)
qed

lemma retain_fresh_dom: "fmdom' (retain_fresh now m) \<subseteq> fmdom' m"
  by (auto simp: retain_fresh_def)

lemma retain_fresh_len: "hm_len (retain_fresh now m) = hm_len m \<longleftrightarrow> fmdom' (retain_fresh now m) = fmdom' m"
  unfolding hm_len_def using retain_fresh_dom [of now m]
  by (metis card_subset_eq finite_fmdom')

lemma retain_fresh_all: "fmdom' (retain_fresh now m) = fmdom' m \<Longrightarrow> retain_fresh now m = m"
proof (rule fmap_ext)
  fix k assume d: "fmdom' (retain_fresh now m) = fmdom' m"
  show "hm_get (retain_fresh now m) k = hm_get m k"
  proof (cases "hm_get m k")
    case (Some e)
    then have "k \<in> fmdom' (retain_fresh now m)" using d by (simp add: fmlookup_dom'_iff)
    then have "hm_get (retain_fresh now m) k \<noteq> None" by (simp add: fmlookup_dom'_iff)
    with Some show ?thesis by (simp split: if_splits)
  qed simp
qed

lemma prune_visible:
  "hm_len (retain_fresh now m) = hm_len m \<longleftrightarrow> visible (retain_fresh now m) = visible m"
  using retain_fresh_len retain_fresh_all visible_dom by metis


text \<open>
  Not every change is told. A call of \<open>devices()\<close> that drops an expired device calls no
  one, and the next cleanup has nothing left to report, so listeners keep showing it; and a
  device that announces a new device type replaces the old entry without a call.
\<close>

theorem silent_changes:
  "(\<exists>st now d. hm_get (dc_devices st) ''F'' = Some d
      \<and> hm_get (dc_devices (devices_call now st)) ''F'' = None
      \<and> ou_emit (fst (handle_prune now (devices_call now st))) = None)
   \<and> (\<exists>from_slice st data out st' d d'. handle_packet from_slice 0 (1, 2) data st = (out, st') \<and> ou_emit out = None
      \<and> hm_get (dc_devices st) ''F'' = Some d \<and> hm_get (dc_devices st') ''F'' = Some d'
      \<and> dv_info d \<noteq> dv_info d')"
proof -
  define info where "info t = \<lparr>pi_alias = ''A'', pi_device_type = t, pi_fingerprint = ''F'', pi_port = 1\<rparr>" for t
  define dev where "dev t = \<lparr>dv_info = info t, dv_ip = 1, dv_last_seen = 0\<rparr>" for t
  define st where "st = \<lparr>dc_self = (info ''x'')\<lparr>pi_fingerprint := ''S''\<rparr>,
    dc_devices = fmupd ''F'' (dev ''phone'') fmempty, dc_socket = None, dc_reading = None, dc_opened = 0\<rparr>"
  have "hm_get (dc_devices (devices_call (DEVICE_TTL + 1) st)) ''F'' = None"
    by (simp add: devices_call_def st_def dev_def fresh_at_def)
  moreover have "retain_fresh now (retain_fresh now m) = retain_fresh now m" for now m
    by (rule fmap_ext) (simp split: option.split)
  then have "ou_emit (fst (handle_prune now (devices_call now st))) = None" for now
    by (simp add: handle_prune_def devices_call_def quiet_def Let_def)
  moreover have "hm_get (dc_devices st) ''F'' = Some (dev ''phone'')" by (simp add: st_def)
  moreover
  let ?fsl = "\<lambda>_. Some (wire_of_announcement (announcement_new (info ''desktop'') False))"
  have "decode ?fsl x = Some (announcement_new (info ''desktop'') False)" for x
    by (rule decode_announcement_new) simp
  then have "handle_packet ?fsl 0 (1, 2) '''' st =
      (quiet, st\<lparr>dc_devices := fmupd ''F'' (dev ''desktop'') (dc_devices st)\<rparr>)"
    by (simp add: handle_packet_def announcement_new_def st_def info_def dev_def quiet_def)
  moreover have "dv_info (dev ''phone'') \<noteq> dv_info (dev ''desktop'')" by (simp add: dev_def info_def)
  ultimately show ?thesis by (intro conjI) (blast, force simp: quiet_def)
qed

section \<open>Answers\<close>

text \<open>
  Discovery settles in one exchange. The only datagram an announcement draws goes back to
  where it came from; a device that receives this answer lists the answering device, with its
  info and address, and sends nothing in return, so two devices never answer each other for
  ever.
\<close>

theorem answer_is_final:
  assumes "handle_packet from_slice now src data st = (out, st')" and "(ip, port, a) \<in> set (ou_sent out)"
    and "from_slice' reply = Some (wire_of_announcement a)" and "length reply \<le> 4096"
    and "handle_packet from_slice' now' src' reply other = (out', other')"
  shows "(ip, port) = src \<and> ou_sent out' = []
    \<and> (pi_fingerprint (dc_self st) \<noteq> pi_fingerprint (dc_self other) \<longrightarrow>
        hm_get (dc_devices other') (pi_fingerprint (dc_self st)) =
          Some \<lparr>dv_info = dc_self st, dv_ip = fst src', dv_last_seen = now'\<rparr>)"
proof -
  have a: "(ip, port) = src" "a = announcement_new (dc_self st) False"
    using assms(1,2) by (auto simp: handle_packet_def Let_def quiet_def split: option.splits if_splits)
  then have "decode from_slice' (take 4096 reply) = Some (announcement_new (dc_self st) False)"
    using assms(3,4) by (simp add: decode_announcement_new)
  with assms(5) have h: "(if pi_fingerprint (dc_self st) = pi_fingerprint (dc_self other) then out' = quiet
     else ou_sent out' = [] \<and> dc_devices other' = fmupd (pi_fingerprint (dc_self st))
       \<lparr>dv_info = dc_self st, dv_ip = fst src', dv_last_seen = now'\<rparr> (dc_devices other))"
    by (auto simp: handle_packet_def announcement_new_def Let_def split: if_splits)
  with a(1) show ?thesis by (auto simp: quiet_def split: if_splits)
qed

text \<open>
  A broadcast address computed from the netmask stays in the interface's network and has
  every host bit set; and a loopback interface or one without an IPv4 address is never used.
\<close>

theorem broadcast_address:
  "and (broadcast_of ip netmask None) netmask = and ip netmask
    \<and> and (broadcast_of ip netmask None) (not netmask) = not netmask
    \<and> (\<forall>xs. set (ipv4_interfaces (Some xs)) =
        {(a, broadcast_of a m b) | a m b. (False, V4 a m b) \<in> set xs})"
proof (intro conjI allI)
  show "and (broadcast_of ip netmask None) netmask = and ip netmask"
    by (simp add: broadcast_of_def bit.conj_disj_distrib2)
  show "and (broadcast_of ip netmask None) (not netmask) = not netmask"
    by (simp add: broadcast_of_def)
  show "set (ipv4_interfaces (Some xs)) = {(a, broadcast_of a m b) | a m b. (False, V4 a m b) \<in> set xs}" for xs
    by (force simp: ipv4_interfaces_def List.map_filter_def split: if_addr.splits)
qed

section \<open>The socket\<close>

definition socket_ok :: "discoverer \<Rightarrow> bool" where
  "socket_ok st \<longleftrightarrow> dc_socket st = None \<or> dc_reading st = dc_socket st"

lemma socket_ok_rebind: "socket_ok st \<Longrightarrow> current_or_rebind ok st = Some st' \<Longrightarrow>
    \<exists>k. dc_socket st' = Some k \<and> dc_reading st' = Some k"
  by (auto simp: socket_ok_def current_or_rebind_def bind_def bind_store_def bind_spawn_def
      split: option.splits if_splits)

lemma socket_ok_step:
  assumes "socket_ok st" and "dstep fsl st l st'"
  shows "socket_ok st'"
  using assms(2)
proof (cases rule: dstep.cases)
  case (d_packet k now src data out)
  with assms(1) show ?thesis
    by (auto simp: handle_packet_def Let_def socket_ok_def split: option.splits if_splits)
next
  case (d_announce ok addrs out)
  with assms(1) show ?thesis
    using socket_ok_rebind [OF assms(1)] by (fastforce simp: announce_def Let_def socket_ok_def split: option.splits)
qed (use assms(1) in \<open>auto simp: socket_ok_def handle_prune_def Let_def devices_call_def read_failed_def stop_def\<close>)

interpretation socket_kept: step_invariant "dstep fsl" socket_ok for fsl
  by unfold_locales (rule socket_ok_step)

text \<open>
  C30: As long as rebinding is not interrupted, discovery recovers by itself: whatever happened
  since the start (the operating system closing the socket included), an announcement whose
  bind succeeds leaves a current socket with a running read loop.
\<close>

theorem announce_recovers:
  assumes "start ok addrs self_info = Some (out, st)" and "run (dstep from_slice) st ls st'"
    and "announce True addrs' st' = (out', st'')"
  shows "\<exists>k. dc_socket st'' = Some k \<and> dc_reading st'' = Some k"
proof -
  have "socket_ok st"
    using assms(1) by (auto simp: start_def bind_def bind_store_def bind_spawn_def announce_def
        current_or_rebind_def Let_def socket_ok_def split: if_splits)
  from socket_kept.run_inv [OF assms(2) this] have ok: "socket_ok st'" .
  obtain st2 where c: "current_or_rebind True st' = Some st2"
    by (cases "dc_socket st'") (simp_all add: current_or_rebind_def bind_def)
  with assms(3) have "st'' = st2" by (simp add: announce_def Let_def)
  with socket_ok_rebind [OF ok c] show ?thesis by simp
qed

definition deaf :: "discoverer \<Rightarrow> bool" where
  "deaf st \<longleftrightarrow> dc_reading st = None \<and> dc_socket st \<noteq> None"

lemma deaf_step: "deaf st \<Longrightarrow> fst l \<noteq> Ev_stop \<Longrightarrow> dstep fsl st l st' \<Longrightarrow> deaf st'"
  by (erule dstep.cases)
    (auto simp: deaf_def handle_prune_def devices_call_def announce_def current_or_rebind_def Let_def)

interpretation deaf_socket: guarded_invariant "dstep fsl" "\<lambda>_ l. fst l \<noteq> Ev_stop" deaf for fsl
  by unfold_locales (rule deaf_step)

text \<open>
  Two rebinds at once can leave discovery deaf. If the refresh and the announce cycle both
  find no socket, and the one that starts its read loop first stores its socket last, the
  current socket is one nobody reads; once the other socket fails too, nothing short of
  \<open>stop()\<close> starts a read loop again, however often devices are announced.
\<close>

theorem concurrent_rebind_deaf:
  assumes "dc_socket st = None" and "k = dc_opened st"
    and "st1 = bind_store k (bind_store (Suc k) (bind_spawn (bind_spawn st)))"
    and "run (dstep from_slice) (read_failed (Suc k) st1) ls st'" and "Ev_stop \<notin> fst ` set ls"
  shows "dc_reading st1 = Some (Suc k) \<and> dc_reading st' = None \<and> dc_socket st' \<noteq> None"
proof -
  have "deaf (read_failed (Suc k) st1)" "dc_reading st1 = Some (Suc k)"
    using assms(1-3) by (simp_all add: deaf_def bind_store_def bind_spawn_def read_failed_def)
  moreover have "run (guarded (dstep from_slice) (\<lambda>_ l. fst l \<noteq> Ev_stop)) (read_failed (Suc k) st1) ls st'"
    using assms(4,5) by (intro guarded_runI) force+
  ultimately have "deaf st'" using deaf_socket.guarded_run_inv by blast
  with \<open>dc_reading st1 = Some (Suc k)\<close> show ?thesis by (simp add: deaf_def)
qed

end
