(* ===== verification/Node.thy ===== *)
theory Node
  imports Send Discovery
begin

text \<open>
  \<open>app/rust/src/api/easy_send.rs\<close>: what the app drives.  A node is the receiver and the
  discovery together; \<open>send_files\<close> runs one transfer as a job and reports it as a stream of
  events; \<open>send_cancel\<close> aborts the job.  The stream to the app and the task runtime are not
  part of the sources: an await is an argument that says how it came out, or that the job
  was aborted there.
\<close>

section \<open>Views\<close>

record device_snapshot =
  ds_alias :: string
  ds_device_type :: string
  ds_fingerprint :: string
  ds_ip :: string
  ds_port :: u16

definition device_snapshot_of :: "device \<Rightarrow> device_snapshot" where
  "device_snapshot_of d = \<lparr>ds_alias = pi_alias (dv_info d), ds_device_type = pi_device_type (dv_info d),
     ds_fingerprint = pi_fingerprint (dv_info d), ds_ip = ipv4_string (dv_ip d),
     ds_port = pi_port (dv_info d)\<rparr>"

text \<open>\<open>size as i64\<close> keeps the bits; the app reads them as a signed number.\<close>

record file_item =
  fi_id :: string
  fi_name :: string
  fi_size :: int

record approval_request =
  ar_sender_alias :: string
  ar_sender_fingerprint :: string
  ar_is_new_device :: bool
  ar_files :: "file_item list"

definition file_item_of :: "string \<times> file_meta \<Rightarrow> file_item" where
  "file_item_of e = \<lparr>fi_id = fst e, fi_name = fm_name (snd e), fi_size = sint (fm_size (snd e))\<rparr>"

text \<open>\<open>it\<close> is the order in which the file map is iterated.\<close>

definition approval_request_of :: "transfer_request \<Rightarrow> (string \<times> file_meta) list \<Rightarrow> approval_request" where
  "approval_request_of req it =
     \<lparr>ar_sender_alias = pi_alias (tr_sender req), ar_sender_fingerprint = pi_fingerprint (tr_sender req),
      ar_is_new_device = tr_is_new_device req,
      ar_files = sort_key fi_id (map file_item_of it)\<rparr>"

section \<open>Events\<close>

datatype send_phase = WaitingApproval | Uploading | Done | Failed | Canceled

text \<open>Phases follow one another; the final ones come last, in the order of the enum.\<close>

primrec phase_rank :: "send_phase \<Rightarrow> nat" where
  "phase_rank WaitingApproval = 0"
| "phase_rank Uploading = 1"
| "phase_rank Done = 2"
| "phase_rank Failed = 3"
| "phase_rank Canceled = 4"

lemma phase_rank_inj [simp]: "phase_rank p = phase_rank q \<longleftrightarrow> p = q"
  by (cases p; cases q) simp_all

instantiation send_phase :: linorder
begin

definition less_eq_send_phase :: "send_phase \<Rightarrow> send_phase \<Rightarrow> bool" where
  "p \<le> q \<longleftrightarrow> phase_rank p \<le> phase_rank q"

definition less_send_phase :: "send_phase \<Rightarrow> send_phase \<Rightarrow> bool" where
  "p < q \<longleftrightarrow> phase_rank p < phase_rank q"

instance
  by standard (auto simp: less_eq_send_phase_def less_send_phase_def)

end

lemma phase_le_simps [simp]:
  "WaitingApproval \<le> p" "p \<le> Canceled" "Uploading \<le> p \<longleftrightarrow> p \<noteq> WaitingApproval"
  "Done \<le> p \<longleftrightarrow> p \<in> {Done, Failed, Canceled}"
  by (cases p; simp add: less_eq_send_phase_def)+

record send_event =
  se_phase :: send_phase
  se_file_index :: u32
  se_file_count :: u32
  se_file_name :: string
  se_sent_bytes :: i64
  se_total_bytes :: i64
  se_message :: "string option"

definition event_of :: "send_phase \<Rightarrow> send_event" where
  "event_of phase = \<lparr>se_phase = phase, se_file_index = 0, se_file_count = 0, se_file_name = '''',
     se_sent_bytes = 0, se_total_bytes = 0, se_message = None\<rparr>"

definition failed_event :: "string \<Rightarrow> send_event" where
  "failed_event message = (event_of Failed)\<lparr>se_message := Some message\<rparr>"

definition uploading_event :: "nat \<Rightarrow> nat \<Rightarrow> string \<Rightarrow> u64 \<Rightarrow> u64 \<Rightarrow> send_event" where
  "uploading_event index file_count name sent total_size =
     (event_of Uploading)\<lparr>se_file_index := of_nat index, se_file_count := of_nat file_count,
        se_file_name := name, se_sent_bytes := sent, se_total_bytes := total_size\<rparr>"

definition msg_blocked :: string where
  "msg_blocked = utf8 [0xAE30, 0xAE30, 32, 0xC9C0, 0xBB38, 0xC774, 32, 0xAD11, 0xACE0, 0xB41C, 32,
     0xAC12, 0xACFC, 32, 0xB2E4, 0xB985, 0xB2C8, 0xB2E4, 32, 0x2014, 32, 0xC5F0, 0xACB0, 0xC744, 32,
     0xCC28, 0xB2E8, 0xD588, 0xC2B5, 0xB2C8, 0xB2E4]"

definition msg_in_progress :: string where
  "msg_in_progress = utf8 [0xC804, 0xC1A1, 0xC774, 32, 0xC774, 0xBBF8, 32, 0xC9C4, 0xD589, 32,
     0xC911, 0xC785, 0xB2C8, 0xB2E4]"

definition msg_no_node :: string where
  "msg_no_node = utf8 [0xB178, 0xB4DC, 0xAC00, 32, 0xC2DC, 0xC791, 0xB418, 0xC9C0, 32, 0xC54A,
     0xC558, 0xC2B5, 0xB2C8, 0xB2E4]"

definition msg_unreadable :: "string \<Rightarrow> string" where
  "msg_unreadable path = utf8 [0xC77D, 0xC744, 32, 0xC218, 32, 0xC5C6, 0xC2B5, 0xB2C8, 0xB2E4, 58, 32] @ path"

definition msg_abnormal :: "string \<Rightarrow> string" where
  "msg_abnormal join = utf8 [0xC804, 0xC1A1, 32, 0xC791, 0xC5C5, 32, 0xBE44, 0xC815, 0xC0C1, 32,
     0xC885, 0xB8CC, 58, 32] @ join"

text \<open>\<open>chain\<close> is the text of the error and its causes.\<close>

definition send_failure_message :: "string \<Rightarrow> string" where
  "send_failure_message chain = (if contains_str chain mismatch_marker then msg_blocked else chain)"

section \<open>One transfer\<close>

text \<open>The files of a transfer; \<open>metadata\<close> is the size of a readable file.\<close>

definition item_name :: "string \<Rightarrow> string" where
  "item_name path = (case file_name path of Some n \<Rightarrow> from_utf8_lossy n | None \<Rightarrow> path)"

fun collect_items ::
    "(string \<Rightarrow> u64 option) \<Rightarrow> nat \<Rightarrow> string list \<Rightarrow> string + (string \<times> string \<times> file_meta) list" where
  "collect_items metadata i [] = Inr []"
| "collect_items metadata i (path # paths) =
     (case metadata path of
        None \<Rightarrow> Inl path
      | Some file_size \<Rightarrow>
          (case collect_items metadata (i + 1) paths of
             Inl p \<Rightarrow> Inl p
           | Inr items \<Rightarrow> Inr ((''f'' @ dec_string (i + 1), path,
               \<lparr>fm_name = item_name path, fm_size = file_size, fm_mime = ''application/octet-stream''\<rparr>) # items)))"

definition metas_of :: "(string \<times> string \<times> file_meta) list \<Rightarrow> (string, file_meta) hash_map" where
  "metas_of items = foldl (\<lambda>m (id', path, meta). fmupd id' meta m) fmempty items"

definition total_bytes_of :: "(string \<times> string \<times> file_meta) list \<Rightarrow> u64" where
  "total_bytes_of items = foldl (\<lambda>n (id', path, meta). n + fm_size meta) 0 items"

text \<open>
  The progress callback of one file: an event when a mebibyte was sent since the last one, or
  at the end of the file.  \<open>emitted\<close> is the total last reported, over all files.
\<close>

fun report_progress :: "u64 \<Rightarrow> u64 \<Rightarrow> u64 \<Rightarrow> u64 list \<Rightarrow> u64 list \<times> u64" where
  "report_progress base file_size emitted [] = ([], emitted)"
| "report_progress base file_size emitted (sent # rest) =
     (let overall = base + sent in
      if overall - emitted \<ge> push_bit 20 1 \<or> sent = file_size
      then (let (reports, e) = report_progress base file_size overall rest in (overall # reports, e))
      else report_progress base file_size emitted rest)"

datatype job_result = Job_done | Job_failed send_error | Job_aborted | Job_panicked

text \<open>How the upload of one file comes out: the connections and the file's chunks, or an abort
  after the given progress; an upload that fails is followed by a cancellation.\<close>

datatype upload_await =
    Upload_runs connection "(string list \<times> bool) option" connection
  | Upload_aborted "u64 list"

fun job_uploads ::
    "(string \<Rightarrow> string) \<Rightarrow> (string \<Rightarrow> bool) \<Rightarrow> prepare_upload_response \<Rightarrow> nat \<Rightarrow> u64 \<Rightarrow> (nat \<Rightarrow> upload_await)
      \<Rightarrow> nat \<Rightarrow> u64 \<Rightarrow> u64 \<Rightarrow> sender \<Rightarrow> (string \<times> string \<times> file_meta) list
      \<Rightarrow> job_result \<times> send_event list \<times> (endpoint \<times> http_request) list" where
  "job_uploads fp uri_ok session file_count total_size aw i completed emitted sd [] = (Job_done, [], [])"
| "job_uploads fp uri_ok session file_count total_size aw i completed emitted sd ((file_id, path, meta) # items) =
     (let event = uploading_event i file_count (fm_name meta) in
      case hm_get (ps_tokens session) file_id of
        None \<Rightarrow> (Job_panicked, [event completed total_size], [])
      | Some token \<Rightarrow>
          (case aw i of
             Upload_aborted sofar \<Rightarrow>
               (Job_aborted, event completed total_size #
                  map (\<lambda>n. event n total_size) (fst (report_progress completed (fm_size meta) emitted sofar)), [])
           | Upload_runs conn content cancel_conn \<Rightarrow>
               (let (uploaded, sd', sent, progress) =
                      upload_file fp uri_ok sd conn (ps_session_id session) file_id token content (fm_size meta);
                    (reports, emitted') = report_progress completed (fm_size meta) emitted progress;
                    evs = event completed total_size # map (\<lambda>n. event n total_size) reports
                in case uploaded of
                     Inl e \<Rightarrow> (Job_failed e, evs,
                       sent @ snd (cancel fp uri_ok sd' cancel_conn (ps_session_id session)))
                   | Inr _ \<Rightarrow>
                       (let (res, evs', sent') = job_uploads fp uri_ok session file_count total_size aw (i + 1)
                              (completed + fm_size meta) emitted' sd' items
                        in (res, evs @ evs', sent @ sent')))))"

text \<open>How the world answers a job: the prepare request (\<open>None\<close>: aborted while waiting), the
  uploads, and the connection of the cancellation after an abort.\<close>

record job_env =
  je_prepare :: "connection option"
  je_upload :: "nat \<Rightarrow> upload_await"
  je_cancel :: connection

text \<open>The job: its result, the session it had stored in \<open>session_slot\<close>, events and requests.\<close>

definition send_job ::
    "(string \<Rightarrow> string) \<Rightarrow> (string \<Rightarrow> bool) \<Rightarrow> (string \<Rightarrow> prepare_upload_response option) \<Rightarrow> job_env
      \<Rightarrow> sender \<Rightarrow> (string \<times> string \<times> file_meta) list
      \<Rightarrow> job_result \<times> string option \<times> send_event list \<times> (endpoint \<times> http_request) list" where
  "send_job fp uri_ok from_slice env sd items =
     (let waiting = event_of WaitingApproval in
      case je_prepare env of
        None \<Rightarrow> (Job_aborted, None, [waiting], [])
      | Some conn \<Rightarrow>
          (let (prepared, sd', sent) = prepare_upload fp uri_ok from_slice sd conn (metas_of items) in
           case prepared of
             Inl e \<Rightarrow> (Job_failed e, None, [waiting], sent)
           | Inr session \<Rightarrow>
               (let (res, evs, sent') = job_uploads fp uri_ok session (length items) (total_bytes_of items)
                      (je_upload env) 0 0 0 sd' items
                in (res, Some (ps_session_id session), waiting # evs, sent @ sent'))))"

record send_target =
  st_ip :: string
  st_port :: u16
  st_fingerprint :: string
  st_alias :: string

definition target_addr :: "send_target \<Rightarrow> string" where
  "target_addr target = st_ip target @ '':'' @ dec_string (unat (st_port target))"

text \<open>
  \<open>send_files\<close> once the checks passed: \<open>busy\<close> is whether a job was in \<open>SENDING\<close>, \<open>node\<close> the
  node's own info if one runs.  \<open>chain\<close> is the text of an error, \<open>panic_text\<close> that of a panic.
\<close>

definition send_files ::
    "(string \<Rightarrow> string) \<Rightarrow> (string \<Rightarrow> bool) \<Rightarrow> (string \<Rightarrow> prepare_upload_response option)
      \<Rightarrow> (send_error \<Rightarrow> string) \<Rightarrow> string \<Rightarrow> (string \<Rightarrow> u64 option) \<Rightarrow> bool \<Rightarrow> peer_info option \<Rightarrow> job_env
      \<Rightarrow> send_target \<Rightarrow> string list \<Rightarrow> send_event list \<times> (endpoint \<times> http_request) list" where
  "send_files fp uri_ok from_slice chain panic_text metadata busy node env target paths =
     (if busy then ([failed_event msg_in_progress], [])
      else case node of
        None \<Rightarrow> ([failed_event msg_no_node], [])
      | Some self_info \<Rightarrow>
          (case collect_items metadata 0 paths of
             Inl path \<Rightarrow> ([failed_event (msg_unreadable path)], [])
           | Inr items \<Rightarrow>
               (let sd = sender_new (target_addr target) (st_fingerprint target) self_info;
                    (res, slot, evs, sent) = send_job fp uri_ok from_slice env sd items
                in case res of
                     Job_done \<Rightarrow> (evs @ [event_of Done], sent)
                   | Job_failed e \<Rightarrow> (evs @ [failed_event (send_failure_message (chain e))], sent)
                   | Job_aborted \<Rightarrow>
                       (evs @ [event_of Canceled], sent @ (case slot of None \<Rightarrow> []
                          | Some session_id \<Rightarrow>
                              snd (cancel fp uri_ok (sender_new (target_addr target) (st_fingerprint target) self_info)
                                (je_cancel env) session_id)))
                   | Job_panicked \<Rightarrow> (evs @ [failed_event (msg_abnormal panic_text)], sent))))"

section \<open>What the app is told\<close>

text \<open>Events of a running transfer are of two kinds, and only the first is a wait.\<close>

lemma phase_simps [simp]:
  "se_phase (event_of p) = p" "se_phase (failed_event m) = Failed"
  "se_phase (uploading_event i n name sent total_size) = Uploading"
  by (simp_all add: event_of_def failed_event_def uploading_event_def)

lemma job_uploads_phases:
  "job_uploads fp uri_ok session n total_size aw i completed emitted sd items = (res, evs, sent) \<Longrightarrow>
    e \<in> set evs \<Longrightarrow> se_phase e = Uploading"
proof (induction items arbitrary: i completed emitted sd res evs sent)
  case (Cons item items)
  obtain file_id path meta where item: "item = (file_id, path, meta)" by (cases item)
  show ?case
  proof (cases "hm_get (ps_tokens session) file_id")
    case None
    with Cons.prems item show ?thesis by (auto simp: Let_def)
  next
    case (Some token)
    show ?thesis
    proof (cases "aw i")
      case (Upload_aborted sofar)
      with Some Cons.prems item show ?thesis by (auto simp: Let_def)
    next
      case (Upload_runs conn content cc)
      obtain u sd' s1 ps where u: "upload_file fp uri_ok sd conn (ps_session_id session) file_id token
          content (fm_size meta) = (u, sd', s1, ps)"
        by (metis prod_cases4)
      obtain rp em where r: "report_progress completed (fm_size meta) emitted ps = (rp, em)" by fastforce
      obtain res' evs' sent' where rest: "job_uploads fp uri_ok session n total_size aw (i + 1)
          (completed + fm_size meta) em sd' items = (res', evs', sent')"
        by (metis prod_cases3)
      show ?thesis
        using Cons.prems item Some Upload_runs u r rest Cons.IH [OF rest]
        by (cases u) (auto simp: Let_def)
    qed
  qed
qed simp

lemma send_job_phases:
  assumes "send_job fp uri_ok fsl env sd items = (res, slot, evs, sent)"
  shows "\<exists>evs'. evs = event_of WaitingApproval # evs' \<and> (\<forall>e \<in> set evs'. se_phase e = Uploading)"
proof (cases "je_prepare env")
  case None
  with assms show ?thesis by (auto simp: send_job_def)
next
  case (Some conn)
  obtain r sd' s where p: "prepare_upload fp uri_ok fsl sd conn (metas_of items) = (r, sd', s)"
    by (metis prod_cases3)
  show ?thesis
  proof (cases r)
    case (Inl e)
    with Some p assms show ?thesis by (auto simp: send_job_def)
  next
    case (Inr session)
    obtain res' evs' s' where j: "job_uploads fp uri_ok session (length items) (total_bytes_of items)
        (je_upload env) 0 0 0 sd' items = (res', evs', s')"
      by (metis prod_cases3)
    with Inr Some p assms job_uploads_phases [OF j] show ?thesis by (auto simp: send_job_def)
  qed
qed

lemma phases_sorted:
  assumes "\<forall>e \<in> set evs. se_phase e = Uploading"
  shows "sorted (map se_phase evs)"
  using assms by (induction evs) auto

text \<open>How \<open>send_files\<close> comes out, by what stopped it.\<close>

lemma send_files_cases:
  obtains (early) m where
      "send_files fp uri_ok fsl chain pt metadata busy node env target paths = ([failed_event m], [])"
  | (job) self_info items res slot evs sent where "\<not> busy" "node = Some self_info"
      "collect_items metadata 0 paths = Inr items"
      "send_job fp uri_ok fsl env (sender_new (target_addr target) (st_fingerprint target) self_info) items
        = (res, slot, evs, sent)"
      "send_files fp uri_ok fsl chain pt metadata busy node env target paths = (case res of
         Job_done \<Rightarrow> (evs @ [event_of Done], sent)
       | Job_failed e \<Rightarrow> (evs @ [failed_event (send_failure_message (chain e))], sent)
       | Job_aborted \<Rightarrow> (evs @ [event_of Canceled], sent @ (case slot of None \<Rightarrow> []
          | Some session_id \<Rightarrow> snd (cancel fp uri_ok
              (sender_new (target_addr target) (st_fingerprint target) self_info) (je_cancel env) session_id)))
       | Job_panicked \<Rightarrow> (evs @ [failed_event (msg_abnormal pt)], sent))"
proof (cases "busy \<or> node = None")
  case True
  then have "\<exists>m. send_files fp uri_ok fsl chain pt metadata busy node env target paths = ([failed_event m], [])"
    by (cases busy) (simp_all add: send_files_def, blast+)
  then show ?thesis using early by blast
next
  case False
  then obtain self_info where n: "\<not> busy" "node = Some self_info" by auto
  show ?thesis
  proof (cases "collect_items metadata 0 paths")
    case (Inl p)
    with n show ?thesis using early by (simp add: send_files_def)
  next
    case (Inr items)
    obtain res slot evs sent where j: "send_job fp uri_ok fsl env
        (sender_new (target_addr target) (st_fingerprint target) self_info) items = (res, slot, evs, sent)"
      by (metis prod_cases4)
    show ?thesis by (rule job [OF n Inr j]) (simp add: send_files_def n Inr j)
  qed
qed

text \<open>
  C31: Every transfer the app asks for ends, for the app, with exactly one final event: done,
  failed or canceled comes last and never before; what comes before is the wait for approval
  and then only uploading events, so the phases of a transfer never go back.
\<close>

theorem send_files_one_final_event:
  "\<exists>pre final. fst (send_files fp uri_ok from_slice chain panic_text metadata busy node env target paths)
      = pre @ [final]
    \<and> se_phase final \<in> {Done, Failed, Canceled}
    \<and> (pre = [] \<or> se_phase (hd pre) = WaitingApproval) \<and> (\<forall>e \<in> set (tl pre). se_phase e = Uploading)
    \<and> sorted (map se_phase (pre @ [final]))"
proof (cases rule: send_files_cases [of fp uri_ok from_slice chain panic_text metadata busy node env target paths])
  case (early m)
  then show ?thesis by (intro exI [of _ "[]"]) simp
next
  case (job self_info items res slot evs sent)
  from send_job_phases [OF job(4)] obtain evs' where
    evs: "evs = event_of WaitingApproval # evs'" "\<forall>e \<in> set evs'. se_phase e = Uploading"
    by blast
  then show ?thesis
    unfolding job(5) by (intro exI [of _ evs]) (cases res; simp add: sorted_append phases_sorted)
qed

section \<open>What done means\<close>

definition upload_sent ::
    "(string \<Rightarrow> string) \<Rightarrow> string \<Rightarrow> string \<Rightarrow> prepare_upload_response \<Rightarrow> string \<times> string \<times> file_meta
      \<Rightarrow> endpoint \<times> http_request \<Rightarrow> bool" where
  "upload_sent fp expected addr session item x =
     (case item of (file_id, path, meta) \<Rightarrow> case x of (ep, rq) \<Rightarrow>
        (\<exists>token. hm_get (ps_tokens session) file_id = Some token
          \<and> hr_path rq = ''https://'' @ addr @ ''/api/v1/upload'' @ upload_query (ps_session_id session) file_id token)
        \<and> hr_length rq = Some (fm_size meta) \<and> (\<exists>body. ep_reply ep rq = Some (200, body))
        \<and> fp (ep_cert ep) = expected \<and> ep_signed ep)"

lemma upload_file_Inr:
  assumes "upload_file fp uri_ok sd conn sid fid tok content len = (Inr u, sd', sent, ps)"
    and "client_ok fp (Some expected) (sd_client sd)"
  shows "\<exists>ep rq body. sent = [(ep, rq)] \<and> hr_path rq = sender_url sd ''/upload'' (upload_query sid fid tok)
    \<and> hr_length rq = Some len \<and> ep_reply ep rq = Some (200, body) \<and> fp (ep_cert ep) = expected \<and> ep_signed ep
    \<and> client_ok fp (Some expected) (sd_client sd') \<and> sd_addr sd' = sd_addr sd"
proof -
  obtain chunks broken where c: "content = Some (chunks, broken)"
    using assms(1) by (cases content) (auto simp: upload_file_def)
  let ?rq = "(plain_request (sender_url sd ''/upload'' (upload_query sid fid tok)))
      \<lparr>hr_length := Some len, hr_chunks := chunks, hr_broken := broken\<rparr>"
  obtain res sd1 s1 where sr: "sender_request fp uri_ok sd conn ?rq = (res, sd1, s1)"
    by (metis prod_cases3)
  with assms(1) c obtain body where res: "res = Inr (200, body)" and same: "sd' = sd1" "sent = s1"
    by (auto simp: upload_file_def Let_def split: sum.splits if_splits)
  obtain cl where cr: "client_request fp (sd_client sd) conn ?rq = (res, cl, s1)"
    and sd1: "sd1 = sd\<lparr>sd_client := cl\<rparr>"
    using sr res by (auto simp: sender_request_def split: if_splits prod.splits)
  from client_request_ok [OF cr assms(2)] res obtain ep where
    "s1 = [(ep, ?rq)]" "ep_reply ep ?rq = Some (200, body)" "client_ok fp (Some expected) cl"
    "authentic fp (Some expected) ep"
    by fastforce
  then show ?thesis
    using same sd1 by (intro exI [of _ ep] exI [of _ ?rq] exI [of _ body]) (simp add: authentic_def plain_request_def)
qed

lemma job_uploads_done:
  "job_uploads fp uri_ok session n total_size aw i completed emitted sd items = (Job_done, evs, sent) \<Longrightarrow>
    client_ok fp (Some expected) (sd_client sd) \<Longrightarrow>
    list_all2 (upload_sent fp expected (sd_addr sd) session) items sent"
proof (induction items arbitrary: i completed emitted sd evs sent)
  case (Cons item items)
  obtain file_id path meta where item: "item = (file_id, path, meta)" by (cases item)
  obtain token where token: "hm_get (ps_tokens session) file_id = Some token"
    using Cons.prems(1) item by (auto simp: Let_def split: option.splits)
  obtain conn content cc where aw: "aw i = Upload_runs conn content cc"
    using Cons.prems(1) item token by (cases "aw i") (auto simp: Let_def)
  obtain u sd' s1 ps where u: "upload_file fp uri_ok sd conn (ps_session_id session) file_id token
      content (fm_size meta) = (u, sd', s1, ps)"
    by (metis prod_cases4)
  obtain rp em where r: "report_progress completed (fm_size meta) emitted ps = (rp, em)" by fastforce
  obtain res' evs' sent' where rest: "job_uploads fp uri_ok session n total_size aw (i + 1)
      (completed + fm_size meta) em sd' items = (res', evs', sent')"
    by (metis prod_cases3)
  obtain x where x: "u = Inr x" and res': "res' = Job_done" "sent = s1 @ sent'"
    using Cons.prems(1) item token aw u r rest by (cases u) (auto simp: Let_def)
  from upload_file_Inr [OF u [unfolded x] Cons.prems(2)] obtain ep rq body where
    s1: "s1 = [(ep, rq)]" "hr_path rq = sender_url sd ''/upload'' (upload_query (ps_session_id session) file_id token)"
      "hr_length rq = Some (fm_size meta)" "ep_reply ep rq = Some (200, body)"
      "fp (ep_cert ep) = expected" "ep_signed ep"
    and ok: "client_ok fp (Some expected) (sd_client sd')" "sd_addr sd' = sd_addr sd"
    by blast
  have "upload_sent fp expected (sd_addr sd) session item (ep, rq)"
    using s1 item token by (simp add: upload_sent_def sender_url_def API_PREFIX_def)
  with Cons.IH [OF rest [unfolded res'] ok(1)] ok(2) res'(2) s1(1) show ?case by simp
qed simp

lemma prepare_upload_Inr:
  assumes "prepare_upload fp uri_ok fsl sd conn files = (Inr session, sd', sent)"
    and "client_ok fp (Some expected) (sd_client sd)"
  shows "\<exists>ep rq b. sent = [(ep, rq)] \<and> hr_prepare rq = Some \<lparr>pr_info = sd_self_info sd, pr_files = files\<rparr>
    \<and> ep_reply ep rq = Some (200, Some b) \<and> fsl b = Some session
    \<and> fp (ep_cert ep) = expected \<and> ep_signed ep
    \<and> client_ok fp (Some expected) (sd_client sd') \<and> sd_addr sd' = sd_addr sd"
proof -
  let ?rq = "(plain_request (sender_url sd ''/prepare-upload'' ''''))
     \<lparr>hr_prepare := Some \<lparr>pr_info = sd_self_info sd, pr_files = files\<rparr>\<rparr>"
  obtain res sd1 s1 where sr: "sender_request fp uri_ok sd conn ?rq = (res, sd1, s1)"
    by (metis prod_cases3)
  with assms(1) obtain b where res: "res = Inr (200, Some b)" "fsl b = Some session"
    and same: "sd' = sd1" "sent = s1"
    by (auto simp: prepare_upload_def Let_def split: sum.splits if_splits option.splits)
  obtain cl where cr: "client_request fp (sd_client sd) conn ?rq = (res, cl, s1)"
    and sd1: "sd1 = sd\<lparr>sd_client := cl\<rparr>"
    using sr res by (auto simp: sender_request_def split: if_splits prod.splits)
  from client_request_ok [OF cr assms(2)] res obtain ep where
    "s1 = [(ep, ?rq)]" "ep_reply ep ?rq = Some (200, Some b)" "client_ok fp (Some expected) cl"
    "authentic fp (Some expected) ep"
    by fastforce
  then show ?thesis
    using same sd1 res(2) by (intro exI [of _ ep] exI [of _ ?rq] exI [of _ b]) (simp add: authentic_def)
qed

text \<open>
  C11: When the app is told a transfer is done, it is: all files were readable, the receiver
  (the device with the target's fingerprint) approved the list of all of them, and then every
  file was uploaded, in order, with its size and the token issued for it, and each upload was
  answered 200; nothing else was sent.
\<close>

theorem done_means_delivered:
  assumes "send_files fp uri_ok from_slice chain panic_text metadata busy node env target paths = (evs, sent)"
    and "se_phase (last evs) = Done"
  shows "\<exists>items self_info session ep rq b ups. collect_items metadata 0 paths = Inr items
    \<and> node = Some self_info \<and> sent = (ep, rq) # ups
    \<and> hr_prepare rq = Some \<lparr>pr_info = self_info, pr_files = metas_of items\<rparr>
    \<and> ep_reply ep rq = Some (200, Some b) \<and> from_slice b = Some session
    \<and> fp (ep_cert ep) = st_fingerprint target \<and> ep_signed ep
    \<and> list_all2 (upload_sent fp (st_fingerprint target) (target_addr target) session) items ups"
proof (cases rule: send_files_cases [of fp uri_ok from_slice chain panic_text metadata busy node env target paths])
  case (early m)
  with assms show ?thesis by auto
next
  case (job self_info items res slot evs' sent')
  let ?sd = "sender_new (target_addr target) (st_fingerprint target) self_info"
  have res: "res = Job_done" and sent: "sent = sent'"
    using job(5) assms by (cases res; auto)+
  then obtain conn where c: "je_prepare env = Some conn"
    using job(4) by (cases "je_prepare env") (auto simp: send_job_def)
  obtain r sd' s where p: "prepare_upload fp uri_ok from_slice ?sd conn (metas_of items) = (r, sd', s)"
    by (metis prod_cases3)
  obtain session where r: "r = Inr session"
    using job(4) res c p by (cases r) (auto simp: send_job_def)
  obtain res' evs1 ups where j: "job_uploads fp uri_ok session (length items) (total_bytes_of items)
      (je_upload env) 0 0 0 sd' items = (res', evs1, ups)"
    by (metis prod_cases3)
  have res': "res' = Job_done" "sent' = s @ ups"
    using job(4) res c p r j by (auto simp: send_job_def)
  have ok: "client_ok fp (Some (st_fingerprint target)) (sd_client ?sd)" by (simp add: sender_new_def)
  from prepare_upload_Inr [OF p [unfolded r] ok] obtain ep rq b where
    s: "s = [(ep, rq)]" "hr_prepare rq = Some \<lparr>pr_info = self_info, pr_files = metas_of items\<rparr>"
      "ep_reply ep rq = Some (200, Some b)" "from_slice b = Some session"
      "fp (ep_cert ep) = st_fingerprint target" "ep_signed ep"
    and ok': "client_ok fp (Some (st_fingerprint target)) (sd_client sd')" "sd_addr sd' = target_addr target"
    by (auto simp: sender_new_def)
  from job_uploads_done [OF j [unfolded res'] ok'(1)] ok'(2)
  have "list_all2 (upload_sent fp (st_fingerprint target) (target_addr target) session) items ups" by simp
  with s sent res'(2) job(2,3) show ?thesis by auto
qed

section \<open>Aborting\<close>

lemma cancel_sends:
  assumes "uri_ok (sender_url sd ''/cancel'' (cancel_query sid))" and "client_ok fp (Some expected) (sd_client sd)"
    and "fp (ep_cert ep) = expected" and "ep_signed ep"
  shows "snd (cancel fp uri_ok sd (Fresh ep) sid) =
    [(ep, plain_request (sender_url sd ''/cancel'' (cancel_query sid)))]"
  using assms
  by (simp add: cancel_def sender_request_def client_request_def connect_def verify_server_cert_def
      client_ok_def plain_request_def Let_def)


text \<open>
  A receiver that leaves a file out of its tokens crashes the transfer: the job panics at
  that file, the app is told of an abnormal end, and no cancellation is sent, so the receiver
  is left in its session.
\<close>

theorem missing_token_no_cancel:
  assumes "metadata path = Some n" and "je_prepare env = Some conn"
    and "prepare_upload fp uri_ok from_slice (sender_new (target_addr target) (st_fingerprint target) self_info)
      conn (fmupd ''f1'' \<lparr>fm_name = item_name path, fm_size = n, fm_mime = ''application/octet-stream''\<rparr> fmempty)
      = (Inr session, sd', sent)"
    and "hm_get (ps_tokens session) ''f1'' = None"
  shows "\<exists>evs. send_files fp uri_ok from_slice chain panic_text metadata False (Some self_info) env target [path] =
    (evs @ [failed_event (msg_abnormal panic_text)], sent)"
proof -
  have "dec_string (Suc 0) = ''1''" by (simp add: dec_string.simps digit_char_def char_of_eq_byte)
  with assms show ?thesis by (simp add: send_files_def send_job_def metas_of_def Let_def)
qed

section \<open>Progress\<close>

text \<open>The same over the natural numbers.\<close>

fun reports :: "nat \<Rightarrow> nat \<Rightarrow> nat \<Rightarrow> nat list \<Rightarrow> nat list" where
  "reports base file_size emitted [] = []"
| "reports base file_size emitted (sent # rest) =
     (if base + sent - emitted \<ge> 2 ^ 20 \<or> sent = file_size
      then (base + sent) # reports base file_size (base + sent) rest
      else reports base file_size emitted rest)"

lemma report_progress_reports:
  assumes "unat base + unat file_size < 2 ^ 64" and "sorted (map unat ts)"
    and "\<And>t. t \<in> set ts \<Longrightarrow> unat t \<le> unat file_size \<and> unat emitted \<le> unat base + unat t"
  shows "map unat (fst (report_progress base file_size emitted ts)) =
    reports (unat base) (unat file_size) (unat emitted) (map unat ts)"
  using assms
proof (induction ts arbitrary: emitted)
  case (Cons t ts)
  have le: "unat t \<le> unat file_size" "unat emitted \<le> unat base + unat t" using Cons.prems(3) by simp_all
  then have ov: "unat (base + t) = unat base + unat t"
    using Cons.prems(1) by (simp add: unat_add_lem [THEN iffD1])
  have gap: "1048576 \<le> base + t - emitted \<longleftrightarrow> 1048576 \<le> unat base + unat t - unat emitted"
  proof -
    have "unat (base + t - emitted) = unat base + unat t - unat emitted"
      using le(2) ov by (simp add: unat_sub word_le_nat_alt)
    then show ?thesis by (simp add: word_le_nat_alt)
  qed
  have eq: "t = file_size \<longleftrightarrow> unat t = unat file_size" by (simp add: unsigned_word_eqI word_unat_eq_iff)
  have "unat (base + t) \<le> unat base + unat u" if "u \<in> set ts" for u
    using that Cons.prems(2) ov by simp
  then have "map unat (fst (report_progress base file_size (base + t) ts)) =
      reports (unat base) (unat file_size) (unat (base + t)) (map unat ts)"
    using Cons.prems by (intro Cons.IH) simp_all
  moreover have "map unat (fst (report_progress base file_size emitted ts)) =
      reports (unat base) (unat file_size) (unat emitted) (map unat ts)"
    using Cons.prems by (intro Cons.IH) simp_all
  ultimately show ?case by (simp add: gap eq ov Let_def split_beta)
qed simp

lemma reports_bounds:
  assumes "sorted_wrt (<) ts" and "\<And>t. t \<in> set ts \<Longrightarrow> t \<le> file_size \<and> emitted \<le> base + t"
    and "emitted \<le> base + file_size"
  shows "sorted (reports base file_size emitted ts)
    \<and> set (reports base file_size emitted ts) \<subseteq> (\<lambda>t. base + t) ` set ts
    \<and> (file_size \<in> set ts \<longrightarrow> base + file_size \<in> set (reports base file_size emitted ts))
    \<and> length (reports base file_size emitted ts) * 2 ^ 20 \<le> base + file_size - emitted + 2 ^ 20"
  using assms
proof (induction ts arbitrary: emitted)
  case (Cons t ts)
  have t: "t \<le> file_size" "emitted \<le> base + t" using Cons.prems(2) by simp_all
  show ?case
  proof (cases "base + t - emitted \<ge> 2 ^ 20 \<or> t = file_size")
    case False
    then show ?thesis using Cons.IH [of emitted] Cons.prems by auto
  next
    case True
    have IH: "sorted (reports base file_size (base + t) ts)
      \<and> set (reports base file_size (base + t) ts) \<subseteq> (\<lambda>t. base + t) ` set ts
      \<and> (file_size \<in> set ts \<longrightarrow> base + file_size \<in> set (reports base file_size (base + t) ts))
      \<and> length (reports base file_size (base + t) ts) * 2 ^ 20 \<le> base + file_size - (base + t) + 2 ^ 20"
      using Cons.prems t by (intro Cons.IH) auto
    have "ts = []" if "t = file_size"
      using that Cons.prems(1,2) by (cases ts) force+
    then have len: "Suc (length (reports base file_size (base + t) ts)) * 2 ^ 20 \<le> base + file_size - emitted + 2 ^ 20"
      using IH True t by (cases "t = file_size") auto
    have "\<forall>x \<in> set (reports base file_size (base + t) ts). base + t \<le> x"
      using IH Cons.prems(1) by fastforce
    with IH True len show ?thesis by auto
  qed
qed simp

text \<open>
  Progress is thinned out but never wrong: for a file whose chunks end within its size, the
  events of the callback carry running totals that do occur, in order, the end of the file
  among them, and there is at most one event per mebibyte not yet reported, and one more.
\<close>

theorem progress_throttled:
  assumes "unat base + unat file_size < 2 ^ 64" and "sorted_wrt (<) (map unat ts)"
    and "\<And>t. t \<in> set ts \<Longrightarrow> unat t \<le> unat file_size" and "emitted \<le> base"
    and "rs = fst (report_progress base file_size emitted ts)"
  shows "sorted (map unat rs) \<and> unat ` set rs \<subseteq> (\<lambda>t. unat base + unat t) ` set ts
    \<and> (file_size \<in> set ts \<longrightarrow> base + file_size \<in> set rs)
    \<and> length rs * 2 ^ 20 \<le> unat base + unat file_size - unat emitted + 2 ^ 20"
proof -
  have em: "unat emitted \<le> unat base" using assms(4) by (simp add: word_le_nat_alt)
  have r: "map unat rs = reports (unat base) (unat file_size) (unat emitted) (map unat ts)"
    unfolding assms(5) using assms(1-3) em
    by (intro report_progress_reports) (auto simp: strict_sorted_imp_sorted intro: trans_le_add1)
  note b = reports_bounds [OF assms(2), of "unat file_size" "unat emitted" "unat base"]
  have 1: "sorted (map unat rs) \<and> set (map unat rs) \<subseteq> (\<lambda>t. unat base + t) ` set (map unat ts)
    \<and> (unat file_size \<in> set (map unat ts) \<longrightarrow> unat base + unat file_size \<in> set (map unat rs))
    \<and> length (map unat rs) * 2 ^ 20 \<le> unat base + unat file_size - unat emitted + 2 ^ 20"
    unfolding r using assms(3) em by (intro b) auto
  have "base + file_size \<in> set rs" if "file_size \<in> set ts"
  proof -
    from that 1 obtain x where x: "x \<in> set rs" "unat x = unat base + unat file_size" by auto
    then have "x = base + file_size"
      using assms(1) by (simp add: word_unat_eq_iff unat_add_lem [THEN iffD1])
    with x show ?thesis by simp
  qed
  with 1 show ?thesis by (auto simp: image_image)
qed

section \<open>What the user is asked and told\<close>

lemma sort_key_distinct: "distinct (map k xs) \<Longrightarrow> distinct (map k (sort_key k xs))"
  by (simp add: distinct_map)

lemma sort_key_unique:
  assumes "set xs = set ys" and "distinct (map k xs)" and "distinct (map k ys)"
  shows "sort_key k xs = sort_key k ys"
proof (rule map_sorted_distinct_set_unique)
  show "inj_on k (set (sort_key k xs) \<union> set (sort_key k ys))"
    using assms by (simp add: distinct_map)
qed (use assms in \<open>simp_all add: distinct_map\<close>)

lemma sint_64: "sint (w :: u64) = (if uint w < 2 ^ 63 then uint w else uint w - 2 ^ 64)"
proof -
  have le: "uint w < 2 ^ 64" using uint_bounded [of w] by simp
  have "uint w div 2 ^ 63 = (if uint w < 2 ^ 63 then 0 else 1)"
    using le by (auto intro: int_div_pos_eq [where r = "uint w - 2 ^ 63"])
  then have "bit (uint w) 63 \<longleftrightarrow> \<not> uint w < 2 ^ 63" by (simp add: bit_iff_odd)
  moreover have "take_bit 64 (uint w) = uint w" using le by (simp add: take_bit_int_eq_self_iff)
  ultimately show ?thesis by (simp add: sint_uint signed_take_bit_eq_take_bit_minus)
qed

text \<open>
  The user is asked about exactly the files of the request, sorted by id, whatever order
  the map is walked in; sizes are shown as they are below 2^63 and negative from there on.
\<close>

theorem approval_request_faithful:
  assumes "is_iteration (tr_files req) it"
  shows "sorted (map fi_id (ar_files (approval_request_of req it)))
    \<and> distinct (map fi_id (ar_files (approval_request_of req it)))
    \<and> set (ar_files (approval_request_of req it)) =
        {file_item_of (fid, meta) | fid meta. hm_get (tr_files req) fid = Some meta}
    \<and> (\<forall>it'. is_iteration (tr_files req) it' \<longrightarrow> approval_request_of req it' = approval_request_of req it)
    \<and> (\<forall>fid meta. fi_size (file_item_of (fid, meta)) =
        (if uint (fm_size meta) < 2 ^ 63 then uint (fm_size meta) else uint (fm_size meta) - 2 ^ 64))"
proof -
  have d: "distinct (map fi_id (map file_item_of xs))" if "is_iteration (tr_files req) xs" for xs
    using that by (simp add: is_iteration_def file_item_of_def comp_def)
  have s: "set (map file_item_of xs) = {file_item_of (fid, meta) | fid meta. hm_get (tr_files req) fid = Some meta}"
    if "is_iteration (tr_files req) xs" for xs
    using is_iteration_set [OF that] by auto
  have "approval_request_of req it' = approval_request_of req it" if "is_iteration (tr_files req) it'" for it'
    using sort_key_unique [OF _ d [OF that] d [OF assms]] s [OF that] s [OF assms]
    by (simp add: approval_request_of_def)
  moreover have "distinct (map fi_id (sort_key fi_id (map file_item_of it)))"
    by (rule sort_key_distinct [OF d [OF assms]])
  moreover have "fi_size (file_item_of (fid, meta)) =
      (if uint (fm_size meta) < 2 ^ 63 then uint (fm_size meta) else uint (fm_size meta) - 2 ^ 64)" for fid meta
    using sint_64 by (simp add: file_item_of_def)
  ultimately show ?thesis
    using s [OF assms] unfolding approval_request_of_def by simp
qed

lemma contains_str_middle: "contains_str s pat \<Longrightarrow> contains_str (a @ s @ b) pat"
  unfolding contains_str_iff by (metis append.assoc)

lemma status_message_lengths:
  "length (status_message 403) = 31" "length (status_message 408) = 49"
  "length (status_message 409) = 56" "length msg_blocked = 79"
  by (simp_all add: status_message_def msg_rejected_def msg_timeout_def msg_busy_def msg_blocked_def
      utf8_def utf8_char_def)

text \<open>One byte of the marker, 0xAC, is in none of the refusals.\<close>

lemma marker_byte: "char_of (172 :: nat) \<in> set mismatch_marker"
  by (simp add: mismatch_marker_def utf8_def utf8_char_def)

lemma refusal_bytes:
  "code \<in> {403, 408, 409} \<Longrightarrow> char_of (172 :: nat) \<notin> set (status_message code)"
  by (elim insertE emptyE; simp add: status_message_def msg_rejected_def msg_timeout_def msg_busy_def
      utf8_def utf8_char_def char_of_eq_byte)

lemma contains_str_set: "contains_str s pat \<Longrightarrow> set pat \<subseteq> set s"
  by (auto simp: contains_str_iff)

text \<open>
  A certificate that does not match reaches the user as a blocked connection however the
  error is wrapped on its way, while a rejection, a timeout and a busy receiver keep their own
  messages, all different.
\<close>

theorem failure_messages:
  "send_failure_message (a @ msg_mismatch h @ b) = msg_blocked
    \<and> (\<forall>code \<in> {403, 408, 409}. send_failure_message (status_message code) = status_message code)
    \<and> distinct [msg_blocked, status_message 403, status_message 408, status_message 409]"
proof (intro conjI)
  show "send_failure_message (a @ msg_mismatch h @ b) = msg_blocked"
    using contains_str_middle [OF msg_mismatch_marked] by (simp add: send_failure_message_def)
  show "\<forall>code \<in> {403, 408, 409}. send_failure_message (status_message code) = status_message code"
    using contains_str_set marker_byte refusal_bytes by (fastforce simp: send_failure_message_def)
  show "distinct [msg_blocked, status_message 403, status_message 408, status_message 409]"
    using status_message_lengths by (auto dest: arg_cong [where f = length])
qed

section \<open>One transfer at a time\<close>

text \<open>
  \<open>SENDING\<close> holds the abort handle of the running job.  A call of \<open>send_files\<close> looks at it,
  spawns its job and stores the handle, and clears it when the job is over; \<open>send_cancel\<close> takes
  the handle and aborts.  Nothing holds the lock from one of these to the next.
\<close>

record sending =
  sl_slot :: "nat option"
  sl_passed :: "nat set"
  sl_running :: "nat set"
  sl_aborted :: "nat set"

datatype slot_event = Sl_check nat | Sl_store nat | Sl_finish nat | Sl_cancel

definition send_cancel :: "sending \<Rightarrow> sending" where
  "send_cancel s = (case sl_slot s of
       None \<Rightarrow> s
     | Some j \<Rightarrow> s\<lparr>sl_slot := None, sl_aborted := insert j (sl_aborted s)\<rparr>)"

fun slot_exec :: "sending \<Rightarrow> slot_event \<Rightarrow> sending option" where
  "slot_exec s (Sl_check j) =
     (if j \<in> sl_passed s \<union> sl_running s then None
      else if sl_slot s = None then Some (s\<lparr>sl_passed := insert j (sl_passed s)\<rparr>) else Some s)"
| "slot_exec s (Sl_store j) =
     (if j \<in> sl_passed s
      then Some (s\<lparr>sl_slot := Some j, sl_passed := sl_passed s - {j}, sl_running := insert j (sl_running s)\<rparr>)
      else None)"
| "slot_exec s (Sl_finish j) =
     (if j \<in> sl_running s then Some (s\<lparr>sl_slot := None, sl_running := sl_running s - {j}\<rparr>) else None)"
| "slot_exec s Sl_cancel = Some (send_cancel s)"

definition slot_step :: "sending \<Rightarrow> slot_event \<Rightarrow> sending \<Rightarrow> bool" where
  "slot_step s e s' \<longleftrightarrow> slot_exec s e = Some s'"

definition slot_init :: sending where
  "slot_init = \<lparr>sl_slot = None, sl_passed = {}, sl_running = {}, sl_aborted = {}\<rparr>"

text \<open>A transfer is begun only when the one before has reported its end.\<close>

fun one_by_one :: "sending \<Rightarrow> slot_event \<Rightarrow> bool" where
  "one_by_one s (Sl_check j) \<longleftrightarrow> sl_passed s = {} \<and> sl_running s = {} \<and> j \<notin> sl_aborted s"
| "one_by_one s _ \<longleftrightarrow> True"

definition slot_ok :: "sending \<Rightarrow> bool" where
  "slot_ok s \<longleftrightarrow> (\<exists>j. sl_passed s = {j} \<and> sl_running s = {} \<and> sl_slot s = None \<and> j \<notin> sl_aborted s)
     \<or> (\<exists>j. sl_passed s = {} \<and> sl_running s = {j}
          \<and> (if j \<in> sl_aborted s then sl_slot s = None else sl_slot s = Some j))
     \<or> sl_passed s = {} \<and> sl_running s = {} \<and> sl_slot s = None"

lemma slot_ok_step: "slot_ok s \<Longrightarrow> one_by_one s e \<Longrightarrow> slot_step s e s' \<Longrightarrow> slot_ok s'"
  by (cases e) (auto simp: slot_step_def slot_ok_def send_cancel_def split: if_splits option.splits)

interpretation sending_slot: guarded_invariant slot_step one_by_one slot_ok
  by unfold_locales (rule slot_ok_step)


text \<open>
  Otherwise the check does not keep transfers apart. Two calls that both look before either
  stores run at once; and a transfer begun right after a cancel loses its handle when the
  cancelled one ends, so that a later cancel does nothing while it runs on.
\<close>

theorem sending_check_races:
  "(\<exists>s. run slot_step slot_init [Sl_check 1, Sl_check 2, Sl_store 1, Sl_store 2] s \<and> sl_running s = {1, 2})
   \<and> (\<exists>s. run slot_step slot_init
         [Sl_check 1, Sl_store 1, Sl_cancel, Sl_check 2, Sl_store 2, Sl_finish 1, Sl_cancel] s
        \<and> sl_running s = {2} \<and> 2 \<notin> sl_aborted s)"
  by (auto simp: run_Cons_iff slot_step_def slot_init_def send_cancel_def)

end
