(* ===== verification/Examples.thy ===== *)
theory Examples
  imports Recv_Races Recv_Files Node
begin

text \<open>
  The properties of the other theories at concrete inputs: for each one an example in which
  its assumptions hold and its conclusion says something.
\<close>

section \<open>The receiver\<close>

text \<open>One transfer of one file, complete, on the receiver of \<open>Recv_Races\<close>.\<close>

definition one_upload :: "event list" where
  "one_upload = [upload_event 1 ''A'' ''0'', E_name 1, E_create 1 True,
     E_frame 1 (Data ''hi'') Written True, E_end 1 True True, E_settle 1]"

definition one_transfer_events :: "event list" where
  "one_transfer_events = session_opening 0 ''A'' ''A'' @ one_upload"

lemma run_guarded_Cons:
  "run (guarded (step fsl tv cfg) g) s (e # es) t \<longleftrightarrow>
    g s e \<and> (case exec fsl tv cfg s e of None \<Rightarrow> False | Some s' \<Rightarrow> run (guarded (step fsl tv cfg) g) s' es t)"
  by (auto simp: run_Cons_iff guarded_def step_iff_exec split: option.split)

lemma event_guards [simp]:
  "timely s (upload_event t sid fid)" "fresh_create s (upload_event t sid fid)"
  by (simp_all add: upload_event_def)

lemmas demo_exec = demo_name_taken exec_demo demo_defs demo_save on_prepare_def prepare_parse_def prepare_claim_def
  on_ask_def on_answer_def approval_refusal_def on_trust_def ts_add_def on_open_def

lemma one_transfer_run:
  "\<exists>s. run (step some_request tv some_config) some_server one_transfer_events s
    \<and> map sf_path (rv_saved s) = [''/d/a''] \<and> fs_read (rv_fs s) ''/d/a'' = Some ''hi'' \<and> rv_state s = Idle"
  unfolding one_transfer_events_def one_upload_def
  by (simp add: run_iff_exec_all exec_all_append exec_opening demo_exec)

theorem saved_files_confined_witness:
  "\<exists>s. run (step some_request (\<lambda>_. ''j'') some_config) some_server one_transfer_events s
    \<and> rv_saved s \<noteq> []
    \<and> (\<forall>sf \<in> set (rv_saved s). \<exists>n. path_components (sf_path sf) =
        path_components ''/d'' @ [n] \<and> n \<noteq> ''..'' \<and> CHR ''/'' \<notin> set n)"
proof -
  from one_transfer_run [of "\<lambda>_. ''j''"] obtain s where
    r: "run (step some_request (\<lambda>_. ''j'') some_config) some_server one_transfer_events s"
    and p: "map sf_path (rv_saved s) = [''/d/a'']" by (elim exE conjE)
  have ne: "rv_saved s \<noteq> []" using p by force
  have d: "rc_save_dir some_config = ''/d''" by (simp add: some_config_def)
  note c = saved_files_confined [OF r [unfolded some_server_def] fs_ok_empty, unfolded d]
  show ?thesis by (intro exI conjI) (rule r, rule ne, rule c)
qed

theorem no_approval_no_effect_witness:
  "\<exists>s. run (step some_request (\<lambda>_. ''j'') some_config) some_server
      [E_prepare 0 (Some ''A''), E_ask 0, E_prepare 1 (Some ''B''), E_answer 0 (Answer False)] s
    \<and> sv_tasks s 0 = Some (T_done (status 403)) \<and> sv_tasks s 1 = Some (T_done (status 409))
    \<and> rv_fs s = fs_empty \<and> rv_saved s = []"
proof -
  let ?es = "[E_prepare 0 (Some ''A''), E_ask 0, E_prepare 1 (Some ''B''), E_answer 0 (Answer False)]"
  have "\<exists>s. run (step some_request (\<lambda>_. ''j'') some_config) some_server ?es s
      \<and> sv_tasks s 0 = Some (T_done (status 403)) \<and> sv_tasks s 1 = Some (T_done (status 409))"
    by (simp add: run_iff_exec_all demo_exec)
  then obtain s where r: "run (step some_request (\<lambda>_. ''j'') some_config) some_server ?es s"
    and t: "sv_tasks s 0 = Some (T_done (status 403))" "sv_tasks s 1 = Some (T_done (status 409))"
    by blast
  with no_approval_no_effect [OF r [unfolded some_server_def]] show ?thesis by auto
qed

theorem one_transfer_at_a_time_witness:
  "\<exists>s p. run (guarded (step some_request (\<lambda>_. ''j'') some_config) timely) some_server
      (one_transfer_events @ [E_prepare 2 (Some ''B''), E_ask 2]) s
    \<and> sv_tasks s 2 = Some (T_asked p (prepare_request (rv_trust s) p)) \<and> rv_state s = Pending
    \<and> (\<forall>t u x y p q. sv_tasks s t = Some x \<and> asking x = Some p \<and>
          sv_tasks s u = Some y \<and> asking y = Some q \<longrightarrow> t = u)"
proof -
  let ?r = "\<lambda>s. run (guarded (step some_request (\<lambda>_. ''j'') some_config) timely) some_server
      (one_transfer_events @ [E_prepare 2 (Some ''B''), E_ask 2]) s"
  have "\<exists>s p. ?r s \<and> sv_tasks s 2 = Some (T_asked p (prepare_request (rv_trust s) p)) \<and> rv_state s = Pending"
    unfolding one_transfer_events_def one_upload_def session_opening_def
    by (simp add: run_guarded_Cons demo_exec)
  then obtain s p where r: "?r s" and t: "sv_tasks s 2 = Some (T_asked p (prepare_request (rv_trust s) p))"
    "rv_state s = Pending"
    by blast
  with one_transfer_at_a_time [OF r [unfolded some_server_def]] show ?thesis by blast
qed

definition second_transfer :: "event list" where
  "second_transfer = [E_prepare 2 (Some ''B''), E_ask 2, E_answer 2 (Answer True),
     E_trust 2 None True W_ok, E_open 2 ''B'' (\<lambda>_. ''k''), upload_event 3 ''B'' ''0'',
     E_name 3, E_create 3 True, E_frame 3 (Data ''yo'') Written True]"


theorem dropped_request_blocks_witness:
  "\<exists>s. run (step some_request (\<lambda>_. ''j'') some_config) some_server
      [E_prepare 0 (Some ''A''), E_ask 0, E_drop 0, E_prepare 1 (Some ''B'')] s
    \<and> rv_state s = Pending \<and> sv_tasks s 1 = Some (T_done (status 409))"
proof -
  let ?es = "[E_prepare 0 (Some ''A''), E_ask 0, E_drop 0, E_prepare 1 (Some ''B'')]"
  have "\<exists>s. run (step some_request (\<lambda>_. ''j'') some_config) some_server ?es s
      \<and> sv_tasks s 1 = Some (T_done (status 409))"
    by (simp add: run_iff_exec_all demo_exec)
  then obtain s where r: "run (step some_request (\<lambda>_. ''j'') some_config) some_server ?es s"
    and t: "sv_tasks s 1 = Some (T_done (status 409))"
    by blast
  have "\<exists>p. prepare_parse some_request (Some ''A'') = Inr p"
    by (simp add: prepare_parse_def some_request_def)
  then obtain p where "prepare_parse some_request (Some ''A'') = Inr p" by blast
  from dropped_request_blocks [OF this r [unfolded some_server_def]] r t show ?thesis by blast
qed

section \<open>Handlers one by one\<close>

definition some_session :: session where
  "some_session = new_session ''A'' (\<lambda>_. ''k'')
     \<lparr>pr_info = some_peer ''A'', pr_files = fmupd ''0'' \<lparr>fm_name = ''a'', fm_size = 2, fm_mime = ''''\<rparr> fmempty\<rparr>"

definition some_query :: "string option" where
  "some_query = strip_prefix ''?'' (upload_query ''A'' ''0'' ''k'')"

definition good_body :: upload_env where
  "good_body = \<lparr>ue_create = True, ue_frames = [(Data ''h'', Written), (Trailers, Written), (Data ''i'', Written)],
     ue_flush = True, ue_remove = True\<rparr>"

lemma some_query_params: "upload_params some_query = Some (''A'', ''0'', ''k'')"
proof -
  have "query_safe ''k''" by (rule query_safe_ascii) simp
  from upload_params_query [OF safe_names(3) safe_names(1) this] show ?thesis by (simp add: some_query_def)
qed

lemma some_upload:
  "handle_upload some_config good_body some_query (Sending some_session, fs_empty, []) =
    Some (status 200, Idle, snd (save_body True (ue_frames good_body) True True ''/d''
        \<lparr>fm_name = ''a'', fm_size = 2, fm_mime = ''''\<rparr> fs_empty), [\<lparr>sf_path = ''/d/a'', sf_from = ''A''\<rparr>])"
  by (simp add: handle_upload_def some_query_params some_session_def good_body_def demo_exec save_body_def)

theorem upload_answer_witness:
  "\<exists>r st' g sv'. handle_upload some_config good_body some_query (Sending some_session, fs_empty, []) =
      Some (r, st', g, sv') \<and> rs_status r = 200"
proof -
  have k: "state_keys (Sending some_session)" by (simp add: some_session_def)
  obtain r st' g sv' where
    h: "handle_upload some_config good_body some_query (Sending some_session, fs_empty, []) = Some (r, st', g, sv')"
    and iff: "rs_status r = 200 \<longleftrightarrow> (\<exists>s meta. Sending some_session = Sending s \<and> s_id s = ''A'' \<and> ''k'' \<noteq> ''''
        \<and> hm_get (s_tokens s) ''0'' = Some ''k'' \<and> ''0'' |\<notin>| s_received s
        \<and> hm_get (s_files s) ''0'' = Some meta
        \<and> ue_create good_body \<and> ue_flush good_body \<and> (\<forall>x \<in> set (ue_frames good_body). frame_ok x)
        \<and> of_nat (length (body_bytes (ue_frames good_body))) = fm_size meta)"
    using upload_answer [OF fs_ok_empty k some_query_params, of some_config good_body "[]"]
    by (elim exE conjE) (rule that)
  have "rs_status r = 200" unfolding iff by (simp add: some_session_def good_body_def)
  with h show ?thesis by (intro exI conjI)
qed

definition some_env :: "approval \<Rightarrow> prepare_env" where
  "some_env a = \<lparr>pe_approval = a, pe_now = Some ''n'', pe_mkdir = True, pe_write = W_ok, pe_sid = ''A'', pe_tok = (\<lambda>_. ''k'')\<rparr>"

theorem prepare_answer_witness:
  "\<exists>r req st ts f. handle_prepare some_request (\<lambda>_. ''j'') (some_env (Answer True)) (Some ''A'')
        (Idle, \<lparr>ts_path = ''/c/t'', ts_devices = fmempty\<rparr>, fs_empty) = (r, req, st, ts, f)
      \<and> rs_status r = 200 \<and> ts_contains ts ''A''"
proof -
  obtain r req st ts f where
    h: "handle_prepare some_request (\<lambda>_. ''j'') (some_env (Answer True)) (Some ''A'')
        (Idle, \<lparr>ts_path = ''/c/t'', ts_devices = fmempty\<rparr>, fs_empty) = (r, req, st, ts, f)"
    by (metis prod_cases5)
  obtain p where p: "prepare_parse some_request (Some ''A'') = Inr p"
    and fp: "pi_fingerprint (pr_info p) = ''A''"
    by (simp add: prepare_parse_def some_request_def some_peer_def)
  note a = prepare_answer [OF h]
  have ok: "rs_status r = 200" using a p by (auto simp: some_env_def)
  then have "ts_contains ts ''A''" using a p fp by (auto simp: some_env_def)
  with h ok show ?thesis by (intro exI conjI)
qed

definition some_receiver :: receiver where
  "some_receiver = \<lparr>rv_state = Idle, rv_trust = \<lparr>ts_path = ''/c/t'', ts_devices = fmempty\<rparr>,
     rv_fs = fs_empty, rv_saved = []\<rparr>"

theorem sessions_refine_protocol_witness:
  "\<exists>r1 r2 s. run (serve_step some_request (\<lambda>_. ''j'') some_config) some_receiver
      [(Call_prepare ((some_env (Answer True))\<lparr>pe_now := None\<rparr>) (Some ''A''), r1), (Call_upload good_body some_query, r2)] s
    \<and> run spec_step S_idle
      [(Call_prepare ((some_env (Answer True))\<lparr>pe_now := None\<rparr>) (Some ''A''), r1), (Call_upload good_body some_query, r2)] S_idle
    \<and> rs_status r1 = 200 \<and> rs_status r2 = 200"
proof -
  let ?e = "(some_env (Answer True))\<lparr>pe_now := None\<rparr>"
  have 1: "serve some_request (\<lambda>_. ''j'') some_config (Call_prepare ?e (Some ''A'')) some_receiver =
      Some (prepare_response some_session, some_receiver\<lparr>rv_state := Sending some_session\<rparr>)"
    by (simp add: handle_prepare_def demo_exec some_env_def some_session_def some_receiver_def)
  have 2: "\<exists>s. serve some_request (\<lambda>_. ''j'') some_config (Call_upload good_body some_query)
        (some_receiver\<lparr>rv_state := Sending some_session\<rparr>) = Some (status 200, s) \<and> rv_state s = Idle"
    using some_upload by (simp add: some_receiver_def)
  then obtain s where s: "serve some_request (\<lambda>_. ''j'') some_config (Call_upload good_body some_query)
        (some_receiver\<lparr>rv_state := Sending some_session\<rparr>) = Some (status 200, s)" "rv_state s = Idle"
    by (elim exE conjE)
  let ?ls = "[(Call_prepare ?e (Some ''A''), prepare_response some_session), (Call_upload good_body some_query, status 200)]"
  have r: "run (serve_step some_request (\<lambda>_. ''j'') some_config) some_receiver ?ls s"
    using 1 s(1) by (auto simp: run_Cons_iff serve_step_def)
  have "state_ok (rv_state some_receiver)" by (simp add: some_receiver_def)
  from sessions_refine_protocol [OF r this] s(2)
  have "run spec_step S_idle ?ls S_idle" by (simp add: some_receiver_def)
  moreover have "rs_status (prepare_response some_session) = 200" "rs_status (status 200) = 200"
    by (simp_all add: prepare_response_def)
  ultimately show ?thesis using r by - (rule exI, rule exI, rule exI, intro conjI)
qed

section \<open>Files\<close>

definition some_meta :: file_meta where
  "some_meta = \<lparr>fm_name = ''a'', fm_size = 2, fm_mime = ''''\<rparr>"

definition some_frames :: "(frame \<times> chunk_outcome) list" where
  "some_frames = [(Data ''h'', Written), (Data ''i'', Written)]"

lemmas save_demo = save_body_def some_meta_def some_frames_def demo_save

theorem save_body_success_witness:
  "\<exists>g. save_body True some_frames True True ''/d'' some_meta fs_empty = (Inr ''/d/a'', g)
    \<and> fs_read g ''/d/a'' = Some ''hi'' \<and> in_folder ''/d'' ''/d/a''"
proof -
  have "\<exists>g. save_body True some_frames True True ''/d'' some_meta fs_empty = (Inr ''/d/a'', g)"
    by (simp add: save_demo)
  then obtain g where g: "save_body True some_frames True True ''/d'' some_meta fs_empty = (Inr ''/d/a'', g)" by blast
  from save_body_success [OF fs_ok_empty g] g show ?thesis by (auto simp: some_frames_def)
qed

theorem save_body_failure_clean_witness:
  "\<exists>e g. save_body True [(Data ''h'', Written)] True True ''/d'' some_meta fs_empty = (Inl e, g)
    \<and> fs_read g ''/d/a'' = None"
proof -
  have "\<exists>e g. save_body True [(Data ''h'', Written)] True True ''/d'' some_meta fs_empty = (Inl e, g)"
    by (simp add: save_demo)
  then obtain e g where g: "save_body True [(Data ''h'', Written)] True True ''/d'' some_meta fs_empty = (Inl e, g)"
    by blast
  from save_body_failure_clean [OF fs_ok_empty g] have "fs_read g ''/d/a'' = None"
    by (simp add: fs_read_def fs_empty_def)
  with g show ?thesis by blast
qed

theorem save_body_delivers_witness:
  "\<exists>g. save_body True some_frames True False ''/d'' some_meta fs_empty = (Inr ''/d/a'', g)"
proof -
  have n: "save_name some_meta = ''a''" and st: "split_stem ''a'' = (''a'', '''')"
  proof -
    have "from_utf8_lossy ''a'' = ''a''"
      by (rule from_utf8_lossy_valid) (simp add: valid_utf8_ascii_Cons valid_utf8.simps [of "[]"])
    then show "save_name some_meta = ''a''" by (simp add: save_name_def some_meta_def file_name_def path_components_def)
    show "split_stem ''a'' = (''a'', '''')" by (simp add: split_stem_def rfind_def rsplit_once_def)
  qed
  have f: "\<forall>x \<in> set some_frames. frame_ok x" "of_nat (length (body_bytes some_frames)) = fm_size some_meta"
    by (simp_all add: some_frames_def some_meta_def)
  from save_body_delivers [OF fs_ok_empty f st [folded n], where dir = "''/d''" and remove_ok = False]
  show ?thesis by (auto simp: n path_join_def fs_exists_def fs_empty_def)
qed

section \<open>Trust and identity\<close>

definition some_trusted :: "(string, trusted_device) hash_map" where
  "some_trusted = fmupd ''A'' \<lparr>td_alias = ''a'', td_trusted_at = ''n''\<rparr> fmempty"

lemma save_ok: "ts_save tv True W_ok ts f = (Inr (), snd (fs_write_file W_ok f (ts_path ts) (tv (ts_devices ts))))"
  using fs_write_file_ok [of W_ok f "ts_path ts" "tv (ts_devices ts)"]
  by (cases "fs_write_file W_ok f (ts_path ts) (tv (ts_devices ts))") (simp add: ts_save_def)

lemma some_add:
  "ts_add tv (Some ''n'') True W_ok ''A'' ''a'' \<lparr>ts_path = p, ts_devices = fmempty\<rparr> f =
    (Inr (), \<lparr>ts_path = p, ts_devices = some_trusted\<rparr>, snd (fs_write_file W_ok f p (tv some_trusted)))"
  apply (simp only: ts_add_def ts_contains_def save_ok some_trusted_def)
  apply (simp only: trust_store.simps fmdom'_empty if_False option.case Let_def prod.case)
  apply simp
  done

theorem trust_store_persistent_witness:
  "\<exists>ts g. ts_run (\<lambda>_. ''j'') [Ts_add (Some ''n'') True W_ok ''A'' ''a''] (\<lparr>ts_path = ''/c/trusted.json'', ts_devices = fmempty\<rparr>, fs_empty)
      = Some (ts, g)
    \<and> ts_open (\<lambda>_. Some some_trusted) False g ''/c'' = Inr ts \<and> Collect (ts_contains ts) = {''A''}"
proof -
  let ?ts = "\<lparr>ts_path = ''/c/trusted.json'', ts_devices = fmempty\<rparr>"
  let ?ts' = "\<lparr>ts_path = ''/c/trusted.json'', ts_devices = some_trusted\<rparr>"
  have o: "ts_open (\<lambda>_. Some some_trusted) False fs_empty ''/c'' = Inr ?ts"
    by (simp add: ts_open_def fs_read_def fs_empty_def path_join_def)
  have "\<exists>g. ts_run (\<lambda>_. ''j'') [Ts_add (Some ''n'') True W_ok ''A'' ''a''] (?ts, fs_empty) = Some (?ts', g)"
    by (simp add: some_add)
  then obtain g where r: "ts_run (\<lambda>_. ''j'') [Ts_add (Some ''n'') True W_ok ''A'' ''a''] (?ts, fs_empty) =
      Some (?ts', g)"
    by blast
  have s: "(\<lambda>_. Some some_trusted) ((\<lambda>_. ''j'') (ts_devices ?ts')) = Some (ts_devices ?ts')" by simp
  have c: "Collect (ts_contains ?ts') = {''A''}" by (auto simp: ts_contains_def some_trusted_def)
  show ?thesis
    by (rule exI [of _ ?ts'], rule exI [of _ g], intro conjI, rule r, rule trust_store_persistent [OF o r s, THEN conjunct1], rule c)
qed

theorem trust_add_first_approval_witness:
  "\<exists>r ts g. ts_add (\<lambda>_. ''j'') (Some ''m'') True W_ok ''A'' ''b'' \<lparr>ts_path = ''/t'', ts_devices = some_trusted\<rparr> fs_empty
      = (r, ts, g) \<and> r = Inr () \<and> ts_devices ts = some_trusted"
proof -
  obtain r ts g where a: "ts_add (\<lambda>_. ''j'') (Some ''m'') True W_ok ''A'' ''b''
      \<lparr>ts_path = ''/t'', ts_devices = some_trusted\<rparr> fs_empty = (r, ts, g)"
    by (metis prod_cases3)
  have "ts_contains \<lparr>ts_path = ''/t'', ts_devices = some_trusted\<rparr> ''A''"
    by (simp add: ts_contains_def some_trusted_def)
  with trust_add_first_approval [OF a] have "r = Inr () \<and> ts_devices ts = some_trusted" by auto
  with a show ?thesis by blast
qed

theorem trust_list_complete_sorted_witness:
  "set (ts_all [(''A'', \<lparr>td_alias = ''a'', td_trusted_at = ''n''\<rparr>)]) =
      {(fp, d). hm_get some_trusted fp = Some d}
    \<and> length (ts_all [(''A'', \<lparr>td_alias = ''a'', td_trusted_at = ''n''\<rparr>)]) = hm_len some_trusted"
proof -
  have "is_iteration (ts_devices \<lparr>ts_path = ''/t'', ts_devices = some_trusted\<rparr>)
      [(''A'', \<lparr>td_alias = ''a'', td_trusted_at = ''n''\<rparr>)]"
    by (auto simp: is_iteration_def some_trusted_def)
  from trust_list_complete_sorted [OF this] show ?thesis by simp
qed

definition some_identity_io :: identity_io where
  "some_identity_io = \<lparr>ii_cert_fault = False, ii_key_fault = False, ii_mkdir_ok = True,
     ii_generated = Some (''D'', ''C'', ''K''), ii_cert_write = W_ok, ii_key_write = W_ok\<rparr>"

theorem identity_stable_witness:
  "\<exists>ident g. load_or_create (\<lambda>s. s) (\<lambda>s. s) (\<lambda>_. Some (Some ''D'')) some_identity_io fs_empty ''/c'' = (Inr ident, g)
    \<and> load_or_create (\<lambda>s. s) (\<lambda>s. s) (\<lambda>_. Some (Some ''D'')) some_identity_io g ''/c'' = (Inr ident, g)
    \<and> id_fingerprint ident = ''D''"
proof -
  have "\<exists>ident g. load_or_create (\<lambda>s. s) (\<lambda>s. s) (\<lambda>_. Some (Some ''D'')) some_identity_io fs_empty ''/c'' = (Inr ident, g)"
    by (simp add: load_or_create_def some_identity_io_def fs_exists_def fs_empty_def fs_write_file_def Let_def
        split: prod.split)
  then obtain ident g where
    i: "load_or_create (\<lambda>s. s) (\<lambda>s. s) (\<lambda>_. Some (Some ''D'')) some_identity_io fs_empty ''/c'' = (Inr ident, g)"
    by blast
  have "valid_utf8 ''K''" by (simp add: valid_utf8_ascii_Cons valid_utf8.simps [of "[]"])
  moreover have "\<not> fs_exists fs_empty p" for p by (simp add: fs_exists_def fs_empty_def)
  ultimately have "load_or_create (\<lambda>s. s) (\<lambda>s. s) (\<lambda>_. Some (Some ''D'')) some_identity_io g ''/c'' = (Inr ident, g)
      \<and> id_fingerprint ident = fingerprint_of (\<lambda>s. s) (\<lambda>s. s) ''D''"
    by (intro identity_stable [OF i]) (simp_all add: some_identity_io_def)
  with i show ?thesis by (auto simp: fingerprint_of_def)
qed

section \<open>Queries\<close>

theorem url_decode_pct_roundtrip_witness:
  "url_decode (pct_encode True (\<lambda>c. c \<in> set ''ab'') ''a b'') = Some ''a b''"
proof -
  have "valid_utf8 ''a b''" by (simp add: valid_utf8_ascii_Cons valid_utf8.simps [of "[]"])
  moreover have "byte c < 128 \<and> c \<noteq> CHR ''%'' \<and> c \<noteq> CHR ''+''" if "c \<in> set ''ab''" for c
    using that by auto
  ultimately show ?thesis by (intro url_decode_pct_roundtrip) blast+
qed

theorem query_params_ascii_total_witness: "\<exists>m. query_params ''a=%41&b=%+5'' = Some m"
  using query_params_ascii_total [of "''a=%41&b=%+5''"] by auto

theorem query_roundtrip_witness:
  "upload_params (strip_prefix ''?'' (upload_query ''A'' ''0'' ''B'')) = Some (''A'', ''0'', ''B'')"
  using query_roundtrip [OF safe_names(3) safe_names(1) safe_names(4)] by blast

section \<open>The sender and its jobs\<close>

text \<open>A receiver that presents the certificate \<open>''F''\<close> and accepts everything.\<close>

definition some_end :: endpoint where
  "some_end = \<lparr>ep_cert = ''F'', ep_signed = True,
     ep_reply = (\<lambda>rq. Some (200, if hr_prepare rq \<noteq> None \<or> hr_info rq \<noteq> None then Some ''R'' else None)),
     ep_polled = (\<lambda>rq. length (hr_chunks rq))\<rparr>"

definition some_accept :: prepare_upload_response where
  "some_accept = \<lparr>ps_session_id = ''A'', ps_tokens = fmupd ''f1'' ''k'' fmempty\<rparr>"

definition some_target :: send_target where
  "some_target = \<lparr>st_ip = ''1'', st_port = 7, st_fingerprint = ''F'', st_alias = ''b''\<rparr>"

definition some_job :: job_env where
  "some_job = \<lparr>je_prepare = Some (Fresh some_end),
     je_upload = (\<lambda>_. Upload_runs (Pooled some_end) (Some ([''h'', ''i''], False)) (Pooled some_end)),
     je_cancel = Fresh some_end\<rparr>"

definition some_files :: "string \<Rightarrow> u64 option" where
  "some_files _ = Some 2"

abbreviation some_sending :: "job_env \<Rightarrow> send_event list \<times> (endpoint \<times> http_request) list" where
  "some_sending env \<equiv> send_files (\<lambda>c. c) (\<lambda>_. True) (\<lambda>_. Some some_accept) (\<lambda>_. ''e'') ''p'' some_files
     False (Some (some_peer ''S'')) env some_target [''/a'']"

lemmas sender_demo = client_request_def connect_def verify_server_cert_def verifier_for_def client_for_def
  sender_request_def sender_new_def prepare_upload_def upload_file_def cancel_def some_end_def plain_request_def

lemma f1: "dec_string (Suc 0) = ''1''"
  by (simp add: dec_string.simps digit_char_def char_of_eq_byte)

lemma some_sending_done:
  "se_phase (last (fst (some_sending some_job))) = Done"
  by (simp add: send_files_def send_job_def some_job_def sender_demo some_files_def some_accept_def
      some_target_def metas_of_def Let_def f1 split: prod.split)

theorem sender_pins_fingerprint_witness:
  "\<exists>sd rq. run (sender_step (\<lambda>c. c) (\<lambda>_. True) (\<lambda>_. Some some_accept)) (sender_new ''1:7'' ''F'' (some_peer ''S''))
      [[(some_end, rq)]] sd \<and> ep_cert some_end = ''F'' \<and> ep_signed some_end"
proof -
  let ?sd = "sender_new ''1:7'' ''F'' (some_peer ''S'')"
  let ?p = "prepare_upload (\<lambda>c. c) (\<lambda>_. True) (\<lambda>_. Some some_accept) ?sd (Fresh some_end) fmempty"
  have "\<exists>r sd rq. ?p = (r, sd, [(some_end, rq)])" by (simp add: sender_demo Let_def)
  then obtain r sd rq where "?p = (r, sd, [(some_end, rq)])" by (elim exE)
  then have r: "run (sender_step (\<lambda>c. c) (\<lambda>_. True) (\<lambda>_. Some some_accept)) ?sd [[(some_end, rq)]] sd"
    by (auto simp: run_Cons_iff intro: sender_step.intros)
  have "(some_end, rq) \<in> set (concat [[(some_end, rq)]])" by simp
  from sender_pins_fingerprint [OF r this] r show ?thesis by blast
qed

theorem exchange_info_authentic_witness:
  "exchange_info (\<lambda>c. c) (\<lambda>_. True) (\<lambda>_. Some (some_peer ''F'')) some_end ''1:7'' (some_peer ''S'') =
      Inr (some_peer ''F'')
    \<and> pi_fingerprint (some_peer ''F'') = ep_cert some_end"
proof -
  have e: "exchange_info (\<lambda>c. c) (\<lambda>_. True) (\<lambda>_. Some (some_peer ''F'')) some_end ''1:7'' (some_peer ''S'') =
      Inr (some_peer ''F'')"
    by (simp add: exchange_info_def sender_demo some_peer_def Let_def)
  from exchange_info_authentic [OF e] e show ?thesis by blast
qed

theorem done_means_delivered_witness:
  "\<exists>evs sent. some_sending some_job = (evs, sent) \<and> se_phase (last evs) = Done
    \<and> (\<exists>ep rq ups. sent = (ep, rq) # ups \<and> ep_cert ep = ''F'' \<and> length ups = 1)"
proof -
  obtain evs sent where s: "some_sending some_job = (evs, sent)" by fastforce
  then have d: "se_phase (last evs) = Done" using some_sending_done by simp
  obtain items self_info session ep rq b ups where
    i: "collect_items some_files 0 [''/a''] = Inr items" and e: "sent = (ep, rq) # ups"
    and c: "ep_cert ep = st_fingerprint some_target"
    and l: "list_all2 (upload_sent (\<lambda>c. c) (st_fingerprint some_target) (target_addr some_target) session) items ups"
    using done_means_delivered [OF s d] by blast
  from i have "length items = 1" by (auto simp: some_files_def)
  then have "length ups = 1" using list_all2_lengthD [OF l] by simp
  moreover have "ep_cert ep = ''F''" using c by (simp add: some_target_def)
  ultimately show ?thesis using s d e by blast
qed

theorem send_files_one_final_event_witness:
  "\<exists>pre final. fst (some_sending some_job) = pre @ [final] \<and> se_phase final = Done
    \<and> (\<forall>e \<in> set (tl pre). se_phase e = Uploading)"
proof -
  obtain pre final where f: "fst (some_sending some_job) = pre @ [final]"
    and u: "\<forall>e \<in> set (tl pre). se_phase e = Uploading"
    using send_files_one_final_event [of "\<lambda>c. c" "\<lambda>_. True" "\<lambda>_. Some some_accept" "\<lambda>_. ''e''" "''p''" some_files
        False "Some (some_peer ''S'')" some_job some_target "[''/a'']"] by blast
  have "se_phase final = Done" using some_sending_done f by simp
  with f u show ?thesis by blast
qed

definition aborted_job :: job_env where
  "aborted_job = some_job\<lparr>je_upload := (\<lambda>_. Upload_aborted [])\<rparr>"


theorem upload_progress_witness:
  "\<exists>r sd' sent ps. upload_file (\<lambda>c. c) (\<lambda>_. True) (sender_new ''1:7'' ''F'' (some_peer ''S'')) (Fresh some_end)
      ''A'' ''f1'' ''k'' (Some ([''h'', ''i''], False)) 2 = (r, sd', sent, ps)
    \<and> sorted (map unat ps) \<and> length ps = 2"
proof -
  let ?u = "upload_file (\<lambda>c. c) (\<lambda>_. True) (sender_new ''1:7'' ''F'' (some_peer ''S'')) (Fresh some_end)
      ''A'' ''f1'' ''k'' (Some ([''h'', ''i''], False)) 2"
  obtain r sd' sent ps where u: "?u = (r, sd', sent, ps)" by (metis prod_cases4)
  have "length (snd (snd (snd ?u))) = 2" by (simp add: sender_demo Let_def)
  with u have "length ps = 2" by simp
  moreover have "length (concat [''h'', ''i'']) < 2 ^ 64" by simp
  ultimately show ?thesis using upload_progress [OF u] u by blast
qed

theorem progress_throttled_witness:
  "\<exists>rs. rs = fst (report_progress 0 3 0 [1, 3]) \<and> 0 + 3 \<in> set rs \<and> sorted (map unat rs)"
proof -
  have "unat (0 :: u64) + unat (3 :: u64) < 2 ^ 64" "sorted_wrt (<) (map unat [1, 3 :: u64])"
    "\<And>t. t \<in> set [1, 3 :: u64] \<Longrightarrow> unat t \<le> unat (3 :: u64)" "(0 :: u64) \<le> 0"
    by auto
  from progress_throttled [OF this refl] show ?thesis by auto
qed

theorem approval_request_faithful_witness:
  "set (ar_files (approval_request_of
      \<lparr>tr_sender = some_peer ''A'', tr_files = fmupd ''0'' some_meta fmempty, tr_is_new_device = True\<rparr>
      [(''0'', some_meta)])) = {\<lparr>fi_id = ''0'', fi_name = ''a'', fi_size = 2\<rparr>}"
proof -
  let ?r = "\<lparr>tr_sender = some_peer ''A'', tr_files = fmupd ''0'' some_meta fmempty, tr_is_new_device = True\<rparr>"
  have "is_iteration (tr_files ?r) [(''0'', some_meta)]" by (auto simp: is_iteration_def)
  from approval_request_faithful [OF this] show ?thesis by (auto simp: file_item_of_def some_meta_def)
qed


section \<open>Discovery\<close>

text \<open>A device that hears the announcement of another: every datagram reads as that of \<open>''B''\<close>.\<close>

definition hears_B :: "string \<Rightarrow> wire_announcement option" where
  "hears_B _ = Some (wire_of_announcement (announcement_new (some_peer ''B'') True))"

definition listening :: discoverer where
  "listening = \<lparr>dc_self = some_peer ''A'', dc_devices = fmempty, dc_socket = Some 0, dc_reading = Some 0, dc_opened = 1\<rparr>"

definition sees_B :: discoverer where
  "sees_B = listening\<lparr>dc_devices := fmupd ''B'' \<lparr>dv_info = some_peer ''B'', dv_ip = 9, dv_last_seen = 5\<rparr> fmempty\<rparr>"

lemma hears_B_decode: "decode hears_B x = Some (announcement_new (some_peer ''B'') True)"
  by (rule decode_announcement_new) (simp add: hears_B_def)

lemma peer_names [simp]: "pi_fingerprint (some_peer fp) = fp" by (simp add: some_peer_def)

lemma hears_packet: "\<exists>out. handle_packet hears_B 5 (9, 7) '''' listening = (out, sees_B)
    \<and> ou_sent out = [(9, 7, announcement_new (some_peer ''A'') False)] \<and> ou_emit out = Some (dc_devices sees_B)"
  by (simp add: handle_packet_def hears_B_decode listening_def sees_B_def announcement_new_def Let_def)

theorem devices_are_last_announced_witness:
  "\<exists>out. run (dstep hears_B) listening [(Ev_packet 5 (9, 7) '''', out)] sees_B
    \<and> hm_get (retain_fresh 6 (dc_devices sees_B)) ''B'' =
        Some \<lparr>dv_info = some_peer ''B'', dv_ip = 9, dv_last_seen = 5\<rparr>"
proof -
  obtain out where "handle_packet hears_B 5 (9, 7) '''' listening = (out, sees_B)" using hears_packet by blast
  moreover have "dc_reading listening = Some 0" by (simp add: listening_def)
  ultimately have r: "run (dstep hears_B) listening [(Ev_packet 5 (9, 7) '''', out)] sees_B"
    using d_packet by (simp add: run_Cons_iff)
  have e: "dc_devices listening = fmempty" by (simp add: listening_def)
  have t: "List.map_filter (ev_time \<circ> fst) [(Ev_packet 5 (9, 7) '''', out)] = [5]"
    by (simp add: List.map_filter_simps)
  have "hm_get (retain_fresh 6 (dc_devices sees_B)) ''B'' =
      Some \<lparr>dv_info = some_peer ''B'', dv_ip = 9, dv_last_seen = 5\<rparr>"
    by (subst devices_are_last_announced [OF r e])
      (simp_all add: t last_heard_def List.map_filter_simps hears_B_decode announcement_new_def listening_def)
  with r show ?thesis by blast
qed


theorem answer_is_final_witness:
  "\<exists>out out' st'. handle_packet hears_B 5 (9, 7) '''' listening = (out, sees_B)
    \<and> ou_sent out = [(9, 7, announcement_new (some_peer ''A'') False)]
    \<and> handle_packet (\<lambda>_. Some (wire_of_announcement (announcement_new (some_peer ''A'') False))) 6 (3, 8) ''''
        (listening\<lparr>dc_self := some_peer ''B''\<rparr>) = (out', st')
    \<and> ou_sent out' = [] \<and> hm_get (dc_devices st') ''A'' = Some \<lparr>dv_info = some_peer ''A'', dv_ip = 3, dv_last_seen = 6\<rparr>"
proof -
  let ?reply = "\<lambda>_ :: string. Some (wire_of_announcement (announcement_new (some_peer ''A'') False))"
  obtain out where h: "handle_packet hears_B 5 (9, 7) '''' listening = (out, sees_B)"
    and s: "ou_sent out = [(9, 7, announcement_new (some_peer ''A'') False)]"
    using hears_packet by blast
  obtain out' st' where h': "handle_packet ?reply 6 (3, 8) '''' (listening\<lparr>dc_self := some_peer ''B''\<rparr>) = (out', st')"
    by fastforce
  have "(9, 7, announcement_new (some_peer ''A'') False) \<in> set (ou_sent out)" "length ('''' :: string) \<le> 4096"
    by (simp_all add: s)
  from answer_is_final [OF h this(1) refl this(2) h'] h h' s show ?thesis
    by (auto simp: listening_def)
qed

theorem announce_recovers_witness:
  "\<exists>out st out' st''. start True None (some_peer ''A'') = Some (out, st)
    \<and> run (dstep hears_B) st [(Ev_read_error, quiet)] (read_failed 0 st)
    \<and> dc_socket (read_failed 0 st) = None
    \<and> announce True None (read_failed 0 st) = (out', st'') \<and> (\<exists>k. dc_reading st'' = Some k)"
proof -
  have "\<exists>out st. start True None (some_peer ''A'') = Some (out, st) \<and> dc_reading st = Some 0 \<and> dc_socket st = Some 0"
    by (simp add: start_def bind_def bind_store_def bind_spawn_def announce_def current_or_rebind_def Let_def)
  then obtain out st where s: "start True None (some_peer ''A'') = Some (out, st)" and k: "dc_reading st = Some 0"
    "dc_socket st = Some 0"
    by blast
  have r: "run (dstep hears_B) st [(Ev_read_error, quiet)] (read_failed 0 st)"
    using d_error [OF k(1)] by (simp add: run_Cons_iff)
  obtain out' st'' where a: "announce True None (read_failed 0 st) = (out', st'')" by fastforce
  have "dc_socket (read_failed 0 st) = None" using k by (simp add: read_failed_def)
  with announce_recovers [OF s r a] s r a show ?thesis by blast
qed

end
