(* ===== verification/Recv_Protocol.thy ===== *)
theory Recv_Protocol
  imports Recv_Races
begin

text \<open>
  The session protocol as a specification for interleaved handlers: what the pieces do to the
  shared state of the receiver, one action at a time, and the proof that under the
  conditions of \<open>timely\<close> every run of the receiver is one of the protocol.
\<close>

section \<open>Actions\<close>

datatype action =
    A_none
  | A_claim
  | A_refuse
  | A_open string "string fset"
  | A_store string string
  | A_fail string
  | A_cancel string

text \<open>
  A stored file is still to come, or it was stored before: two requests for one file may both
  have passed the check before either was done.
\<close>

inductive protocol :: "spec_state \<Rightarrow> action \<Rightarrow> spec_state \<Rightarrow> bool" where
  p_none: "protocol a A_none a"
| p_claim: "protocol S_idle A_claim S_pending"
| p_refuse: "protocol S_pending A_refuse S_idle"
| p_open: "F \<noteq> {||} \<Longrightarrow> protocol S_pending (A_open sid F) (S_receiving sid F)"
| p_store: "R \<noteq> {|fid|} \<Longrightarrow> protocol (S_receiving sid R) (A_store sid fid) (S_receiving sid (R |-| {|fid|}))"
| p_last: "protocol (S_receiving sid {|fid|}) (A_store sid fid) S_idle"
| p_fail: "protocol (S_receiving sid R) (A_fail sid) S_idle"
| p_cancel: "protocol (S_receiving sid R) (A_cancel sid) S_idle"

text \<open>What a piece is for the protocol.\<close>

fun action_of :: "(string \<Rightarrow> prepare_upload_request option) \<Rightarrow> server \<Rightarrow> event \<Rightarrow> action" where
  "action_of fsl s (E_prepare t body) = (case prepare_parse fsl body of
     Inr p \<Rightarrow> if rv_state s = Idle then A_claim else A_none | Inl r \<Rightarrow> A_none)"
| "action_of fsl s (E_answer t a) = (if a = Answer True then A_none else A_refuse)"
| "action_of fsl s (E_open t sid tok) = (case sv_tasks s t of
     Some (T_trusted p) \<Rightarrow> A_open sid (fmdom (pr_files p)) | _ \<Rightarrow> A_none)"
| "action_of fsl s (E_settle t) = (case sv_tasks s t of
     Some (T_saved sid fid al target) \<Rightarrow> A_store sid fid
   | Some (T_failed sid fid removing) \<Rightarrow> A_fail sid | _ \<Rightarrow> A_none)"
| "action_of fsl s (E_cancel t q) = (case rv_state s of
     Sending ses \<Rightarrow> (case query_map q of
         Some m \<Rightarrow> if param_or_default m ''sessionId'' = s_id ses then A_cancel (s_id ses) else A_none
       | None \<Rightarrow> A_none)
   | _ \<Rightarrow> A_none)"
| "action_of fsl s _ = A_none"

definition observed_step ::
    "(string \<Rightarrow> prepare_upload_request option) \<Rightarrow> ((string, trusted_device) hash_map \<Rightarrow> string)
      \<Rightarrow> recv_config \<Rightarrow> server \<Rightarrow> event \<times> action \<Rightarrow> server \<Rightarrow> bool" where
  "observed_step fsl tv cfg s l s' \<longleftrightarrow> step fsl tv cfg s (fst l) s' \<and> timely s (fst l) \<and> snd l = action_of fsl s (fst l)"

section \<open>The simulation\<close>

lemma protocol_commit:
  assumes "session_ok ses" and "fid |\<in>| fmdom (s_files ses)"
  shows "protocol (abs_state (Sending ses)) (A_store (s_id ses) fid) (abs_state (upload_commit fid (Sending ses)))"
proof -
  let ?R = "fmdom (s_files ses) |-| s_received ses"
  have sub: "finsert fid (s_received ses) |\<subseteq>| fmdom (s_files ses)" and "?R \<noteq> {||}"
    using assms by (auto simp: session_ok_def)
  have last: "finsert fid (s_received ses) = fmdom (s_files ses) \<longleftrightarrow> ?R = {|fid|}"
  proof
    assume "finsert fid (s_received ses) = fmdom (s_files ses)"
    then have "?R |\<subseteq>| {|fid|}" by auto
    with \<open>?R \<noteq> {||}\<close> show "?R = {|fid|}" by (auto dest: fsubset_fsingletonD)
  next
    assume R: "?R = {|fid|}"
    show "finsert fid (s_received ses) = fmdom (s_files ses)"
    proof (rule fset_eqI)
      fix x
      have "x |\<in>| ?R \<longleftrightarrow> x = fid" using R by simp
      then show "x |\<in>| finsert fid (s_received ses) \<longleftrightarrow> x |\<in>| fmdom (s_files ses)"
        using fsubsetD [OF sub, of x] by (cases "x = fid") auto
    qed
  qed
  have rest: "fmdom (s_files ses) |-| finsert fid (s_received ses) = ?R |-| {|fid|}" by auto
  show ?thesis
  proof (cases "?R = {|fid|}")
    case True
    with last have "upload_commit fid (Sending ses) = Idle"
      by (simp add: upload_commit_Sending hm_len_fcard)
    with True p_last [of "s_id ses" fid] show ?thesis by simp
  next
    case False
    with last have "upload_commit fid (Sending ses) = Sending (ses\<lparr>s_received := finsert fid (s_received ses)\<rparr>)"
      by (simp add: upload_commit_Sending received_all_iff [OF sub])
    with p_store [OF False, of "s_id ses"] rest show ?thesis by simp
  qed
qed

lemma protocol_step:
  assumes "one_transfer s" and "timely s e" and "step fsl tv cfg s e s'"
  shows "protocol (abs_state (rv_state s)) (action_of fsl s e) (abs_state (rv_state s'))"
  using assms(3)
proof (cases rule: step.cases)
  case (s_prepare t body)
  then show ?thesis
    by (cases "prepare_parse fsl body"; cases "rv_state s")
      (simp_all add: on_prepare_def prepare_claim_def protocol.intros)
next
  case (s_answer t p rq a)
  with one_transfer_asking [OF assms(1) s_answer(3)] show ?thesis
    by (cases rule: on_answer_cases [of a t p s]) (simp_all add: protocol.intros)
next
  case (s_trust t p now mk w)
  then show ?thesis by (simp add: on_trust_def protocol.intros split: prod.split)
next
  case (s_open t p sid tok)
  with one_transfer_asking [OF assms(1) s_open(3)] have "rv_state s = Pending" "fmdom (pr_files p) \<noteq> {||}"
    by (auto simp: fmdom'_alt_def)
  with s_open p_open show ?thesis by (simp add: on_open_def Let_def)
next
  case (s_upload t q)
  then show ?thesis by (cases rule: on_upload_cases [of t q s]) (simp_all add: protocol.intros)
next
  case (s_create t sid fid meta al target ok)
  then show ?thesis by (simp add: on_create_def protocol.intros split: prod.split)
next
  case (s_frame t sid fid meta al target i off w fr out rm)
  then show ?thesis by (cases rule: on_frame_cases [of t sid fid meta al target i off w fr out rm s])
      (simp_all add: protocol.intros)
next
  case (s_end t sid fid meta al target i off w fl rm)
  then show ?thesis by (cases rule: on_end_cases [of t sid fid meta al target w fl rm s])
      (simp_all add: protocol.intros)
next
  case (s_settle_saved t sid fid al target)
  then obtain ses where ses: "rv_state s = Sending ses" "s_id ses = sid"
    using assms(2) by (auto split: rstate.splits)
  then have "fid |\<in>| fmdom (s_files ses)" "session_ok ses"
    using one_transfer_uploading [OF assms(1) s_settle_saved(3) _ ses] assms(1) by (simp_all add: one_transfer_def)
  with protocol_commit [of ses fid] ses s_settle_saved show ?thesis by (simp add: on_settle_saved_def)
next
  case (s_settle_failed t sid fid removing)
  then obtain ses where "rv_state s = Sending ses" "s_id ses = sid"
    using assms(2) by (auto split: rstate.splits)
  with s_settle_failed p_fail [of sid] show ?thesis by (simp add: on_settle_failed_def)
next
  case (s_cancel t q)
  then show ?thesis
    by (cases "rv_state s"; cases "query_map q")
      (auto simp: on_cancel_def handle_cancel_def cancel_session_def intro: protocol.intros)
qed (simp_all add: on_ask_def on_name_def protocol.intros)

interpretation concurrent_sim: simulation "observed_step fsl tv cfg" one_transfer
    "\<lambda>a l b. protocol a (snd l) b" "\<lambda>s. abs_state (rv_state s)" for fsl tv cfg
  by unfold_locales (auto simp: observed_step_def intro: one_transfer_step protocol_step)

text \<open>
  C19: Interleaved handlers implement the session protocol too, if uploads settle while their own
  session is current and a new session's id is fresh. In every run the receiver is claimed
  only when idle; a claim is refused or becomes a session with at least one file; a session
  shrinks by the files stored under its own id, and ends with the last of them, with a failed
  upload of its own, or with a cancel that carries its id; nothing else changes it.
\<close>

theorem concurrent_refines_protocol:
  assumes "run (observed_step from_slice to_vec cfg) (server_init ts f) ls s"
  shows "run (\<lambda>a l b. protocol a (snd l) b) S_idle ls (abs_state (rv_state s))"
  using concurrent_sim.sim_run [OF assms one_transfer_init] by simp

end
