(* ===== verification/Examples_Recv.thy ===== *)
theory Examples_Recv
  imports Examples Recv_Protocol
begin

text \<open>
  Concrete runs of the interleaved receiver, for the theorems on its well-formedness, on
  uninterrupted handlers, on transfers among other requests and on the protocol.
\<close>

section \<open>Well-formed states\<close>

theorem reachable_well_formed_witness:
  "\<exists>s sid fid meta al i. run (step some_request (\<lambda>_. ''j'') some_config) some_server
      (session_opening 0 ''A'' ''A'' @ [upload_event 1 ''A'' ''0'', E_name 1, E_create 1 True]) s
    \<and> sv_tasks s 1 = Some (T_writing sid fid meta al ''/d/a'' i 0 0) \<and> i < fs_next (rv_fs s)"
proof -
  have "\<exists>s sid fid meta al i. run (step some_request (\<lambda>_. ''j'') some_config) some_server
      (session_opening 0 ''A'' ''A'' @ [upload_event 1 ''A'' ''0'', E_name 1, E_create 1 True]) s
    \<and> sv_tasks s 1 = Some (T_writing sid fid meta al ''/d/a'' i 0 0)"
    by (simp add: run_iff_exec_all exec_all_append exec_opening demo_exec)
  then obtain s sid fid meta al i where
    r: "run (step some_request (\<lambda>_. ''j'') some_config) some_server
      (session_opening 0 ''A'' ''A'' @ [upload_event 1 ''A'' ''0'', E_name 1, E_create 1 True]) s"
    and t: "sv_tasks s 1 = Some (T_writing sid fid meta al ''/d/a'' i 0 0)"
    by (elim exE conjE) (rule that)
  from reachable_well_formed [OF r [unfolded some_server_def] fs_ok_empty] t have "i < fs_next (rv_fs s)" by blast
  with r t show ?thesis by blast
qed

section \<open>Handlers without interruption\<close>


section \<open>A transfer among others\<close>

text \<open>The session of \<open>some_session\<close> is open; another device asks for a transfer and guesses an id meanwhile.\<close>

definition busy_server :: server where
  "busy_server = some_server\<lparr>rv_state := Sending some_session\<rparr>"

definition noisy_events :: "event list" where
  "noisy_events = [E_upload 1 some_query, E_name 1, E_prepare 7 (Some ''B''), E_create 1 True, E_frame 1 (Data ''h'') Written True,
     upload_event 8 ''B'' ''0'', E_frame 1 Trailers Written True, E_frame 1 (Data ''i'') Written True,
     cancel_event 9 ''B'', E_end 1 True True, E_settle 1]"

lemma busy_server_simps:
  "rv_state busy_server = Sending some_session" "rv_fs busy_server = fs_empty" "rv_saved busy_server = []"
  "sv_tasks busy_server t = None" "s_id some_session = ''A''"
  by (simp_all add: busy_server_def some_server_def some_session_def new_session_def)

lemma foreign_demo [simp]: "foreign ''A'' (upload_event t ''B'' ''0'')" "foreign ''A'' (cancel_event t ''B'')"
proof -
  have "query_safe ''k''" by (rule query_safe_ascii) simp
  from upload_params_query [OF safe_names(4) safe_names(1) this] show "foreign ''A'' (upload_event t ''B'' ''0'')"
    by (simp add: upload_event_def)
  from cancel_params_query [OF safe_names(4)] show "foreign ''A'' (cancel_event t ''B'')"
    by (auto simp: cancel_event_def)
qed

lemma demo_tasks [simp]: "event_task (upload_event t sid fid) = t" "event_task (cancel_event t sid) = t"
  by (simp_all add: upload_event_def cancel_event_def)

lemma noisy_run:
  "\<exists>s. run (guarded (step some_request (\<lambda>_. ''j'') some_config) (unnamed ''A'' {1})) busy_server noisy_events s"
  unfolding noisy_events_def
  by (simp add: run_guarded_Cons unnamed_def open_session_def busy_server_def some_query_params on_upload_def
      some_session_def demo_exec)

lemma noisy_own: "filter (\<lambda>e. event_task e \<in> set [1]) noisy_events
    = concat (map2 upload_pieces [1] (map (\<lambda>(fid, env). (env, some_query)) [(''0'', good_body)]))"
  by (simp add: noisy_events_def upload_pieces_def body_pieces_def good_body_def)

theorem transfer_despite_others_witness:
  "\<exists>s sf. run (guarded (step some_request (\<lambda>_. ''j'') some_config) (unnamed ''A'' {1})) busy_server noisy_events s
    \<and> rv_state s = Idle \<and> sv_tasks s 1 = Some (T_done (status 200))
    \<and> rv_saved s = [sf] \<and> fs_read (rv_fs s) (sf_path sf) = Some ''hi'' \<and> sf_from sf = ''A''"
proof -
  from noisy_run obtain s where
    r: "run (guarded (step some_request (\<lambda>_. ''j'') some_config) (unnamed ''A'' {1})) busy_server noisy_events s"
    by blast
  have ok: "session_ok some_session" unfolding some_session_def by (rule new_session_ok) simp
  have missing: "set (map fst [(''0'', good_body)]) = fset (fmdom (s_files some_session) |-| s_received some_session)"
    by (simp add: some_session_def new_session_def)
  have fit: "\<exists>tok meta. upload_params some_query = Some (s_id some_session, fid, tok) \<and> tok \<noteq> ''''
      \<and> hm_get (s_tokens some_session) fid = Some tok \<and> hm_get (s_files some_session) fid = Some meta \<and> fit_upload env meta"
    if "(fid, env) \<in> set [(''0'', good_body)]" for fid env
    using that by (simp add: some_query_params busy_server_simps)
      (simp add: some_session_def fit_upload_def good_body_def)
  have "rv_state s = Idle \<and> sv_tasks s 1 = Some (T_done (status 200))
    \<and> (\<exists>saved. rv_saved s = saved \<and> list_all2 (saves_body (rv_fs s) (s_from_alias some_session)) [(''0'', good_body)] saved)"
    using transfer_despite_others [where ts = "[1]" and ups = "[(''0'', good_body)]" and qf = "\<lambda>_. some_query"
        and ses = some_session and s = busy_server, OF _ noisy_own busy_server_simps(1) ok _ _ _ _ _ missing _ fit]
      r by (simp add: busy_server_simps new_task_def)
  then obtain sf where "rv_state s = Idle" "sv_tasks s 1 = Some (T_done (status 200))" "rv_saved s = [sf]"
      "saves_body (rv_fs s) (s_from_alias some_session) (''0'', good_body) sf"
    by (auto simp: list_all2_Cons1)
  moreover have "s_from_alias some_session = ''A''" "body_bytes (ue_frames good_body) = ''hi''"
    by (simp_all add: some_session_def new_session_def some_peer_def good_body_def body_bytes_def)
  ultimately show ?thesis using r by (intro exI [of _ s] exI [of _ sf]) (simp add: saves_body_def)
qed

theorem session_isolated_witness:
  "\<exists>s. run (guarded (step some_request (\<lambda>_. ''j'') some_config) (unnamed ''A'' {}))
      busy_server [E_prepare 1 (Some ''B''), upload_event 2 ''B'' ''0'', cancel_event 3 ''B''] s
    \<and> rv_state s = Sending some_session"
proof -
  have "\<exists>s. run (guarded (step some_request (\<lambda>_. ''j'') some_config) (unnamed ''A'' {}))
      busy_server [E_prepare 1 (Some ''B''), upload_event 2 ''B'' ''0'', cancel_event 3 ''B''] s"
    by (simp add: run_guarded_Cons unnamed_def open_session_def busy_server_def some_session_def demo_exec)
  then obtain s where r: "run (guarded (step some_request (\<lambda>_. ''j'') some_config) (unnamed ''A'' {}))
      busy_server [E_prepare 1 (Some ''B''), upload_event 2 ''B'' ''0'', cancel_event 3 ''B''] s"
    by blast
  from session_isolated [OF r] obtain alone where
    "run (step some_request (\<lambda>_. ''j'') some_config) busy_server [] alone" "rv_state s = rv_state alone"
    by (auto simp: busy_server_simps)
  with r show ?thesis by (auto simp: busy_server_simps)
qed

section \<open>The protocol\<close>

text \<open>A session that is opened and cancelled.\<close>

definition observed_events :: "(event \<times> action) list" where
  "observed_events = [(E_prepare 0 (Some ''A''), A_claim), (E_ask 0, A_none), (E_answer 0 (Answer True), A_none),
     (E_trust 0 None True W_ok, A_none), (E_open 0 ''A'' (\<lambda>_. ''k''), A_open ''A'' {|''0''|}),
     (cancel_event 1 ''A'', A_cancel ''A'')]"

theorem concurrent_refines_protocol_witness:
  "\<exists>s. run (observed_step some_request (\<lambda>_. ''j'') some_config) some_server observed_events s
    \<and> run (\<lambda>a l b. protocol a (snd l) b) S_idle observed_events (abs_state (rv_state s))"
proof -
  have "query_safe ''A''" by (rule query_safe_ascii) simp
  from cancel_params_query [OF this] obtain m where m: "query_map (strip_prefix ''?'' (cancel_query ''A'')) = Some m"
    "param_or_default m ''sessionId'' = ''A''"
    by auto
  have t: "timely s (cancel_event t sid)" for s t sid by (simp add: cancel_event_def)
  have a: "rv_state s = Sending ses \<Longrightarrow> s_id ses = ''A'' \<Longrightarrow> action_of fsl s (cancel_event t ''A'') = A_cancel ''A''"
    for s ses fsl t using m by (simp add: cancel_event_def)
  have "\<exists>s. run (observed_step some_request (\<lambda>_. ''j'') some_config) some_server observed_events s"
    unfolding observed_events_def
    by (simp add: run_Cons_iff observed_step_def step_iff_exec t a demo_exec)
  then obtain s where r: "run (observed_step some_request (\<lambda>_. ''j'') some_config) some_server observed_events s" by blast
  from concurrent_refines_protocol [OF r [unfolded some_server_def]] r show ?thesis by blast
qed

end
