(* ===== verification/Listener.thy ===== *)
theory Listener
  imports Recv_Races
begin

text \<open>
  The accept loop and the connections of \<open>app/rust/src/core/transfer/recv.rs\<close> (\<open>Receiver::start\<close>,
  \<open>Receiver::stop\<close> and \<open>route\<close>) around the handlers of \<open>Recv_Server\<close>.  A connection is a task
  of its own: first the TLS handshake, then one request after the other, as HTTP/1 has it.
  When a connection is closed while its handler waits, the handler is dropped; when a handler
  panics, its connection ends.
\<close>

section \<open>Connections\<close>

datatype conn = Handshaking | Ready | Serving nat

record listener =
  ln_server :: server
  ln_accepting :: bool
  ln_conns :: "nat \<Rightarrow> conn option"
  ln_sent :: "(nat \<times> response) list"

text \<open>
  \<open>N_request c t rq body\<close> is a request on connection \<open>c\<close> whose handler is task \<open>t\<close>;
  \<open>N_piece c e\<close> the next piece of the handler that connection \<open>c\<close> waits for.
\<close>

datatype net_event =
    N_accept nat
  | N_tls nat bool
  | N_request nat nat request "string option"
  | N_piece nat event
  | N_reply nat
  | N_close nat
  | N_stop

fun piece_task :: "event \<Rightarrow> nat option" where
  "piece_task (E_ask t) = Some t"
| "piece_task (E_answer t a) = Some t"
| "piece_task (E_trust t now mk w) = Some t"
| "piece_task (E_open t sid tok) = Some t"
| "piece_task (E_name t) = Some t"
| "piece_task (E_create t ok) = Some t"
| "piece_task (E_frame t fr out rm) = Some t"
| "piece_task (E_end t fl rm) = Some t"
| "piece_task (E_settle t) = Some t"
| "piece_task _ = None"

fun_cases piece_task_SomeE: "piece_task e = Some t"

definition set_conn :: "nat \<Rightarrow> conn option \<Rightarrow> listener \<Rightarrow> listener" where
  "set_conn c x s = s\<lparr>ln_conns := (ln_conns s)(c := x)\<rparr>"

definition reply :: "nat \<Rightarrow> response \<Rightarrow> listener \<Rightarrow> listener" where
  "reply c r s = set_conn c (Some Ready) (s\<lparr>ln_sent := ln_sent s @ [(c, r)]\<rparr>)"

text \<open>The first piece of the handler a request reaches, or the answer if there is no more to it.\<close>

definition dispatch ::
    "(string \<Rightarrow> prepare_upload_request option) \<Rightarrow> recv_config \<Rightarrow> nat \<Rightarrow> request \<Rightarrow> string option
      \<Rightarrow> server \<Rightarrow> response + server" where
  "dispatch fsl cfg t rq body s = (case route rq of
       To_info \<Rightarrow> Inl (handle_info cfg)
     | To_prepare \<Rightarrow> Inr (on_prepare fsl t body s)
     | To_upload \<Rightarrow> Inr (on_upload t (rq_query rq) s)
     | To_cancel \<Rightarrow> Inr (on_cancel t (rq_query rq) s)
     | Not_found \<Rightarrow> Inl (status 404))"

text \<open>The end of a connection, and of the handler it waits for.\<close>

definition drop_conn :: "nat \<Rightarrow> listener \<Rightarrow> listener option" where
  "drop_conn c s = (case ln_conns s c of
       None \<Rightarrow> None
     | Some (Serving t) \<Rightarrow> (case sv_tasks (ln_server s) t of
           None \<Rightarrow> None
         | Some (T_done r) \<Rightarrow> Some (set_conn c None s)
         | Some x \<Rightarrow> if droppable x then Some (set_conn c None (s\<lparr>ln_server := set_task t None (ln_server s)\<rparr>))
             else None)
     | Some _ \<Rightarrow> Some (set_conn c None s))"

definition stop_listener :: "listener \<Rightarrow> listener" where
  "stop_listener s = s\<lparr>ln_accepting := False\<rparr>"

fun net_exec ::
    "(string \<Rightarrow> prepare_upload_request option) \<Rightarrow> ((string, trusted_device) hash_map \<Rightarrow> string)
      \<Rightarrow> recv_config \<Rightarrow> listener \<Rightarrow> net_event \<Rightarrow> listener option" where
  "net_exec fsl tv cfg s (N_accept c) =
     (if ln_accepting s \<and> ln_conns s c = None then Some (set_conn c (Some Handshaking) s) else None)"
| "net_exec fsl tv cfg s (N_tls c ok) =
     (if ln_conns s c = Some Handshaking then Some (set_conn c (if ok then Some Ready else None) s) else None)"
| "net_exec fsl tv cfg s (N_request c t rq body) =
     (if ln_conns s c = Some Ready \<and> new_task (ln_server s) t
      then (case dispatch fsl cfg t rq body (ln_server s) of
          Inl r \<Rightarrow> Some (reply c r s)
        | Inr sv \<Rightarrow> Some (set_conn c (if new_task sv t then None else Some (Serving t)) (s\<lparr>ln_server := sv\<rparr>)))
      else None)"
| "net_exec fsl tv cfg s (N_piece c e) = (case ln_conns s c of
       Some (Serving t) \<Rightarrow> if piece_task e = Some t
         then map_option (\<lambda>sv. s\<lparr>ln_server := sv\<rparr>) (exec fsl tv cfg (ln_server s) e) else None
     | _ \<Rightarrow> None)"
| "net_exec fsl tv cfg s (N_reply c) = (case ln_conns s c of
       Some (Serving t) \<Rightarrow> (case sv_tasks (ln_server s) t of
           Some (T_done r) \<Rightarrow> Some (reply c r s) | _ \<Rightarrow> None)
     | _ \<Rightarrow> None)"
| "net_exec fsl tv cfg s (N_close c) = drop_conn c s"
| "net_exec fsl tv cfg s N_stop = Some (stop_listener s)"

definition net_step ::
    "(string \<Rightarrow> prepare_upload_request option) \<Rightarrow> ((string, trusted_device) hash_map \<Rightarrow> string)
      \<Rightarrow> recv_config \<Rightarrow> listener \<Rightarrow> net_event \<Rightarrow> listener \<Rightarrow> bool" where
  "net_step fsl tv cfg s e s' \<longleftrightarrow> net_exec fsl tv cfg s e = Some s'"

text \<open>The receiver right after its start.\<close>

definition listener_init :: "trust_store \<Rightarrow> fs \<Rightarrow> listener" where
  "listener_init ts f = \<lparr>ln_server = server_init ts f, ln_accepting = True, ln_conns = (\<lambda>_. None), ln_sent = []\<rparr>"

lemma set_conn_simps [simp]:
  "ln_server (set_conn c x s) = ln_server s" "ln_accepting (set_conn c x s) = ln_accepting s"
  "ln_conns (set_conn c x s) d = (if d = c then x else ln_conns s d)" "ln_sent (set_conn c x s) = ln_sent s"
  by (simp_all add: set_conn_def)

lemma reply_simps [simp]:
  "ln_server (reply c r s) = ln_server s" "ln_accepting (reply c r s) = ln_accepting s"
  "ln_conns (reply c r s) d = (if d = c then Some Ready else ln_conns s d)"
  by (simp_all add: reply_def)


section \<open>The handlers inside\<close>

text \<open>What a step of the connections can be for the handlers.\<close>

fun seen :: "net_event \<Rightarrow> event set" where
  "seen (N_request c t rq body) = {E_prepare t body, E_upload t (rq_query rq), E_cancel t (rq_query rq)}"
| "seen (N_piece c e) = {e}"
| "seen (N_close c) = range E_drop"
| "seen _ = {}"

lemma dispatch_InrD:
  assumes "dispatch fsl cfg t rq body sv = Inr sv'" and "new_task sv t"
  shows "\<exists>e \<in> {E_prepare t body, E_upload t (rq_query rq), E_cancel t (rq_query rq)}. step fsl tv cfg sv e sv'"
  using assms by (auto simp: dispatch_def intro: step.intros split: destination.splits)

lemma drop_conn_SomeE:
  assumes "drop_conn c s = Some s'"
  obtains (idle) "s' = set_conn c None s" "ln_conns s c \<noteq> None"
      "\<And>t. ln_conns s c = Some (Serving t) \<Longrightarrow> \<exists>r. sv_tasks (ln_server s) t = Some (T_done r)"
  | (dropped) t x where "ln_conns s c = Some (Serving t)" "sv_tasks (ln_server s) t = Some x" "droppable x"
      "s' = set_conn c None (s\<lparr>ln_server := set_task t None (ln_server s)\<rparr>)"
  using assms by (auto simp: drop_conn_def split: option.splits conn.splits task.splits if_splits)

interpretation server_part: projection "net_step fsl tv cfg" "step fsl tv cfg" ln_server seen for fsl tv cfg
proof unfold_locales
  fix s e s'
  assume "net_step fsl tv cfg s e s'"
  then have n: "net_exec fsl tv cfg s e = Some s'" by (simp add: net_step_def)
  show "ln_server s' = ln_server s \<or> (\<exists>e \<in> seen e. step fsl tv cfg (ln_server s) e (ln_server s'))"
  proof (cases e)
    case (N_request c t rq body)
    with n show ?thesis
      using dispatch_InrD [of fsl cfg t rq body "ln_server s" "ln_server s'" tv]
      by (auto split: if_splits sum.splits)
  next
    case (N_close c)
    with n have "drop_conn c s = Some s'" by simp
    then show ?thesis by (cases rule: drop_conn_SomeE) (auto simp: N_close intro: s_drop)
  qed (use n in \<open>auto simp: step_iff_exec stop_listener_def split: if_splits option.splits conn.splits task.splits\<close>)
qed


section \<open>Handlers and their connections\<close>

definition unfinished :: "server \<Rightarrow> nat \<Rightarrow> bool" where
  "unfinished sv t \<longleftrightarrow> (\<exists>x. sv_tasks sv t = Some x \<and> (\<forall>r. x \<noteq> T_done r))"

definition conn_ok :: "listener \<Rightarrow> bool" where
  "conn_ok s \<longleftrightarrow> (\<forall>t. unfinished (ln_server s) t \<longrightarrow> (\<exists>c. ln_conns s c = Some (Serving t)))
     \<and> (\<forall>c t. ln_conns s c = Some (Serving t) \<longrightarrow> sv_tasks (ln_server s) t \<noteq> None)
     \<and> (\<forall>c d t. ln_conns s c = Some (Serving t) \<longrightarrow> ln_conns s d = Some (Serving t) \<longrightarrow> c = d)"

lemma conn_okD:
  assumes "conn_ok s"
  shows "unfinished (ln_server s) t \<Longrightarrow> \<exists>c. ln_conns s c = Some (Serving t)"
    and "ln_conns s c = Some (Serving t) \<Longrightarrow> sv_tasks (ln_server s) t \<noteq> None"
    and "ln_conns s c = Some (Serving t) \<Longrightarrow> ln_conns s d = Some (Serving t) \<Longrightarrow> c = d"
  using assms unfolding conn_ok_def by blast+

lemma conn_okI:
  assumes "\<And>t. unfinished (ln_server s) t \<Longrightarrow> \<exists>c. ln_conns s c = Some (Serving t)"
    and "\<And>c t. ln_conns s c = Some (Serving t) \<Longrightarrow> sv_tasks (ln_server s) t \<noteq> None"
    and "\<And>c d t. ln_conns s c = Some (Serving t) \<Longrightarrow> ln_conns s d = Some (Serving t) \<Longrightarrow> c = d"
  shows "conn_ok s"
  using assms unfolding conn_ok_def by blast

text \<open>A piece moves its own task, and neither makes nor loses one.\<close>

lemma exec_piece:
  assumes "exec fsl tv cfg sv e = Some sv'" and "piece_task e = Some t"
  shows "sv_tasks sv t \<noteq> None \<and> sv_tasks sv' t \<noteq> None \<and> (\<forall>u. u \<noteq> t \<longrightarrow> sv_tasks sv' u = sv_tasks sv u)"
  using assms(2,1)
  by (elim piece_task_SomeE)
    (auto simp: piece_defs on_trust_def Let_def split: option.splits task.splits if_splits sum.splits prod.splits)

lemma dispatch_task:
  assumes "dispatch fsl cfg t rq body sv = Inr sv'"
  shows "u \<noteq> t \<Longrightarrow> sv_tasks sv' u = sv_tasks sv u"
  using assms
  by (auto simp: dispatch_def on_prepare_def on_upload_def on_cancel_def
      split: destination.splits sum.splits option.splits upload_check.splits)

text \<open>A connection gets another handler, or none, and only the tasks concerned change.\<close>

lemma conn_ok_update:
  assumes "conn_ok s" and "ln_conns s c \<noteq> None"
    and "\<And>u. u \<noteq> t \<Longrightarrow> sv_tasks sv u = sv_tasks (ln_server s) u"
    and "\<And>d. d \<noteq> c \<Longrightarrow> ln_conns s d \<noteq> Some (Serving t)"
    and "\<And>u. ln_conns s c = Some (Serving u) \<Longrightarrow> u = t \<or> \<not> unfinished (ln_server s) u"
    and "x = Some (Serving t) \<and> sv_tasks sv t \<noteq> None \<or> (\<forall>u. x \<noteq> Some (Serving u)) \<and> \<not> unfinished sv t"
  shows "conn_ok (set_conn c x (s\<lparr>ln_server := sv\<rparr>))"
proof -
  have same: "unfinished sv u \<longleftrightarrow> unfinished (ln_server s) u" if "u \<noteq> t" for u
    using assms(3) [OF that] by (simp add: unfinished_def)
  have "\<exists>d. ln_conns (set_conn c x (s\<lparr>ln_server := sv\<rparr>)) d = Some (Serving u)" if u: "unfinished sv u" for u
  proof (cases "u = t")
    case True
    with assms(6) u show ?thesis by (intro exI [of _ c]) auto
  next
    case False
    with u same assms(1) obtain d where d: "ln_conns s d = Some (Serving u)" by (auto simp: conn_ok_def)
    moreover have "d \<noteq> c" using assms(5) False u same d by blast
    ultimately show ?thesis by (intro exI [of _ d]) simp
  qed
  moreover have "sv_tasks sv u \<noteq> None" if "d \<noteq> c" "ln_conns s d = Some (Serving u)" for d u
    using that assms(1,3,4) by (metis conn_ok_def)
  ultimately show ?thesis
    using assms(4,6) conn_okD(3) [OF assms(1)] by (intro conn_okI) (auto split: if_splits)
qed

lemma conn_ok_quiet:
  assumes "conn_ok s" and "\<And>u. ln_conns s c = Some (Serving u) \<Longrightarrow> \<not> unfinished (ln_server s) u"
    and "\<forall>u. x \<noteq> Some (Serving u)"
  shows "conn_ok (set_conn c x (s\<lparr>ln_sent := l\<rparr>))"
proof (rule conn_okI)
  show "\<exists>d. ln_conns (set_conn c x (s\<lparr>ln_sent := l\<rparr>)) d = Some (Serving t)"
    if u: "unfinished (ln_server (set_conn c x (s\<lparr>ln_sent := l\<rparr>))) t" for t
  proof -
    from u conn_okD(1) [OF assms(1), of t] obtain d where d: "ln_conns s d = Some (Serving t)" by auto
    with assms(2) u have "d \<noteq> c" by auto
    with d show ?thesis by (intro exI [of _ d]) simp
  qed
qed (use assms(3) conn_okD(2,3) [OF assms(1)] in \<open>auto split: if_splits\<close>)

text \<open>The pieces on a connection and its requests.\<close>

lemma conn_ok_request:
  assumes "conn_ok s" and "net_exec fsl tv cfg s (N_request c t rq body) = Some s'"
  shows "conn_ok s'"
proof -
  have c: "ln_conns s c = Some Ready" and t: "sv_tasks (ln_server s) t = None"
    using assms(2) by (auto simp: new_task_def split: if_splits)
  show ?thesis
  proof (cases "dispatch fsl cfg t rq body (ln_server s)")
    case (Inl r)
    with assms(2) conn_ok_quiet [OF assms(1), of c "Some Ready" "ln_sent s @ [(c, r)]"] c show ?thesis
      by (auto simp: reply_def split: if_splits)
  next
    case (Inr sv)
    have "ln_conns s d \<noteq> Some (Serving t)" for d using conn_okD(2) [OF assms(1)] t by blast
    then have "conn_ok (set_conn c (if new_task sv t then None else Some (Serving t)) (s\<lparr>ln_server := sv\<rparr>))"
      using c dispatch_task [OF Inr] by (intro conn_ok_update [OF assms(1)]) (auto simp: new_task_def unfinished_def)
    with assms(2) Inr show ?thesis by (auto split: if_splits)
  qed
qed

lemma conn_ok_piece:
  assumes "conn_ok s" and "net_exec fsl tv cfg s (N_piece c p) = Some s'"
  shows "conn_ok s'"
proof -
  obtain t sv where c: "ln_conns s c = Some (Serving t)" "piece_task p = Some t"
    "exec fsl tv cfg (ln_server s) p = Some sv" and s': "s' = s\<lparr>ln_server := sv\<rparr>"
    using assms(2) by (auto split: option.splits conn.splits if_splits)
  have "conn_ok (set_conn c (Some (Serving t)) (s\<lparr>ln_server := sv\<rparr>))"
    using assms(1) c exec_piece [OF c(3,2)] by (intro conn_ok_update [OF assms(1)]) (auto simp: conn_ok_def)
  moreover have "set_conn c (Some (Serving t)) (s\<lparr>ln_server := sv\<rparr>) = s'"
    using c(1) s' by (simp add: set_conn_def fun_upd_idem)
  ultimately show ?thesis by simp
qed

lemma conn_ok_close:
  assumes "conn_ok s" and "drop_conn c s = Some s'"
  shows "conn_ok s'"
  using assms(2)
proof (cases rule: drop_conn_SomeE)
  case idle
  with conn_ok_quiet [OF assms(1), of c None "ln_sent s"] show ?thesis by (force simp: unfinished_def)
next
  case (dropped t x)
  have "d \<noteq> c \<Longrightarrow> ln_conns s d \<noteq> Some (Serving t)" for d using conn_okD(3) [OF assms(1) dropped(1)] by blast
  then have "conn_ok (set_conn c None (s\<lparr>ln_server := set_task t None (ln_server s)\<rparr>))"
    using dropped(1) by (intro conn_ok_update [OF assms(1), where t = t]) (auto simp: unfinished_def)
  with dropped(4) show ?thesis by simp
qed

lemma conn_ok_step:
  assumes ok: "conn_ok s" and n: "net_step fsl tv cfg s e s'"
  shows "conn_ok s'"
proof -
  have n: "net_exec fsl tv cfg s e = Some s'" using n by (simp add: net_step_def)
  show ?thesis
  proof (cases e)
    case (N_accept c)
    with n conn_ok_quiet [OF ok, of c "Some Handshaking" "ln_sent s"] show ?thesis by (auto split: if_splits)
  next
    case (N_tls c b)
    with n conn_ok_quiet [OF ok, of c "if b then Some Ready else None" "ln_sent s"] show ?thesis by (auto split: if_splits)
  next
    case (N_reply c)
    then obtain t r where "ln_conns s c = Some (Serving t)" "sv_tasks (ln_server s) t = Some (T_done r)" "s' = reply c r s"
      using n by (auto split: option.splits conn.splits task.splits)
    with conn_ok_quiet [OF ok, of c "Some Ready" "ln_sent s @ [(c, r)]"] show ?thesis by (auto simp: reply_def unfinished_def)
  next
    case N_stop
    with n ok show ?thesis by (auto simp: conn_ok_def stop_listener_def)
  qed (use n conn_ok_request [OF ok] conn_ok_piece [OF ok] conn_ok_close [OF ok] in auto)
qed

interpretation owned_handlers: step_invariant "net_step fsl tv cfg" conn_ok for fsl tv cfg
  by unfold_locales (rule conn_ok_step)

section \<open>Stopping\<close>

text \<open>No connection is new, and if there was none, nothing happens any more.\<close>

definition closing :: "listener \<Rightarrow> listener \<Rightarrow> bool" where
  "closing s0 s \<longleftrightarrow> \<not> ln_accepting s \<and> dom (ln_conns s) \<subseteq> dom (ln_conns s0)
     \<and> (dom (ln_conns s0) = {} \<longrightarrow> ln_server s = ln_server s0 \<and> ln_sent s = ln_sent s0)"

lemma net_exec_conn:
  assumes "net_exec fsl tv cfg s e = Some s'" and "\<not> ln_accepting s"
  shows "\<not> ln_accepting s' \<and> dom (ln_conns s') \<subseteq> dom (ln_conns s)
    \<and> (dom (ln_conns s) = {} \<longrightarrow> ln_server s' = ln_server s \<and> ln_sent s' = ln_sent s)"
proof (cases e)
  case (N_close c)
  with assms have "drop_conn c s = Some s'" by simp
  then show ?thesis by (cases rule: drop_conn_SomeE) (use assms(2) in \<open>auto split: if_splits\<close>)
qed (use assms in \<open>auto simp: reply_def stop_listener_def split: if_splits sum.splits option.splits conn.splits task.splits\<close>)

interpretation closing_listener: step_invariant "net_step fsl tv cfg" "closing s0" for fsl tv cfg s0
proof unfold_locales
  fix s e s'
  assume "closing s0 s" and "net_step fsl tv cfg s e s'"
  with net_exec_conn [of fsl tv cfg s e s'] show "closing s0 s'" by (auto simp: closing_def net_step_def)
qed

text \<open>
  C21: After a stop no connection comes in, and handlers live only as long as their connections:
  a handler that is not finished is waited for by exactly one connection, and once the
  connections of the time of the stop are closed, the receiver is at rest for good.
\<close>

theorem stopped_listener:
  assumes "run (net_step from_slice to_vec cfg) (listener_init ts f) ls s"
    and "run (net_step from_slice to_vec cfg) (stop_listener s) es s'"
  shows "dom (ln_conns s') \<subseteq> dom (ln_conns s)
    \<and> (\<forall>t. unfinished (ln_server s') t \<longrightarrow> (\<exists>!c. ln_conns s' c = Some (Serving t)))
    \<and> (ln_conns s = (\<lambda>_. None) \<longrightarrow> ln_server s' = ln_server s \<and> ln_sent s' = ln_sent s)"
proof -
  have "closing (stop_listener s) (stop_listener s)" by (simp add: closing_def stop_listener_def)
  with assms(2) have c: "closing (stop_listener s) s'" by (rule closing_listener.run_inv)
  have "conn_ok (listener_init ts f)" by (simp add: listener_init_def conn_ok_def unfinished_def)
  with assms(1) have "conn_ok s" by (rule owned_handlers.run_inv)
  then have "conn_ok (stop_listener s)" by (simp add: conn_ok_def stop_listener_def)
  with assms(2) have ok: "conn_ok s'" by (rule owned_handlers.run_inv)
  have "\<exists>!c. ln_conns s' c = Some (Serving t)" if "unfinished (ln_server s') t" for t
    using conn_okD(1) [OF ok that] conn_okD(3) [OF ok] by blast
  with c show ?thesis by (auto simp: closing_def stop_listener_def)
qed


section \<open>What a stop does not end\<close>

lemma run_pieces:
  assumes "exec_all fsl tv cfg (ln_server s) es = Some sv" and "ln_conns s c = Some (Serving t)"
    and "\<forall>e \<in> set es. piece_task e = Some t"
  shows "run (net_step fsl tv cfg) s (map (N_piece c) es) (s\<lparr>ln_server := sv\<rparr>)"
  using assms
proof (induction es arbitrary: s)
  case (Cons e es)
  then obtain sv1 where e: "exec fsl tv cfg (ln_server s) e = Some sv1" "exec_all fsl tv cfg sv1 es = Some sv"
    by (auto split: option.splits)
  with Cons.prems have "net_step fsl tv cfg s (N_piece c e) (s\<lparr>ln_server := sv1\<rparr>)" by (simp add: net_step_def)
  with Cons.IH [of "s\<lparr>ln_server := sv1\<rparr>"] Cons.prems e(2) show ?case by (auto simp: run_Cons_iff)
qed simp

text \<open>Any run of a handler can happen on a connection that is ready.\<close>

lemma run_handler:
  assumes "ln_conns s c = Some Ready" and "new_task (ln_server s) t"
    and "dispatch fsl cfg t rq body (ln_server s) = Inr sv" and "\<not> new_task sv t"
    and "exec_all fsl tv cfg sv es = Some sv'" and "\<forall>e \<in> set es. piece_task e = Some t"
    and "sv_tasks sv' t = Some (T_done r)"
  shows "run (net_step fsl tv cfg) s (N_request c t rq body # map (N_piece c) es @ [N_reply c])
    (reply c r (set_conn c (Some (Serving t)) (s\<lparr>ln_server := sv'\<rparr>)))"
proof -
  let ?s1 = "set_conn c (Some (Serving t)) (s\<lparr>ln_server := sv\<rparr>)"
  let ?s2 = "set_conn c (Some (Serving t)) (s\<lparr>ln_server := sv'\<rparr>)"
  have "net_step fsl tv cfg s (N_request c t rq body) ?s1" using assms(1-4) by (simp add: net_step_def)
  moreover have "run (net_step fsl tv cfg) ?s1 (map (N_piece c) es) (?s1\<lparr>ln_server := sv'\<rparr>)"
    using assms(5,6) by (intro run_pieces [where t = t]) simp_all
  moreover have "?s1\<lparr>ln_server := sv'\<rparr> = ?s2" by (simp add: set_conn_def)
  moreover have "net_step fsl tv cfg ?s2 (N_reply c) (reply c r ?s2)" using assms(7) by (simp add: net_step_def)
  ultimately show ?thesis by (auto simp: run_Cons_iff run_append)
qed

definition post :: "string \<Rightarrow> string option \<Rightarrow> request" where
  "post path query = \<lparr>rq_method = ''POST'', rq_path = API_PREFIX @ path, rq_query = query\<rparr>"

lemma dispatch_post [simp]:
  "dispatch fsl cfg t (post ''/prepare-upload'' q) body s = Inr (on_prepare fsl t body s)"
  "dispatch fsl cfg t (post ''/upload'' q) body s = Inr (on_upload t q s)"
  by (simp_all add: dispatch_def post_def route_def strip_prefix_append)

definition opened_server :: "server \<Rightarrow> bool" where
  "opened_server sv \<longleftrightarrow> rv_state sv = Sending (new_session ''A'' (\<lambda>_. ''k'') \<lparr>pr_info = some_peer ''A'',
       pr_files = fmupd ''0'' \<lparr>fm_name = ''a'', fm_size = 2, fm_mime = ''''\<rparr> fmempty\<rparr>) \<and> rv_fs sv = fs_empty
     \<and> rv_saved sv = [] \<and> sv_tasks sv 1 = None"

lemma opened:
  "\<exists>sv. exec_all some_request tv cfg some_server (session_opening 0 ''A'' ''A'') = Some sv
    \<and> opened_server sv \<and> (\<exists>r. sv_tasks sv 0 = Some (T_done r))"
  unfolding opened_server_def
  by (subst exec_opening [OF _ _ some_request_def]) (simp_all add: some_server_def new_task_def)

text \<open>A whole request: its handler's pieces in a row, and its answer.\<close>

definition serve_all :: "nat \<Rightarrow> nat \<Rightarrow> request \<Rightarrow> string option \<Rightarrow> event list \<Rightarrow> net_event list" where
  "serve_all c t rq body es = N_request c t rq body # map (N_piece c) es @ [N_reply c]"

definition opening_pieces :: "event list" where
  "opening_pieces = tl (session_opening 0 ''A'' ''A'')"

definition upload_pieces :: "event list" where
  "upload_pieces = [E_name 1, E_create 1 True, E_frame 1 (Data ''hi'') Written True, E_end 1 True True, E_settle 1]"

definition some_upload :: request where
  "some_upload = post ''/upload'' (strip_prefix ''?'' (upload_query ''A'' ''0'' ''k''))"

lemma opening_served:
  assumes "ln_conns s 0 = Some Ready" and "ln_server s = some_server"
  shows "\<exists>s'. run (net_step some_request tv cfg) s (serve_all 0 0 (post ''/prepare-upload'' None) (Some ''A'') opening_pieces) s'
    \<and> ln_conns s' 0 = Some Ready \<and> ln_accepting s' = ln_accepting s
    \<and> opened_server (ln_server s')"
proof -
  let ?p = "on_prepare some_request 0 (Some ''A'') some_server"
  from opened obtain sv r where sv: "exec_all some_request tv cfg some_server (session_opening 0 ''A'' ''A'') = Some sv"
    "opened_server sv" "sv_tasks sv 0 = Some (T_done r)"
    by (metis opened_server_def)
  have "new_task some_server 0" "\<not> new_task ?p 0"
    by (simp_all add: demo_defs on_prepare_def prepare_parse_def prepare_claim_def)
  moreover from this have "exec_all some_request tv cfg ?p opening_pieces = Some sv"
    using sv(1) by (simp add: session_opening_def opening_pieces_def)
  ultimately have "run (net_step some_request tv cfg) s (serve_all 0 0 (post ''/prepare-upload'' None) (Some ''A'') opening_pieces)
      (reply 0 r (set_conn 0 (Some (Serving 0)) (s\<lparr>ln_server := sv\<rparr>)))"
    using assms sv(3) unfolding serve_all_def
    by (intro run_handler) (auto simp: session_opening_def opening_pieces_def)
  with sv(2) show ?thesis by - (rule exI, intro conjI, assumption, simp_all)
qed

lemma upload_served:
  assumes "ln_conns s 0 = Some Ready" and "opened_server (ln_server s)"
  shows "\<exists>s'. run (net_step some_request to_vec some_config) s (serve_all 0 1 some_upload None upload_pieces) s'
    \<and> ln_accepting s' = ln_accepting s
    \<and> fs_read (rv_fs (ln_server s')) ''/d/a'' = Some ''hi'' \<and> length (rv_saved (ln_server s')) = 1"
proof -
  let ?sv = "ln_server s" and ?q = "strip_prefix ''?'' (upload_query ''A'' ''0'' ''k'')"
  note o = assms(2) [unfolded opened_server_def]
  have u: "on_upload 1 ?q ?sv = set_task 1 (Some (T_checked ''A'' ''0'' \<lparr>fm_name = ''a'', fm_size = 2, fm_mime = ''''\<rparr> ''A'')) ?sv"
    using exec_upload_event [OF safe_names(3) safe_names(1), of some_request to_vec some_config ?sv 1] o
    by (simp add: upload_event_def new_task_def check_upload_def new_session_def some_peer_def)
  have "\<exists>sv'. exec_all some_request to_vec some_config (on_upload 1 ?q ?sv) upload_pieces = Some sv'
      \<and> sv_tasks sv' 1 = Some (T_done (status 200))
      \<and> fs_read (rv_fs sv') ''/d/a'' = Some ''hi'' \<and> length (rv_saved sv') = 1"
    unfolding u upload_pieces_def using o by (simp add: demo_defs demo_save)
  then obtain sv' where sv': "exec_all some_request to_vec some_config (on_upload 1 ?q ?sv) upload_pieces = Some sv'"
    "sv_tasks sv' 1 = Some (T_done (status 200))" "fs_read (rv_fs sv') ''/d/a'' = Some ''hi''" "length (rv_saved sv') = 1"
    by blast
  have new: "new_task ?sv 1" "\<not> new_task (on_upload 1 ?q ?sv) 1" using o u by (simp_all add: new_task_def)
  have d: "dispatch some_request some_config 1 some_upload None ?sv = Inr (on_upload 1 ?q ?sv)"
    by (simp only: dispatch_post some_upload_def)
  have "run (net_step some_request to_vec some_config) s (serve_all 0 1 some_upload None upload_pieces)
      (reply 0 (status 200) (set_conn 0 (Some (Serving 1)) (s\<lparr>ln_server := sv'\<rparr>)))"
    unfolding serve_all_def
    by (rule run_handler [OF assms(1) new(1) d new(2) sv'(1) _ sv'(2)]) (simp add: upload_pieces_def)
  with sv'(3,4) show ?thesis by - (rule exI, intro conjI, assumption, simp_all)
qed

text \<open>
  A connection that is open when the receiver stops goes on being served, and not only the
  request under way: a sender that keeps its connection starts a new transfer after the
  stop, the user is asked, and its file is saved.
\<close>

theorem stop_keeps_serving:
  "\<exists>ls s. run (net_step some_request to_vec some_config) (listener_init \<lparr>ts_path = ''/c/t'', ts_devices = fmempty\<rparr> fs_empty)
      ([N_accept 0, N_tls 0 True, N_stop] @ ls) s
    \<and> N_piece 0 (E_answer 0 (Answer True)) \<in> set ls \<and> \<not> ln_accepting s
    \<and> fs_read (rv_fs (ln_server s)) ''/d/a'' = Some ''hi'' \<and> length (rv_saved (ln_server s)) = 1"
proof -
  let ?step = "net_step some_request to_vec some_config"
  define s0 where "s0 = listener_init \<lparr>ts_path = ''/c/t'', ts_devices = fmempty\<rparr> fs_empty"
  define s1 where "s1 = set_conn 0 (Some Ready) s0\<lparr>ln_accepting := False\<rparr>"
  have run0: "run ?step s0 [N_accept 0, N_tls 0 True, N_stop] s1"
    by (simp add: run_Cons_iff net_step_def s0_def s1_def listener_init_def stop_listener_def set_conn_def fun_eq_iff)
  have s1: "ln_conns s1 0 = Some Ready" "ln_server s1 = some_server" "\<not> ln_accepting s1"
    by (simp_all add: s1_def s0_def listener_init_def some_server_def)
  from opening_served [OF s1(1,2)] obtain s2 where
    s2: "run ?step s1 (serve_all 0 0 (post ''/prepare-upload'' None) (Some ''A'') opening_pieces) s2"
      "ln_conns s2 0 = Some Ready" "\<not> ln_accepting s2" "opened_server (ln_server s2)"
    using s1(3) by auto
  from upload_served [OF s2(2,4)] obtain s3 where
    s3: "run ?step s2 (serve_all 0 1 some_upload None upload_pieces) s3" "\<not> ln_accepting s3"
      "fs_read (rv_fs (ln_server s3)) ''/d/a'' = Some ''hi''" "length (rv_saved (ln_server s3)) = 1"
    using s2(3) by auto
  have "N_piece 0 (E_answer 0 (Answer True)) \<in> set (serve_all 0 0 (post ''/prepare-upload'' None) (Some ''A'') opening_pieces)"
    by (simp add: serve_all_def opening_pieces_def session_opening_def)
  with run_appendI [OF run0 run_appendI [OF s2(1) s3(1)]] s3(2-4) show ?thesis
    unfolding s0_def by (metis UnI1 set_append)
qed

end
