(* ===== verification/Lifecycle.thy ===== *)
theory Lifecycle
  imports Node
begin

text \<open>
  \<open>app/rust/src/api/easy_send.rs\<close>: starting and stopping the node, and the calls the app makes
  on the node that runs.  The state is \<open>NODE\<close> and what runs beside it: the accept loops of the
  receivers and the announce and cleanup tasks of the discoverers, which live until they are
  aborted, whether or not a node still refers to them.
\<close>

section \<open>The libraries and the outside world\<close>

record node_config =
  nc_base_dir :: string
  nc_save_dir :: string
  nc_alias :: string
  nc_device_type :: string

record node_status =
  ns_port :: u16
  ns_fingerprint :: string

record trusted_device_view =
  tv_fingerprint :: string
  tv_alias :: string
  tv_trusted_at :: string

text \<open>What hashing, PEM, TLS and JSON do; none of them is part of the sources.\<close>

record library =
  lb_hex :: "string \<Rightarrow> string"
  lb_sha :: "string \<Rightarrow> string"
  lb_certs :: "string \<Rightarrow> string option option"
  lb_key :: "string \<Rightarrow> string option option"
  lb_tls :: "string \<Rightarrow> string \<Rightarrow> unit option"
  lb_parse :: "string \<Rightarrow> (string, trusted_device) hash_map option"
  lb_print :: "(string, trusted_device) hash_map \<Rightarrow> string"

text \<open>How the operating system answers during one start.\<close>

record start_io =
  si_save_dir :: bool
  si_identity :: identity_io
  si_trust_fault :: bool
  si_bind :: "u16 \<Rightarrow> u16 option"
  si_discovery :: bool
  si_addrs :: "(bool \<times> if_addr) list option"

datatype start_failure =
    Save_dir_failed | Identity_failed sec_error | Trust_failed sec_error
  | Receiver_failed start_error | Discovery_failed

section \<open>The node\<close>

text \<open>\<open>nd_loop\<close> numbers the accept loop and the tasks that were spawned for the node.\<close>

record node =
  nd_self_info :: peer_info
  nd_trust :: trust_store
  nd_receiver :: recv_config
  nd_state :: rstate
  nd_discoverer :: discoverer
  nd_last_devices :: "device_snapshot list"
  nd_loop :: nat

record app =
  ap_fs :: fs
  ap_node :: "node option"
  ap_accepting :: "nat set"
  ap_ticking :: "nat set"
  ap_next :: nat

datatype api_error = No_node string | Trust_error sec_error | Exchange_error send_error

definition current :: "app \<Rightarrow> api_error + node" where
  "current a = (case ap_node a of None \<Rightarrow> Inl (No_node msg_no_node) | Some n \<Rightarrow> Inr n)"

definition node_stop :: "app \<Rightarrow> app" where
  "node_stop a = (case ap_node a of None \<Rightarrow> a
     | Some n \<Rightarrow> a\<lparr>ap_node := None, ap_accepting := ap_accepting a - {nd_loop n},
         ap_ticking := ap_ticking a - {nd_loop n}\<rparr>)"

text \<open>\<open>node_start\<close> from after \<open>node_stop()\<close> to before the node is stored.\<close>

definition node_launch ::
    "library \<Rightarrow> node_config \<Rightarrow> start_io \<Rightarrow> app \<Rightarrow> (start_failure + node \<times> node_status) \<times> app" where
  "node_launch lb cfg io a =
     (if \<not> si_save_dir io then (Inl Save_dir_failed, a)
      else case load_or_create (lb_hex lb) (lb_sha lb) (lb_certs lb) (si_identity io) (ap_fs a) (nc_base_dir cfg) of
        (Inl e, f) \<Rightarrow> (Inl (Identity_failed e), a\<lparr>ap_fs := f\<rparr>)
      | (Inr ident, f) \<Rightarrow>
          (case ts_open (lb_parse lb) (si_trust_fault io) f (nc_base_dir cfg) of
             Inl e \<Rightarrow> (Inl (Trust_failed e), a\<lparr>ap_fs := f\<rparr>)
           | Inr trust \<Rightarrow>
               (let self_info = \<lparr>pi_alias = nc_alias cfg, pi_device_type = nc_device_type cfg,
                      pi_fingerprint = id_fingerprint ident, pi_port = 0\<rparr>
                in case receiver_start (si_bind io) (server_config (lb_key lb) (lb_tls lb) ident)
                     (nc_save_dir cfg) self_info None of
                  Inl e \<Rightarrow> (Inl (Receiver_failed e), a\<lparr>ap_fs := f\<rparr>)
                | Inr (receiver, st) \<Rightarrow>
                    (let k = ap_next a;
                         a1 = a\<lparr>ap_fs := f, ap_next := Suc k, ap_accepting := insert k (ap_accepting a)\<rparr>;
                         self_info' = self_info\<lparr>pi_port := rc_port receiver\<rparr>
                     in case start (si_discovery io) (si_addrs io) self_info' of
                          None \<Rightarrow> (Inl Discovery_failed, a1)
                        | Some (out, discoverer) \<Rightarrow>
                            (Inr (\<lparr>nd_self_info = self_info', nd_trust = trust, nd_receiver = receiver,
                                nd_state = st, nd_discoverer = discoverer, nd_last_devices = [], nd_loop = k\<rparr>,
                              \<lparr>ns_port = pi_port self_info', ns_fingerprint = id_fingerprint ident\<rparr>),
                             a1\<lparr>ap_ticking := insert k (ap_ticking a1)\<rparr>)))))"

definition node_publish :: "node \<Rightarrow> app \<Rightarrow> app" where
  "node_publish n a = a\<lparr>ap_node := Some n\<rparr>"

definition node_start ::
    "library \<Rightarrow> node_config \<Rightarrow> start_io \<Rightarrow> app \<Rightarrow> (start_failure + node_status) \<times> app" where
  "node_start lb cfg io a = (case node_launch lb cfg io (node_stop a) of
       (Inl e, a') \<Rightarrow> (Inl e, a')
     | (Inr (n, st), a') \<Rightarrow> (Inr st, node_publish n a'))"

section \<open>Calls on the running node\<close>

definition node_announce ::
    "bool \<Rightarrow> (bool \<times> if_addr) list option \<Rightarrow> app \<Rightarrow> (api_error + effects) \<times> app" where
  "node_announce ok addrs a = (case current a of Inl e \<Rightarrow> (Inl e, a)
     | Inr n \<Rightarrow> (let (out, dc) = announce ok addrs (nd_discoverer n)
                in (Inr out, a\<lparr>ap_node := Some (n\<lparr>nd_discoverer := dc\<rparr>)\<rparr>)))"

definition trusted_view_of :: "string \<times> trusted_device \<Rightarrow> trusted_device_view" where
  "trusted_view_of e = \<lparr>tv_fingerprint = fst e, tv_alias = td_alias (snd e), tv_trusted_at = td_trusted_at (snd e)\<rparr>"

text \<open>\<open>it\<close> is the order in which the map of trusted devices is iterated.\<close>

definition trust_list :: "(node \<Rightarrow> (string \<times> trusted_device) list) \<Rightarrow> app \<Rightarrow> api_error + trusted_device_view list" where
  "trust_list it a = map_sum id (\<lambda>n. map trusted_view_of (ts_all (it n))) (current a)"

definition trust_contains :: "string \<Rightarrow> app \<Rightarrow> api_error + bool" where
  "trust_contains fp a = map_sum id (\<lambda>n. ts_contains (nd_trust n) fp) (current a)"

definition node_trust ::
    "(trust_store \<Rightarrow> fs \<Rightarrow> (sec_error + unit) \<times> trust_store \<times> fs) \<Rightarrow> app \<Rightarrow> (api_error + unit) \<times> app" where
  "node_trust op a = (case current a of Inl e \<Rightarrow> (Inl e, a)
     | Inr n \<Rightarrow> (let (r, ts, f) = op (nd_trust n) (ap_fs a)
                in (map_sum Trust_error id r, a\<lparr>ap_fs := f, ap_node := Some (n\<lparr>nd_trust := ts\<rparr>)\<rparr>)))"

definition trust_add ::
    "library \<Rightarrow> string option \<Rightarrow> bool \<Rightarrow> write_outcome \<Rightarrow> string \<Rightarrow> string \<Rightarrow> app \<Rightarrow> (api_error + unit) \<times> app" where
  "trust_add lb now mk w fp alias = node_trust (ts_add (lb_print lb) now mk w fp alias)"

definition trust_remove ::
    "library \<Rightarrow> bool \<Rightarrow> write_outcome \<Rightarrow> string \<Rightarrow> app \<Rightarrow> (api_error + unit) \<times> app" where
  "trust_remove lb mk w fp = node_trust (ts_remove (lb_print lb) mk w fp)"

definition manual_exchange_info ::
    "(string \<Rightarrow> string) \<Rightarrow> (string \<Rightarrow> bool) \<Rightarrow> (string \<Rightarrow> peer_info option) \<Rightarrow> endpoint
      \<Rightarrow> string \<Rightarrow> u16 \<Rightarrow> app \<Rightarrow> api_error + device_snapshot" where
  "manual_exchange_info fp uri_ok from_slice ep address port a = (case current a of Inl e \<Rightarrow> Inl e
     | Inr n \<Rightarrow> map_sum Exchange_error
         (\<lambda>info. \<lparr>ds_alias = pi_alias info, ds_device_type = pi_device_type info,
            ds_fingerprint = pi_fingerprint info, ds_ip = address, ds_port = pi_port info\<rparr>)
         (exchange_info fp uri_ok from_slice ep (address @ '':'' @ dec_string (unat port)) (nd_self_info n)))"

section \<open>What a start leaves behind\<close>

text \<open>How a start comes out, and what it changes besides the files.\<close>

text \<open>What the node says of itself, but for the port.\<close>

abbreviation node_self :: "node_config \<Rightarrow> identity \<Rightarrow> peer_info" where
  "node_self cfg ident \<equiv> \<lparr>pi_alias = nc_alias cfg, pi_device_type = nc_device_type cfg,
     pi_fingerprint = id_fingerprint ident, pi_port = 0\<rparr>"

text \<open>The part of a launch before the receiver is bound fails, or leaves discovery to start.\<close>

lemma node_launch_bound:
  assumes "node_launch lb cfg io a = (r, a')"
  obtains (failed) e f where "r = Inl e" "a' = a\<lparr>ap_fs := f\<rparr>" "e \<noteq> Discovery_failed"
  | (bound) ident f trust rc where
      "load_or_create (lb_hex lb) (lb_sha lb) (lb_certs lb) (si_identity io) (ap_fs a) (nc_base_dir cfg) = (Inr ident, f)"
      "ts_open (lb_parse lb) (si_trust_fault io) f (nc_base_dir cfg) = Inr trust" "rc_self_info rc = node_self cfg ident"
      "(r, a') = (let k = ap_next a; a1 = a\<lparr>ap_fs := f, ap_next := Suc k, ap_accepting := insert k (ap_accepting a)\<rparr>;
            self = (node_self cfg ident)\<lparr>pi_port := rc_port rc\<rparr>
          in case start (si_discovery io) (si_addrs io) self of
            None \<Rightarrow> (Inl Discovery_failed, a1)
          | Some (out, dc) \<Rightarrow> (Inr (\<lparr>nd_self_info = self, nd_trust = trust, nd_receiver = rc, nd_state = Idle,
                nd_discoverer = dc, nd_last_devices = [], nd_loop = k\<rparr>,
              \<lparr>ns_port = rc_port rc, ns_fingerprint = id_fingerprint ident\<rparr>),
              a1\<lparr>ap_ticking := insert k (ap_ticking a1)\<rparr>))"
proof (cases "si_save_dir io")
  case False
  with assms show thesis by (intro failed [of Save_dir_failed "ap_fs a"]) (auto simp: node_launch_def)
next
  case save: True
  obtain i f where l: "load_or_create (lb_hex lb) (lb_sha lb) (lb_certs lb) (si_identity io) (ap_fs a)
      (nc_base_dir cfg) = (i, f)"
    by fastforce
  let ?trust = "ts_open (lb_parse lb) (si_trust_fault io) f (nc_base_dir cfg)"
  let ?recv = "\<lambda>ident. receiver_start (si_bind io) (server_config (lb_key lb) (lb_tls lb) ident)
      (nc_save_dir cfg) (node_self cfg ident) None"
  consider (identity) e where "i = Inl e" | (trust) ident e where "i = Inr ident" "?trust = Inl e"
    | (receiver) ident t e where "i = Inr ident" "?trust = Inr t" "?recv ident = Inl e"
    | (ok) ident t rc st where "i = Inr ident" "?trust = Inr t" "?recv ident = Inr (rc, st)"
    by (metis sum.exhaust surj_pair)
  then show thesis
  proof cases
    case identity
    with save l assms show thesis by (intro failed [of "Identity_failed e" f]) (auto simp: node_launch_def)
  next
    case trust
    with save l assms show thesis by (intro failed [of "Trust_failed e" f]) (auto simp: node_launch_def)
  next
    case receiver
    with save l assms show thesis
      by (intro failed [of "Receiver_failed e" f]) (auto simp: node_launch_def Let_def)
  next
    case ok
    then have "rc_self_info rc = node_self cfg ident" "st = Idle"
      by (auto simp: receiver_start_def split: option.splits sum.splits)
    with save l ok assms show thesis by (intro bound [of ident f t rc]) (auto simp: node_launch_def Let_def split: option.splits)
  qed
qed

lemma node_launch_cases:
  assumes "node_launch lb cfg io a = (r, a')"
  obtains (failed) e where "r = Inl e" "ap_node a' = ap_node a" "ap_ticking a' = ap_ticking a"
      "ap_accepting a' = ap_accepting a" "ap_next a' = ap_next a" "e \<noteq> Discovery_failed"
  | (no_discovery) "r = Inl Discovery_failed" "\<not> si_discovery io" "ap_node a' = ap_node a"
      "ap_ticking a' = ap_ticking a" "ap_accepting a' = insert (ap_next a) (ap_accepting a)"
      "ap_next a' = Suc (ap_next a)"
  | (launched) n st ident f trust out dc where "r = Inr (n, st)"
      "load_or_create (lb_hex lb) (lb_sha lb) (lb_certs lb) (si_identity io) (ap_fs a) (nc_base_dir cfg) = (Inr ident, f)"
      "ts_open (lb_parse lb) (si_trust_fault io) f (nc_base_dir cfg) = Inr trust" "nd_trust n = trust"
      "start (si_discovery io) (si_addrs io) (nd_self_info n) = Some (out, dc)" "nd_discoverer n = dc"
      "nd_self_info n = \<lparr>pi_alias = nc_alias cfg, pi_device_type = nc_device_type cfg,
         pi_fingerprint = id_fingerprint ident, pi_port = rc_port (nd_receiver n)\<rparr>"
      "rc_self_info (nd_receiver n) = (nd_self_info n)\<lparr>pi_port := 0\<rparr>" "nd_state n = Idle"
      "st = \<lparr>ns_port = rc_port (nd_receiver n), ns_fingerprint = id_fingerprint ident\<rparr>"
      "nd_loop n = ap_next a" "ap_fs a' = f" "ap_node a' = ap_node a"
      "ap_ticking a' = insert (ap_next a) (ap_ticking a)"
      "ap_accepting a' = insert (ap_next a) (ap_accepting a)" "ap_next a' = Suc (ap_next a)"
  using assms
proof (cases rule: node_launch_bound)
  case failed: (failed e f)
  then show thesis by (intro that(1)) simp_all
next
  case (bound ident f trust rc)
  show thesis
  proof (cases "start (si_discovery io) (si_addrs io) ((node_self cfg ident)\<lparr>pi_port := rc_port rc\<rparr>)")
    case None
    then have "\<not> si_discovery io" by (auto simp: start_def bind_def)
    with None bound(4) show thesis by (intro no_discovery) (simp_all add: Let_def)
  next
    case (Some o')
    obtain out dc where "o' = (out, dc)" by fastforce
    with Some bound show thesis by (intro launched) (auto simp: Let_def)
  qed
qed

text \<open>
  What a started node says of itself agrees everywhere. After a successful start the app is
  told the same port and fingerprint that announcements carry and that \<open>/info\<close> answers with,
  the receiver is idle, and no device is listed yet.
\<close>

theorem started_node_consistent:
  assumes "node_start lb cfg io a = (Inr st, a')"
  shows "\<exists>n. current a' = Inr n
    \<and> pi_port (nd_self_info n) = ns_port st \<and> pi_fingerprint (nd_self_info n) = ns_fingerprint st
    \<and> dc_self (nd_discoverer n) = nd_self_info n \<and> dc_devices (nd_discoverer n) = fmempty
    \<and> handle_info (nd_receiver n) = json (Info_body (nd_self_info n)) \<and> nd_state n = Idle"
proof -
  from assms obtain n a1 where l: "node_launch lb cfg io (node_stop a) = (Inr (n, st), a1)"
    and a': "a' = node_publish n a1"
    by (auto simp: node_start_def split: prod.splits sum.splits)
  from l show ?thesis
  proof (cases rule: node_launch_cases)
    case (launched n' st' ident f trust out dc)
    from launched(5,6) have "dc_self (nd_discoverer n) = nd_self_info n" "dc_devices (nd_discoverer n) = fmempty"
      using launched(1) by (auto simp: start_def bind_def bind_store_def bind_spawn_def split: if_splits
          dest!: announce_same)
    with launched show ?thesis
      by (auto simp: a' current_def node_publish_def handle_info_def)
  qed auto
qed

section \<open>Starts, stops and what keeps running\<close>

text \<open>
  \<open>node_start\<close> awaits between stopping the old node and storing the new one, and nothing keeps
  two of them apart: \<open>L_launch j\<close> is start number \<open>j\<close> up to there, \<open>L_publish j\<close> the rest.
\<close>

record lifecycle =
  lc_app :: app
  lc_started :: "nat \<Rightarrow> node option"

datatype lifecycle_event = L_launch nat node_config start_io | L_publish nat | L_stop

fun life_exec :: "library \<Rightarrow> lifecycle \<Rightarrow> lifecycle_event \<Rightarrow> lifecycle option" where
  "life_exec lb s (L_launch j cfg io) =
     (if lc_started s j \<noteq> None then None
      else (let (r, a) = node_launch lb cfg io (node_stop (lc_app s))
            in Some (s\<lparr>lc_app := a, lc_started := (lc_started s)(j :=
              (case r of Inl _ \<Rightarrow> None | Inr (n, _) \<Rightarrow> Some n))\<rparr>)))"
| "life_exec lb s (L_publish j) = (case lc_started s j of None \<Rightarrow> None
     | Some n \<Rightarrow> Some (s\<lparr>lc_app := node_publish n (lc_app s), lc_started := (lc_started s)(j := None)\<rparr>))"
| "life_exec lb s L_stop = Some (s\<lparr>lc_app := node_stop (lc_app s)\<rparr>)"

definition life_step :: "library \<Rightarrow> lifecycle \<Rightarrow> lifecycle_event \<Rightarrow> lifecycle \<Rightarrow> bool" where
  "life_step lb s e s' \<longleftrightarrow> life_exec lb s e = Some s'"

definition life_init :: "fs \<Rightarrow> lifecycle" where
  "life_init f = \<lparr>lc_app = \<lparr>ap_fs = f, ap_node = None, ap_accepting = {}, ap_ticking = {}, ap_next = 0\<rparr>,
     lc_started = (\<lambda>_. None)\<rparr>"

text \<open>Starts and stops one after the other, and discovery can bind its port.\<close>

fun one_start :: "lifecycle \<Rightarrow> lifecycle_event \<Rightarrow> bool" where
  "one_start s (L_launch j cfg io) \<longleftrightarrow> lc_started s = (\<lambda>_. None) \<and> si_discovery io"
| "one_start s L_stop \<longleftrightarrow> lc_started s = (\<lambda>_. None)"
| "one_start s _ \<longleftrightarrow> True"

text \<open>The loops of the node that runs, or of the one that is about to.\<close>

definition owned :: "lifecycle \<Rightarrow> nat set" where
  "owned s = nd_loop ` (set_option (ap_node (lc_app s)) \<union> (\<Union>j. set_option (lc_started s j)))"

definition life_ok :: "lifecycle \<Rightarrow> bool" where
  "life_ok s \<longleftrightarrow> ap_accepting (lc_app s) = owned s \<and> ap_ticking (lc_app s) = owned s
     \<and> (lc_started s = (\<lambda>_. None) \<or> ap_node (lc_app s) = None \<and> (\<exists>j n. lc_started s = (\<lambda>_. None)(j := Some n)))"

lemma owned_simps [simp]:
  "lc_started s = (\<lambda>_. None) \<Longrightarrow> owned s = nd_loop ` set_option (ap_node (lc_app s))"
  "lc_started s = (\<lambda>_. None)(j := Some n) \<Longrightarrow> owned s = insert (nd_loop n) (nd_loop ` set_option (ap_node (lc_app s)))"
  by (auto simp: owned_def split: if_splits)

lemma stop_quiet:
  assumes "life_ok s" and "lc_started s = (\<lambda>_. None)"
  shows "ap_accepting (node_stop (lc_app s)) = {}" and "ap_ticking (node_stop (lc_app s)) = {}"
    and "ap_node (node_stop (lc_app s)) = None"
  using assms by (auto simp: life_ok_def node_stop_def split: option.splits)

lemma life_ok_launch:
  assumes "life_ok s" and "lc_started s = (\<lambda>_. None)" and "si_discovery io"
    and "life_step lb s (L_launch j cfg io) s'"
  shows "life_ok s'"
proof -
  obtain r a where l: "node_launch lb cfg io (node_stop (lc_app s)) = (r, a)" by fastforce
  with assms(2,4) have s': "s' = s\<lparr>lc_app := a, lc_started := (lc_started s)(j :=
      (case r of Inl _ \<Rightarrow> None | Inr (n, _) \<Rightarrow> Some n))\<rparr>"
    by (auto simp: life_step_def)
  from l show ?thesis
  proof (cases rule: node_launch_cases)
    case (failed e)
    with stop_quiet [OF assms(1,2)] assms(2) s' show ?thesis by (simp add: life_ok_def)
  next
    case no_discovery
    with assms(3) show ?thesis by simp
  next
    case (launched n st ident f trust out dc)
    then have "lc_started s' = (\<lambda>_. None)(j := Some n)" using assms(2) s' by simp
    with stop_quiet [OF assms(1,2)] launched s' show ?thesis by (auto simp: life_ok_def)
  qed
qed

lemma life_ok_step:
  assumes "life_ok s" and "one_start s e" and "life_step lb s e s'"
  shows "life_ok s'"
proof (cases e)
  case (L_launch j cfg io)
  with assms show ?thesis by (auto intro: life_ok_launch)
next
  case (L_publish j)
  with assms(3) obtain n where n: "lc_started s j = Some n"
    and s': "s' = s\<lparr>lc_app := node_publish n (lc_app s), lc_started := (lc_started s)(j := None)\<rparr>"
    by (auto simp: life_step_def split: option.splits)
  with assms(1) obtain i m where "lc_started s = (\<lambda>_. None)(i := Some m)" and e: "ap_node (lc_app s) = None"
    by (auto simp: life_ok_def)
  with n have "lc_started s = (\<lambda>_. None)(j := Some n)" by (auto split: if_splits)
  with e assms(1) s' show ?thesis by (auto simp: life_ok_def node_publish_def)
next
  case L_stop
  with assms stop_quiet [OF assms(1)] show ?thesis by (auto simp: life_step_def life_ok_def)
qed

interpretation starts_in_turn: guarded_invariant "life_step lb" one_start life_ok for lb
  by unfold_locales (rule life_ok_step)


text \<open>A loop nobody refers to: nothing stops it.\<close>

definition orphan :: "nat \<Rightarrow> lifecycle \<Rightarrow> bool" where
  "orphan k s \<longleftrightarrow> k \<in> ap_accepting (lc_app s) \<and> k < ap_next (lc_app s) \<and> k \<notin> owned s"

lemma owned_iff: "k \<in> owned s \<longleftrightarrow> (\<exists>n. nd_loop n = k \<and> (ap_node (lc_app s) = Some n \<or> (\<exists>j. lc_started s j = Some n)))"
  by (auto simp: owned_def)

lemma orphan_stop:
  assumes "orphan k s"
  shows "k \<in> ap_accepting (node_stop (lc_app s))" and "k < ap_next (node_stop (lc_app s))"
    and "ap_node (node_stop (lc_app s)) = None"
  using assms by (auto simp: orphan_def owned_iff node_stop_def split: option.splits)

lemma orphan_step:
  assumes "orphan k s" and "life_step lb s e s'"
  shows "orphan k s'"
proof (cases e)
  case (L_launch j cfg io)
  obtain r a where l: "node_launch lb cfg io (node_stop (lc_app s)) = (r, a)" by fastforce
  with assms(2) L_launch have s': "s' = s\<lparr>lc_app := a, lc_started := (lc_started s)(j :=
      (case r of Inl _ \<Rightarrow> None | Inr (n, _) \<Rightarrow> Some n))\<rparr>"
    by (auto simp: life_step_def split: if_splits)
  note q = orphan_stop [OF assms(1)]
  have o: "lc_started s i = Some n \<Longrightarrow> nd_loop n \<noteq> k" for i n
    using assms(1) by (auto simp: orphan_def owned_iff)
  from l show ?thesis
    by (cases rule: node_launch_cases) (use q o s' in \<open>auto simp: orphan_def owned_iff split: if_splits\<close>)
next
  case (L_publish j)
  with assms show ?thesis
    by (auto simp: life_step_def orphan_def owned_iff node_publish_def split: option.splits if_splits)
next
  case L_stop
  with assms orphan_stop [OF assms(1)] show ?thesis
    by (auto simp: life_step_def orphan_def owned_iff split: option.splits)
qed

interpretation orphan_loop: step_invariant "life_step lb" "orphan k" for lb k
  by unfold_locales (rule orphan_step)

text \<open>
  A start that fails at discovery leaves its receiver running. The accept loop was spawned
  and dropping the receiver does not abort it; since no node was stored, no later stop or
  start ends it, so the port stays taken and approval requests of the abandoned receiver keep
  coming.
\<close>

theorem failed_start_leaks_receiver:
  assumes "node_start lb cfg io a = (Inl Discovery_failed, a')"
    and "run (life_step lb) \<lparr>lc_app = a', lc_started = (\<lambda>_. None)\<rparr> es s"
  shows "ap_node a' = None \<and> ap_next a \<in> ap_accepting (lc_app s)"
proof -
  from assms(1) have l: "node_launch lb cfg io (node_stop a) = (Inl Discovery_failed, a')"
    by (auto simp: node_start_def split: prod.splits sum.splits)
  have n: "ap_node (node_stop a) = None" "ap_next (node_stop a) = ap_next a"
    by (auto simp: node_stop_def split: option.split)
  from l have o: "orphan (ap_next a) \<lparr>lc_app = a', lc_started = (\<lambda>_. None)\<rparr>" and "ap_node a' = None"
    by (cases rule: node_launch_cases; simp add: n orphan_def)+
  with orphan_loop.run_inv [OF assms(2) o] show ?thesis by (simp add: orphan_def)
qed

text \<open>
  Nor does anything keep two starts apart. If a start begins while another one awaits, the
  node stored first is overwritten without being stopped.
\<close>

theorem overlapping_starts_leak:
  assumes "lc_started s i = Some n" and "lc_started s j = Some m" and "nd_loop n \<noteq> nd_loop m"
    and "nd_loop n \<in> ap_accepting (lc_app s)" and "nd_loop n < ap_next (lc_app s)"
    and "\<And>k n'. lc_started s k = Some n' \<Longrightarrow> nd_loop n' = nd_loop n \<Longrightarrow> k = i"
    and "life_step lb s (L_publish i) s1" and "life_step lb s1 (L_publish j) s2"
    and "run (life_step lb) s2 es s'"
  shows "nd_loop n \<in> ap_accepting (lc_app s')"
proof -
  have "i \<noteq> j" using assms(1-3) by auto
  then have s2: "s2 = s\<lparr>lc_app := node_publish m (node_publish n (lc_app s)),
      lc_started := (lc_started s)(i := None, j := None)\<rparr>"
    using assms(1,2,7,8) by (auto simp: life_step_def)
  have "nd_loop n \<notin> owned s2"
    unfolding owned_iff s2 using assms(3,6) by (auto simp: node_publish_def split: if_splits)
  then have "orphan (nd_loop n) s2" using assms(4,5) by (simp add: orphan_def s2 node_publish_def)
  from orphan_loop.run_inv [OF assms(9) this] show ?thesis by (simp add: orphan_def)
qed

section \<open>A restart\<close>

text \<open>A sequence of trust calls that all succeeded.\<close>

fun trust_calls :: "library \<Rightarrow> ts_op list \<Rightarrow> app \<Rightarrow> app option" where
  "trust_calls lb [] a = Some a"
| "trust_calls lb (x # xs) a = (case node_trust (\<lambda>ts f. ts_exec (lb_print lb) x (ts, f)) a of
       (Inl _, _) \<Rightarrow> None | (Inr _, a') \<Rightarrow> trust_calls lb xs a')"

lemma trust_calls_run:
  assumes "trust_calls lb ops a = Some a'" and "ap_node a = Some n"
  shows "\<exists>ts g. ts_run (lb_print lb) ops (nd_trust n, ap_fs a) = Some (ts, g)
    \<and> ap_node a' = Some (n\<lparr>nd_trust := ts\<rparr>) \<and> ap_fs a' = g"
  using assms
proof (induction ops arbitrary: a n)
  case (Cons x xs)
  obtain r ts f where x: "ts_exec (lb_print lb) x (nd_trust n, ap_fs a) = (r, ts, f)" by (metis prod_cases3)
  with Cons.prems obtain u where "r = Inr u"
    and "trust_calls lb xs (a\<lparr>ap_fs := f, ap_node := Some (n\<lparr>nd_trust := ts\<rparr>)\<rparr>) = Some a'"
    by (cases r) (auto simp: node_trust_def current_def)
  with Cons.IH [of "a\<lparr>ap_fs := f, ap_node := Some (n\<lparr>nd_trust := ts\<rparr>)\<rparr>"] x show ?case by auto
qed simp

lemma ts_exec_frame:
  assumes "ts_exec tv x (ts, f) = (r, ts', g)" and "fs_ok f" and "q \<noteq> ts_path ts"
  shows "fs_ok g \<and> fs_read g q = fs_read f q"
proof -
  have save: "fs_ok h \<and> fs_read h q = fs_read f q"
    if "ts_save tv mk w t f = (r', h)" and "ts_path t = ts_path ts" for mk w t r' h
    using that assms(2,3) fs_write_file_fs_ok [OF assms(2)] fs_write_file_read_other [OF assms(2)]
    by (auto simp: ts_save_def split: if_splits prod.splits)
  show ?thesis
  proof (cases x)
    case (Ts_add now mk w fp al)
    with assms(1) have a: "ts_add tv now mk w fp al ts f = (r, ts', g)" by simp
    from a show ?thesis
      by (rule ts_add_cases) (auto simp: ts_insert_def assms(2) dest: save)
  next
    case (Ts_remove mk w fp)
    with assms(1) have a: "ts_remove tv mk w fp ts f = (r, ts', g)" by simp
    from a show ?thesis by (rule ts_remove_cases) (auto simp: assms(2) dest: save)
  qed
qed

lemma ts_run_frame:
  "ts_run tv xs (ts, f) = Some (ts', g) \<Longrightarrow> fs_ok f \<Longrightarrow> q \<noteq> ts_path ts \<Longrightarrow> fs_read g q = fs_read f q"
proof (induction xs arbitrary: ts f)
  case (Cons x xs)
  from Cons.prems(1) obtain ts1 f1 where 1: "ts_exec tv x (ts, f) = (Inr (), ts1, f1)"
    and r: "ts_run tv xs (ts1, f1) = Some (ts', g)"
    by (rule ts_run_ConsE)
  with Cons.IH [OF r] ts_exec_frame [OF 1 Cons.prems(2,3)] ts_exec_path [OF 1] Cons.prems(3) show ?case by simp
qed simp

text \<open>What a successful start knows of the identity, and what it leaves on disk.\<close>

lemma load_or_create_disk:
  assumes "load_or_create hexe sha pem io f dir = (Inr ident, g)" and "fs_ok f"
    and "\<And>der cert key. ii_generated io = Some (der, cert, key) \<Longrightarrow> pem cert = Some (Some der)"
  shows "\<exists>cert. fs_read g (path_join dir ''cert.pem'') = Some cert \<and> pem cert = Some (Some (id_cert_der ident))
    \<and> id_fingerprint ident = fingerprint_of hexe sha (id_cert_der ident) \<and> fs_ok g"
proof (cases "fs_exists f (path_join dir ''cert.pem'')")
  case True
  with assms(1,2) show ?thesis
    by (auto simp: load_or_create_def Let_def split: option.splits if_splits)
next
  case False
  with assms(1) obtain der cert key where gen: "ii_generated io = Some (der, cert, key)"
    by (auto simp: load_or_create_def Let_def split: if_splits option.splits)
  note c = load_or_create_created [OF assms(1) False assms(2) gen]
  have "fs_ok g"
    using assms(1,2) False gen
    by (auto simp: load_or_create_def Let_def dest: fs_write_file_fs_ok split: if_splits prod.splits)
  with c assms(3) [OF gen] show ?thesis by auto
qed

lemma load_or_create_loads:
  assumes "load_or_create hexe sha pem io f dir = (Inr ident, g)"
    and "fs_read f (path_join dir ''cert.pem'') = Some cert" and "pem cert = Some (Some der)"
  shows "id_fingerprint ident = fingerprint_of hexe sha der \<and> g = f"
  using assms by (auto simp: load_or_create_def Let_def fs_exists_read split: option.splits if_splits)

lemma node_start_launch:
  assumes "node_start lb cfg io a = (Inr st, a')"
  shows "\<exists>n ident f. load_or_create (lb_hex lb) (lb_sha lb) (lb_certs lb) (si_identity io) (ap_fs a) (nc_base_dir cfg)
        = (Inr ident, f)
    \<and> ts_open (lb_parse lb) (si_trust_fault io) f (nc_base_dir cfg) = Inr (nd_trust n)
    \<and> ap_node a' = Some n \<and> ap_fs a' = f \<and> ns_fingerprint st = id_fingerprint ident"
proof -
  from assms obtain n a1 where l: "node_launch lb cfg io (node_stop a) = (Inr (n, st), a1)"
    and a': "a' = node_publish n a1"
    by (auto simp: node_start_def split: prod.splits sum.splits)
  have "ap_fs (node_stop a) = ap_fs a" by (simp add: node_stop_def split: option.split)
  with l a' show ?thesis by (cases rule: node_launch_cases) (auto simp: node_publish_def)
qed


end
