(* ===== verification/Device_Feed.thy ===== *)
theory Device_Feed
  imports Node "HOL-Library.Sublist"
begin

text \<open>
  How the app hears of changes: \<open>emit\<close> of \<open>app/rust/src/core/discovery.rs\<close>, the callbacks that
  \<open>node_start\<close> hands to discovery and receiver, and \<open>node_device_events\<close> and
  \<open>node_saved_events\<close> of \<open>app/rust/src/api/easy_send.rs\<close>.  Between the change of the device map
  and the delivery of the list several locks are taken and released, so an emission is a
  sequence of steps.
\<close>

section \<open>The broadcast channel\<close>

text \<open>
  A \<open>tokio::sync::broadcast\<close> channel of capacity 64, as documented: \<open>log\<close> is everything sent, a
  receiver is a position in it that starts at the end, and one that has fallen behind by more
  than the capacity is told so and moved to the oldest value still kept.
\<close>

definition CHANNEL_CAPACITY :: nat where "CHANNEL_CAPACITY = 64"

datatype 'a received = Received 'a | Lagged

definition rx_recv :: "'a list \<Rightarrow> nat \<Rightarrow> ('a received \<times> nat) option" where
  "rx_recv log pos =
     (if length log \<le> pos then None
      else if CHANNEL_CAPACITY < length log - pos then Some (Lagged, length log - CHANNEL_CAPACITY)
      else Some (Received (log ! pos), Suc pos))"

text \<open>One turn of the loop that forwards to the sink.\<close>

definition forward :: "'a list \<Rightarrow> nat \<times> 'a list \<Rightarrow> (nat \<times> 'a list) option" where
  "forward log fw = (case rx_recv log (fst fw) of
       None \<Rightarrow> None
     | Some (Received x, pos) \<Rightarrow> Some (pos, snd fw @ [x])
     | Some (Lagged, pos) \<Rightarrow> Some (pos, snd fw))"

lemma forward_SomeD:
  assumes "forward log (pos, sink) = Some (pos', sink')"
  shows "pos < pos' \<and> pos' \<le> length log"
    and "pos' = Suc pos \<and> sink' = sink @ [log ! pos] \<or> CHANNEL_CAPACITY < length log - pos \<and> pos' < length log \<and> sink' = sink"
  using assms
  by (auto simp: forward_def rx_recv_def CHANNEL_CAPACITY_def split: if_splits)

lemma forward_caught_up:
  assumes "forward log (pos, sink) = Some (length log, sink')"
  shows "sink' = sink @ [last log]"
proof -
  have "log ! pos = last log" if "length log = Suc pos" using that by (cases log rule: rev_cases) auto
  with forward_SomeD [OF assms] show ?thesis by auto
qed

section \<open>The device list\<close>

text \<open>An emission: the map has changed, a snapshot was taken, it was stored in \<open>last_devices\<close>.\<close>

datatype emission = Changed | Taken "device_snapshot list" | Stored "device_snapshot list"

record subscription =
  sb_pos :: nat
  sb_started :: bool
  sb_sink :: "device_snapshot list list"

record feed =
  fe_devices :: "(string, device) hash_map"
  fe_emissions :: "nat \<Rightarrow> emission option"
  fe_last :: "device_snapshot list"
  fe_log :: "device_snapshot list list"
  fe_sub :: "subscription option"

text \<open>The list made of a snapshot of the map, iterated in the order \<open>it\<close>.\<close>

definition device_list :: "(string \<times> device) list \<Rightarrow> device_snapshot list" where
  "device_list it = map device_snapshot_of (snapshot_of it)"

datatype feed_event =
    F_change nat "(string, device) hash_map"
  | F_take nat "(string \<times> device) list"
  | F_store nat
  | F_send nat
  | F_subscribe
  | F_first
  | F_forward

definition subscribe :: "feed \<Rightarrow> subscription" where
  "subscribe s = \<lparr>sb_pos = length (fe_log s), sb_started = False, sb_sink = []\<rparr>"

definition first_list :: "feed \<Rightarrow> subscription \<Rightarrow> subscription" where
  "first_list s b = b\<lparr>sb_started := True, sb_sink := sb_sink b @ [fe_last s]\<rparr>"

inductive feed_step :: "feed \<Rightarrow> feed_event \<Rightarrow> feed \<Rightarrow> bool" where
  f_change: "fe_emissions s j = None \<Longrightarrow> feed_step s (F_change j m)
    (s\<lparr>fe_devices := m, fe_emissions := (fe_emissions s)(j := Some Changed)\<rparr>)"
| f_take: "fe_emissions s j = Some Changed \<Longrightarrow> is_iteration (fe_devices s) it \<Longrightarrow> feed_step s (F_take j it)
    (s\<lparr>fe_emissions := (fe_emissions s)(j := Some (Taken (device_list it)))\<rparr>)"
| f_store: "fe_emissions s j = Some (Taken l) \<Longrightarrow> feed_step s (F_store j)
    (s\<lparr>fe_last := l, fe_emissions := (fe_emissions s)(j := Some (Stored l))\<rparr>)"
| f_send: "fe_emissions s j = Some (Stored l) \<Longrightarrow> feed_step s (F_send j)
    (s\<lparr>fe_log := fe_log s @ [l], fe_emissions := (fe_emissions s)(j := None)\<rparr>)"
| f_subscribe: "fe_sub s = None \<Longrightarrow> feed_step s F_subscribe (s\<lparr>fe_sub := Some (subscribe s)\<rparr>)"
| f_first: "fe_sub s = Some b \<Longrightarrow> \<not> sb_started b \<Longrightarrow> feed_step s F_first
    (s\<lparr>fe_sub := Some (first_list s b)\<rparr>)"
| f_forward: "fe_sub s = Some b \<Longrightarrow> sb_started b \<Longrightarrow> forward (fe_log s) (sb_pos b, sb_sink b) = Some (pos, sink) \<Longrightarrow>
    feed_step s F_forward (s\<lparr>fe_sub := Some (b\<lparr>sb_pos := pos, sb_sink := sink\<rparr>)\<rparr>)"

inductive_simps feed_step_change: "feed_step s (F_change j m) s'"
inductive_simps feed_step_take: "feed_step s (F_take j it) s'"
inductive_simps feed_step_store: "feed_step s (F_store j) s'"
inductive_simps feed_step_send: "feed_step s (F_send j) s'"
inductive_simps feed_step_subscribe: "feed_step s F_subscribe s'"
inductive_simps feed_step_first: "feed_step s F_first s'"
inductive_simps feed_step_forward: "feed_step s F_forward s'"

lemmas feed_step_simps = feed_step_change feed_step_take feed_step_store feed_step_send
  feed_step_subscribe feed_step_first feed_step_forward

definition feed_init :: feed where
  "feed_init = \<lparr>fe_devices = fmempty, fe_emissions = (\<lambda>_. None), fe_last = [], fe_log = [], fe_sub = None\<rparr>"

definition settled :: "feed \<Rightarrow> bool" where
  "settled s \<longleftrightarrow> fe_emissions s = (\<lambda>_. None)"

text \<open>A change starts only when the emission of the one before is over.\<close>

fun one_emission :: "feed \<Rightarrow> feed_event \<Rightarrow> bool" where
  "one_emission s (F_change j m) \<longleftrightarrow> settled s"
| "one_emission s _ \<longleftrightarrow> True"

text \<open>A list that shows what the map holds.\<close>

definition shows_map :: "feed \<Rightarrow> device_snapshot list \<Rightarrow> bool" where
  "shows_map s l \<longleftrightarrow> (\<exists>it. is_iteration (fe_devices s) it \<and> l = device_list it)"

fun emission_ok :: "feed \<Rightarrow> emission \<Rightarrow> bool" where
  "emission_ok s Changed \<longleftrightarrow> True"
| "emission_ok s (Taken l) \<longleftrightarrow> shows_map s l"
| "emission_ok s (Stored l) \<longleftrightarrow> shows_map s l \<and> fe_last s = l"

text \<open>Either nothing is under way and all is up to date, or one emission is, up to date itself.\<close>

definition feed_ok :: "feed \<Rightarrow> bool" where
  "feed_ok s \<longleftrightarrow>
     (if settled s then shows_map s (fe_last s) \<and> (fe_log s \<noteq> [] \<longrightarrow> last (fe_log s) = fe_last s)
        \<and> (\<forall>b. fe_sub s = Some b \<longrightarrow> sb_started b \<longrightarrow> sb_pos b = length (fe_log s) \<longrightarrow>
             sb_sink b \<noteq> [] \<and> last (sb_sink b) = fe_last s)
      else \<exists>j e. fe_emissions s = (\<lambda>_. None)(j := Some e) \<and> emission_ok s e)
     \<and> (\<forall>b. fe_sub s = Some b \<longrightarrow> sb_pos b \<le> length (fe_log s))"

lemma shows_map_cong [simp]:
  "shows_map (s\<lparr>fe_emissions := e\<rparr>) l = shows_map s l" "shows_map (s\<lparr>fe_last := x\<rparr>) l = shows_map s l"
  "shows_map (s\<lparr>fe_log := y\<rparr>) l = shows_map s l" "shows_map (s\<lparr>fe_sub := z\<rparr>) l = shows_map s l"
  by (simp_all add: shows_map_def)

lemma settled_simps [simp]:
  "settled (s\<lparr>fe_last := x\<rparr>) = settled s" "settled (s\<lparr>fe_log := y\<rparr>) = settled s"
  "settled (s\<lparr>fe_sub := z\<rparr>) = settled s" "settled (s\<lparr>fe_devices := m\<rparr>) = settled s"
  "\<not> settled (s\<lparr>fe_emissions := (f :: nat \<Rightarrow> emission option)(j := Some e)\<rparr>)"
  by (auto simp: settled_def fun_eq_iff)

lemma feed_ok_emitting:
  assumes "feed_ok s" and "fe_emissions s j = Some e"
  shows "fe_emissions s = (\<lambda>_. None)(j := Some e)" and "emission_ok s e" and "\<not> settled s"
    and "fe_sub s = Some b \<Longrightarrow> sb_pos b \<le> length (fe_log s)"
proof -
  show n: "\<not> settled s" using assms(2) by (auto simp: settled_def)
  with assms(1) obtain i d where i: "fe_emissions s = (\<lambda>_. None)(i := Some d)" "emission_ok s d"
    by (auto simp: feed_ok_def)
  with assms(2) show "fe_emissions s = (\<lambda>_. None)(j := Some e)" "emission_ok s e"
    by (auto split: if_splits)
  show "sb_pos b \<le> length (fe_log s)" if "fe_sub s = Some b" using assms(1) that by (simp add: feed_ok_def)
qed

lemma emission_ok_sub [simp]: "emission_ok (s\<lparr>fe_sub := z\<rparr>) e = emission_ok s e"
  by (cases e) simp_all

text \<open>A new position of the subscriber is fine if it is caught up only with the latest list.\<close>

lemma feed_ok_sub:
  assumes "feed_ok s" and "sb_pos b \<le> length (fe_log s)"
    and "settled s \<Longrightarrow> sb_started b \<Longrightarrow> sb_pos b = length (fe_log s) \<Longrightarrow> sb_sink b \<noteq> [] \<and> last (sb_sink b) = fe_last s"
  shows "feed_ok (s\<lparr>fe_sub := Some b\<rparr>)"
  using assms by (auto simp: feed_ok_def split: if_splits)

lemma feed_ok_emission:
  assumes "fe_emissions s = (\<lambda>_. None)(j := Some e)" and "emission_ok s e"
    and "\<And>b. fe_sub s = Some b \<Longrightarrow> sb_pos b \<le> length (fe_log s)"
  shows "feed_ok s"
  using assms by (auto simp: feed_ok_def settled_def fun_eq_iff split: if_splits)

lemma feed_ok_step:
  assumes "feed_ok s" and "one_emission s e" and "feed_step s e s'"
  shows "feed_ok s'"
  using assms(3)
proof (cases rule: feed_step.cases)
  case (f_change j m)
  with assms(1,2) show ?thesis
    by (intro feed_ok_emission [of _ j Changed]) (auto simp: feed_ok_def settled_def)
next
  case (f_take j it)
  note now = feed_ok_emitting [OF assms(1) f_take(3)]
  from f_take now(1) now(4) show ?thesis
    by (intro feed_ok_emission [of _ j "Taken (device_list it)"]) (auto simp: shows_map_def)
next
  case (f_store j l)
  note now = feed_ok_emitting [OF assms(1) f_store(3)]
  from f_store now(1,2) now(4) show ?thesis by (intro feed_ok_emission [of _ j "Stored l"]) auto
next
  case (f_send j l)
  with feed_ok_emitting [OF assms(1) f_send(3)] show ?thesis
    by (fastforce simp: feed_ok_def settled_def)
next
  case f_subscribe
  with assms(1) show ?thesis by (auto intro!: feed_ok_sub simp: subscribe_def)
next
  case (f_first b)
  with assms(1) show ?thesis by (auto intro!: feed_ok_sub simp: first_list_def feed_ok_def)
next
  case (f_forward b pos sink)
  note fw = f_forward(5)
  have "sink \<noteq> [] \<and> last sink = fe_last s" if "settled s" "pos = length (fe_log s)"
  proof -
    have "sink = sb_sink b @ [last (fe_log s)]" using fw that(2) forward_caught_up by blast
    moreover have "fe_log s \<noteq> []" using forward_SomeD(1) [OF fw] that(2) by auto
    ultimately show ?thesis using assms(1) that(1) by (auto simp: feed_ok_def)
  qed
  with f_forward forward_SomeD(1) [OF fw] assms(1) show ?thesis by (auto intro!: feed_ok_sub)
qed

interpretation feed_kept: guarded_invariant feed_step one_emission feed_ok
  by unfold_locales (rule feed_ok_step)

text \<open>The forwarding loop catches up: each turn moves it on, and never beyond the end.\<close>

lemma forward_catches_up:
  assumes "fe_sub s = Some b" and "sb_started b" and "sb_pos b \<le> length (fe_log s)"
  shows "\<exists>k s' b'. k \<le> length (fe_log s) - sb_pos b \<and> run feed_step s (replicate k F_forward) s'
    \<and> fe_sub s' = Some b' \<and> sb_started b' \<and> rx_recv (fe_log s') (sb_pos b') = None
    \<and> fe_devices s' = fe_devices s \<and> fe_emissions s' = fe_emissions s"
  using assms
proof (induction "length (fe_log s) - sb_pos b" arbitrary: s b rule: less_induct)
  case less
  show ?case
  proof (cases "forward (fe_log s) (sb_pos b, sb_sink b)")
    case None
    then have "rx_recv (fe_log s) (sb_pos b) = None" by (auto simp: forward_def split: option.splits received.splits)
    with less.prems show ?thesis by (intro exI [of _ 0] exI [of _ s] exI [of _ b]) simp
  next
    case (Some fw)
    obtain pos sink where fw: "fw = (pos, sink)" by fastforce
    define s1 where "s1 = s\<lparr>fe_sub := Some (b\<lparr>sb_pos := pos, sb_sink := sink\<rparr>)\<rparr>"
    have step: "feed_step s F_forward s1" using less.prems Some fw by (simp add: feed_step_forward s1_def)
    have "sb_pos b < pos" "pos \<le> length (fe_log s)" using forward_SomeD(1) Some fw by blast+
    moreover from this have "\<exists>k s' b'. k \<le> length (fe_log s1) - pos \<and> run feed_step s1 (replicate k F_forward) s'
        \<and> fe_sub s' = Some b' \<and> sb_started b' \<and> rx_recv (fe_log s') (sb_pos b') = None
        \<and> fe_devices s' = fe_devices s1 \<and> fe_emissions s' = fe_emissions s1"
      using less.hyps [of s1 "b\<lparr>sb_pos := pos, sb_sink := sink\<rparr>"] less.prems by (simp add: s1_def)
    then obtain k s' b' where k: "k \<le> length (fe_log s1) - pos" and r: "run feed_step s1 (replicate k F_forward) s'"
        "fe_sub s' = Some b'" "sb_started b'" "rx_recv (fe_log s') (sb_pos b') = None"
        "fe_devices s' = fe_devices s1" "fe_emissions s' = fe_emissions s1"
      by blast
    ultimately show ?thesis using run_Cons [OF step r(1)]
      by (intro exI [of _ "Suc k"] exI [of _ s'] exI [of _ b']) (simp add: s1_def)
  qed
qed

text \<open>
  C16: Whenever the app subscribes, and however far its sink falls behind, the list it shows in
  the end is the right one: if emissions do not overlap, then once nothing is under way the
  forwarding loop needs at most as many turns as lists were sent, and after them the last
  list in the sink shows the device map.  So a device found between the start of the node
  and the subscription is not missed.
\<close>

theorem subscriber_sees_latest:
  assumes "run (guarded feed_step one_emission) feed_init es s" and "settled s"
    and "fe_sub s = Some b" and "sb_started b"
  shows "\<exists>k s' b' it. k \<le> length (fe_log s) \<and> run feed_step s (replicate k F_forward) s' \<and> fe_sub s' = Some b'
    \<and> rx_recv (fe_log s') (sb_pos b') = None \<and> is_iteration (fe_devices s) it
    \<and> sb_sink b' \<noteq> [] \<and> last (sb_sink b') = device_list it"
proof -
  have "shows_map feed_init []"
    by (simp add: shows_map_def feed_init_def is_iteration_def device_list_def snapshot_of_def)
      (rule exI [of _ "[]"], simp add: fun_eq_iff)
  then have "feed_ok feed_init" by (simp add: feed_ok_def feed_init_def settled_def)
  with assms(1) have "feed_ok s" by (rule feed_kept.guarded_run_inv)
  moreover from this have "sb_pos b \<le> length (fe_log s)" using assms(3) by (simp add: feed_ok_def)
  with assms(3,4) forward_catches_up obtain k s' b' where k: "k \<le> length (fe_log s) - sb_pos b"
    and r: "run feed_step s (replicate k F_forward) s'"
    and b': "fe_sub s' = Some b'" "sb_started b'" "rx_recv (fe_log s') (sb_pos b') = None"
    and same: "fe_devices s' = fe_devices s" "fe_emissions s' = fe_emissions s"
    by blast
  have "run (guarded feed_step one_emission) s (replicate k F_forward) s'"
    by (rule guarded_runI [OF r]) auto
  ultimately have ok: "feed_ok s'" by (rule feed_kept.guarded_run_inv [rotated])
  have "sb_pos b' = length (fe_log s')"
    using ok b' by (auto simp: feed_ok_def rx_recv_def split: if_splits)
  moreover have "settled s'" using assms(2) same(2) by (simp add: settled_def)
  ultimately have "sb_sink b' \<noteq> []" "shows_map s' (last (sb_sink b'))" using ok b'(1,2) by (auto simp: feed_ok_def)
  then obtain it where "is_iteration (fe_devices s) it" "last (sb_sink b') = device_list it"
    by (auto simp: shows_map_def same(1))
  with k r b' \<open>sb_sink b' \<noteq> []\<close> show ?thesis by (intro exI [of _ k] exI [of _ s'] exI [of _ b'] exI [of _ it]) simp
qed

text \<open>
  Emissions do overlap: the cleanup and the read loop run on different threads, and the
  snapshot is handed on after the lock is released. If the older snapshot is delivered last,
  the app keeps showing it although the map holds something else, until the next change.
\<close>

theorem overlapping_emissions_stale:
  "\<exists>es s b. run feed_step feed_init es s \<and> settled s \<and> fe_sub s = Some b \<and> sb_started b
    \<and> rx_recv (fe_log s) (sb_pos b) = None \<and> fe_devices s = fmempty
    \<and> last (sb_sink b) \<noteq> [] \<and> last (sb_sink b) = fe_last s"
proof -
  define d where "d = \<lparr>dv_info = \<lparr>pi_alias = ''A'', pi_device_type = '''', pi_fingerprint = ''F'', pi_port = 1\<rparr>,
    dv_ip = 1, dv_last_seen = 0\<rparr>"
  define m where "m = fmupd ''F'' d fmempty"
  define l where "l = device_list [(''F'', d)]"
  have it: "is_iteration m [(''F'', d)]" "is_iteration (fmempty :: (string, device) hash_map) []"
    by (auto simp: is_iteration_def m_def)
  have l: "l \<noteq> []" by (simp add: l_def device_list_def snapshot_of_def)
  define s where "s = \<lparr>fe_devices = fmempty, fe_emissions = (\<lambda>_. None), fe_last = l, fe_log = [device_list [], l],
    fe_sub = Some \<lparr>sb_pos = 2, sb_started = True, sb_sink = [[], device_list [], l]\<rparr>\<rparr>"
  have "run feed_step feed_init [F_subscribe, F_first, F_change 1 m, F_take 1 [(''F'', d)], F_change 2 fmempty,
      F_take 2 [], F_store 2, F_send 2, F_store 1, F_send 1, F_forward, F_forward] s"
    by (simp add: run_Cons_iff feed_step_simps feed_init_def subscribe_def first_list_def it
        flip: l_def) (simp add: forward_def rx_recv_def CHANNEL_CAPACITY_def s_def fun_eq_iff)
  moreover have "settled s" "fe_last s = l" "rx_recv (fe_log s) 2 = None" by (simp_all add: s_def settled_def rx_recv_def)
  ultimately show ?thesis using l by (intro exI conjI) (assumption | simp add: s_def)+
qed

section \<open>Saved files\<close>

record saved_file_event =
  sv_path :: string
  sv_from_alias :: string

text \<open>The receiver's callback; a path is made printable.\<close>

definition saved_event_of :: "saved_file \<Rightarrow> saved_file_event" where
  "saved_event_of saved = \<lparr>sv_path = from_utf8_lossy (sf_path saved), sv_from_alias = sf_from saved\<rparr>"

text \<open>\<open>node_saved_events\<close>: no initial value; \<open>sd_start\<close> remembers where the subscription began.\<close>

record saved_feed =
  sd_log :: "saved_file_event list"
  sd_start :: nat
  sd_fw :: "(nat \<times> saved_file_event list) option"

datatype saved_feed_event = Sv_saved saved_file | Sv_subscribe | Sv_forward

fun saved_exec :: "saved_feed \<Rightarrow> saved_feed_event \<Rightarrow> saved_feed option" where
  "saved_exec s (Sv_saved f) = Some (s\<lparr>sd_log := sd_log s @ [saved_event_of f]\<rparr>)"
| "saved_exec s Sv_subscribe = (case sd_fw s of Some _ \<Rightarrow> None
     | None \<Rightarrow> Some (s\<lparr>sd_start := length (sd_log s), sd_fw := Some (length (sd_log s), [])\<rparr>))"
| "saved_exec s Sv_forward = (case sd_fw s of None \<Rightarrow> None
     | Some fw \<Rightarrow> map_option (\<lambda>fw'. s\<lparr>sd_fw := Some fw'\<rparr>) (forward (sd_log s) fw))"

definition saved_step :: "saved_feed \<Rightarrow> saved_feed_event \<Rightarrow> saved_feed \<Rightarrow> bool" where
  "saved_step s e s' \<longleftrightarrow> saved_exec s e = Some s'"

text \<open>The subscriber is never more than the capacity behind.\<close>

fun keeps_up :: "saved_feed \<Rightarrow> saved_feed_event \<Rightarrow> bool" where
  "keeps_up s Sv_forward = (\<forall>pos sink. sd_fw s = Some (pos, sink) \<longrightarrow> length (sd_log s) - pos \<le> CHANNEL_CAPACITY)"
| "keeps_up s _ = True"

definition saved_ok :: "saved_feed \<Rightarrow> bool" where
  "saved_ok s \<longleftrightarrow> (case sd_fw s of None \<Rightarrow> True | Some (pos, sink) \<Rightarrow>
     sd_start s \<le> pos \<and> pos \<le> length (sd_log s) \<and> subseq sink (drop (sd_start s) (take pos (sd_log s))))"

definition saved_all :: "saved_feed \<Rightarrow> bool" where
  "saved_all s \<longleftrightarrow> (case sd_fw s of None \<Rightarrow> True | Some (pos, sink) \<Rightarrow>
     sd_start s \<le> pos \<and> pos \<le> length (sd_log s) \<and> sink = drop (sd_start s) (take pos (sd_log s)))"

lemma drop_take_Suc: "a \<le> pos \<Longrightarrow> pos < length xs \<Longrightarrow> drop a (take (Suc pos) xs) = drop a (take pos xs) @ [xs ! pos]"
  by (simp add: take_Suc_conv_app_nth)

lemma subseq_drop_take:
  assumes "pos \<le> pos'"
  shows "subseq (drop a (take pos xs)) (drop a (take pos' xs))"
proof -
  have "take pos' xs = take pos xs @ drop pos (take pos' xs)"
    by (metis append_take_drop_id assms min.absorb1 take_take)
  then have "drop a (take pos' xs) = drop a (take pos xs) @ drop (a - length (take pos xs)) (drop pos (take pos' xs))"
    by (metis drop_append)
  then show ?thesis by (metis list_emb_append_mono list_emb_Nil subseq_order.order_refl append_Nil2)
qed

lemma saved_ok_step:
  assumes "saved_ok s" and "saved_step s e s'"
  shows "saved_ok s'"
proof (cases e)
  case (Sv_saved f)
  with assms show ?thesis by (auto simp: saved_step_def saved_ok_def split: option.splits)
next
  case Sv_subscribe
  with assms show ?thesis by (auto simp: saved_step_def saved_ok_def split: option.splits)
next
  case Sv_forward
  with assms(2) obtain pos sink pos' sink' where fw: "sd_fw s = Some (pos, sink)"
    and f: "forward (sd_log s) (pos, sink) = Some (pos', sink')" and s': "s' = s\<lparr>sd_fw := Some (pos', sink')\<rparr>"
    by (auto simp: saved_step_def split: option.splits)
  note d = forward_SomeD [OF f]
  have sub: "sd_start s \<le> pos" "subseq sink (drop (sd_start s) (take pos (sd_log s)))"
    using assms(1) fw by (simp_all add: saved_ok_def)
  have "subseq sink (drop (sd_start s) (take pos' (sd_log s)))"
    by (rule subseq_order.order_trans [OF sub(2) subseq_drop_take]) (use d(1) in simp)
  moreover have "subseq (sink @ [sd_log s ! pos]) (drop (sd_start s) (take (Suc pos) (sd_log s)))" if "pos' = Suc pos"
    using sub d(1) that by (simp add: drop_take_Suc list_emb_append_mono)
  ultimately show ?thesis using d sub(1) s' by (auto simp: saved_ok_def)
qed

lemma saved_all_step:
  assumes "saved_all s" and "keeps_up s e" and "saved_step s e s'"
  shows "saved_all s'"
proof (cases e)
  case Sv_forward
  with assms(3) obtain pos sink pos' sink' where fw: "sd_fw s = Some (pos, sink)"
    and f: "forward (sd_log s) (pos, sink) = Some (pos', sink')" and s': "s' = s\<lparr>sd_fw := Some (pos', sink')\<rparr>"
    by (auto simp: saved_step_def split: option.splits)
  have all: "sd_start s \<le> pos" "pos \<le> length (sd_log s)" "sink = drop (sd_start s) (take pos (sd_log s))"
    and "length (sd_log s) - pos \<le> CHANNEL_CAPACITY"
    using assms(1,2) Sv_forward fw by (simp_all add: saved_all_def)
  with forward_SomeD [OF f] have "pos' = Suc pos" "pos' \<le> length (sd_log s)" "sink' = sink @ [sd_log s ! pos]"
    by linarith+
  with all show ?thesis by (simp add: saved_all_def s' drop_take_Suc)
qed (use assms in \<open>auto simp: saved_step_def saved_all_def split: option.splits\<close>)

interpretation saved_in_order: step_invariant saved_step saved_ok
  by unfold_locales (rule saved_ok_step)

interpretation saved_complete: guarded_invariant saved_step keeps_up saved_all
  by unfold_locales (rule saved_all_step)

text \<open>
  Saved files are reported in the order they were saved, each at most once, from the
  subscription on.
\<close>

theorem saved_events_in_order:
  assumes "run saved_step \<lparr>sd_log = [], sd_start = 0, sd_fw = None\<rparr> es s" and "sd_fw s = Some (pos, sink)"
  shows "subseq sink (drop (sd_start s) (sd_log s))"
proof -
  have "saved_ok s" by (rule saved_in_order.run_inv [OF assms(1)]) (simp add: saved_ok_def)
  with assms(2) have "subseq sink (drop (sd_start s) (take pos (sd_log s)))" and p: "pos \<le> length (sd_log s)"
    by (simp_all add: saved_ok_def)
  from subseq_order.order_trans [OF this(1) subseq_drop_take [OF p]] show ?thesis by simp
qed

text \<open>A subscriber that never falls behind by more than the capacity gets all of them.\<close>

theorem saved_events_complete:
  assumes "run (guarded saved_step keeps_up) \<lparr>sd_log = [], sd_start = 0, sd_fw = None\<rparr> es s"
    and "sd_fw s = Some (pos, sink)" and "rx_recv (sd_log s) pos = None"
  shows "sink = drop (sd_start s) (sd_log s)"
proof -
  have "saved_all s" by (rule saved_complete.guarded_run_inv [OF assms(1)]) (simp add: saved_all_def)
  with assms(2,3) show ?thesis by (auto simp: saved_all_def rx_recv_def split: if_splits)
qed

end
