(* ===== verification/Bridge_Codec.thy ===== *)
theory Bridge_Codec
  imports Lifecycle Device_Feed "HOL-Library.Monad_Syntax"
begin

text \<open>
  \<open>app/rust/src/frb_generated.rs\<close>: how values cross the bridge between the app and Rust as
  bytes.  A decoder takes the unread bytes and yields a value and what is left; \<open>None\<close> is a
  panic.  Reading and writing integers of more than one byte is the \<open>byteorder\<close> crate, and
  the check at the end of a message belongs to the bridge library: both are a parameter.
\<close>

section \<open>Codecs\<close>

type_synonym 'a decoder = "string \<Rightarrow> ('a \<times> string) option"

text \<open>A codec reads back what it wrote, whatever follows, and reads no further.\<close>

locale codec =
  fixes enc :: "'a \<Rightarrow> string" and dec :: "'a decoder" and ok :: "'a \<Rightarrow> bool"
  assumes dec_enc: "ok x \<Longrightarrow> dec (enc x @ rest) = Some (x, rest)"
begin

lemma dec_enc_all: "ok x \<Longrightarrow> dec (enc x) = Some (x, [])"
  using dec_enc [of x "[]"] by simp

text \<open>No encoding is a prefix of another, so values can be written one after the other.\<close>

lemma enc_prefix_free: "ok x \<Longrightarrow> ok y \<Longrightarrow> enc x @ r = enc y @ r' \<longleftrightarrow> x = y \<and> r = r'"
  by (metis dec_enc option.inject prod.inject)

lemma enc_inj: "ok x \<Longrightarrow> ok y \<Longrightarrow> enc x = enc y \<longleftrightarrow> x = y"
  using enc_prefix_free [of x y "[]" "[]"] by simp

end

section \<open>Integers\<close>

record byteorder =
  bo_put16 :: "u16 \<Rightarrow> string"
  bo_put32 :: "u32 \<Rightarrow> string"
  bo_put64 :: "u64 \<Rightarrow> string"
  bo_get16 :: "u16 decoder"
  bo_get32 :: "u32 decoder"
  bo_get64 :: "u64 decoder"
  bo_end :: "string \<Rightarrow> bool"

text \<open>What the sources rely on.\<close>

locale byteorder_laws =
  fixes bo :: byteorder
  assumes get_put16: "bo_get16 bo (bo_put16 bo a @ rest) = Some (a, rest)"
    and get_put32: "bo_get32 bo (bo_put32 bo b @ rest) = Some (b, rest)"
    and get_put64: "bo_get64 bo (bo_put64 bo c @ rest) = Some (c, rest)"
    and end_Nil: "bo_end bo []"

text \<open>Bytes in the order of a little-endian machine.\<close>

fun bytes_le :: "nat \<Rightarrow> nat \<Rightarrow> string" where
  "bytes_le 0 x = []"
| "bytes_le (Suc k) x = char_of (x mod 256) # bytes_le k (x div 256)"

fun value_le :: "string \<Rightarrow> nat" where
  "value_le [] = 0"
| "value_le (c # s) = byte c + 256 * value_le s"

definition get_le :: "nat \<Rightarrow> 'w :: len word decoder" where
  "get_le k s = (if length s < k then None else Some (of_nat (value_le (take k s)), drop k s))"

definition little_endian :: byteorder where
  "little_endian = \<lparr>bo_put16 = bytes_le 2 \<circ> unat, bo_put32 = bytes_le 4 \<circ> unat, bo_put64 = bytes_le 8 \<circ> unat,
     bo_get16 = get_le 2, bo_get32 = get_le 4, bo_get64 = get_le 8, bo_end = (\<lambda>s. s = [])\<rparr>"

lemma length_bytes_le [simp]: "length (bytes_le k x) = k"
  by (induction k arbitrary: x) auto

lemma value_bytes_le: "x < 256 ^ k \<Longrightarrow> value_le (bytes_le k x) = x"
proof (induction k arbitrary: x)
  case (Suc k)
  then have "value_le (bytes_le k (x div 256)) = x div 256" by (simp add: less_mult_imp_div_less mult.commute)
  moreover have "byte (char_of (x mod 256) :: char) = x mod 256" by simp
  ultimately show ?case by simp
qed simp

lemma get_le_bytes:
  fixes w :: "'w :: len word"
  assumes "LENGTH('w) \<le> 8 * k"
  shows "get_le k (bytes_le k (unat w) @ rest) = Some (w, rest)"
proof -
  have "(2 :: nat) ^ LENGTH('w) \<le> 2 ^ (8 * k)" using assms by (intro power_increasing) simp_all
  also have "(2 :: nat) ^ (8 * k) = 256 ^ k" by (simp add: power_mult)
  finally have "unat w < 256 ^ k" using unsigned_less [of w] by (rule less_le_trans [rotated])
  then show ?thesis by (simp add: get_le_def value_bytes_le)
qed

interpretation le: byteorder_laws little_endian
  by unfold_locales (simp_all add: little_endian_def get_le_bytes)

definition sse_encode_u8 :: "char \<Rightarrow> string" where
  "sse_encode_u8 b = [b]"

definition sse_decode_u8 :: "char decoder" where
  "sse_decode_u8 s = (case s of [] \<Rightarrow> None | b # rest \<Rightarrow> Some (b, rest))"

definition sse_encode_u16 :: "byteorder \<Rightarrow> u16 \<Rightarrow> string" where
  "sse_encode_u16 bo = bo_put16 bo"

definition sse_decode_u16 :: "byteorder \<Rightarrow> u16 decoder" where
  "sse_decode_u16 bo = bo_get16 bo"

definition sse_encode_u32 :: "byteorder \<Rightarrow> u32 \<Rightarrow> string" where
  "sse_encode_u32 bo = bo_put32 bo"

definition sse_decode_u32 :: "byteorder \<Rightarrow> u32 decoder" where
  "sse_decode_u32 bo = bo_get32 bo"

definition sse_encode_i32 :: "byteorder \<Rightarrow> i32 \<Rightarrow> string" where
  "sse_encode_i32 bo = bo_put32 bo"

definition sse_decode_i32 :: "byteorder \<Rightarrow> i32 decoder" where
  "sse_decode_i32 bo = bo_get32 bo"

definition sse_encode_i64 :: "byteorder \<Rightarrow> i64 \<Rightarrow> string" where
  "sse_encode_i64 bo = bo_put64 bo"

definition sse_decode_i64 :: "byteorder \<Rightarrow> i64 decoder" where
  "sse_decode_i64 bo = bo_get64 bo"

definition sse_encode_usize :: "byteorder \<Rightarrow> u64 \<Rightarrow> string" where
  "sse_encode_usize bo = bo_put64 bo"

definition sse_decode_usize :: "byteorder \<Rightarrow> u64 decoder" where
  "sse_decode_usize bo = bo_get64 bo"

definition sse_encode_bool :: "bool \<Rightarrow> string" where
  "sse_encode_bool b = [char_of (of_bool b :: nat)]"

definition sse_decode_bool :: "bool decoder" where
  "sse_decode_bool s = (case s of [] \<Rightarrow> None | b # rest \<Rightarrow> Some (byte b \<noteq> 0, rest))"

interpretation c_u8: codec sse_encode_u8 sse_decode_u8 "\<lambda>_. True"
  by unfold_locales (simp add: sse_encode_u8_def sse_decode_u8_def)

interpretation c_bool: codec sse_encode_bool sse_decode_bool "\<lambda>_. True"
  by unfold_locales (simp add: sse_encode_bool_def sse_decode_bool_def)

sublocale byteorder_laws \<subseteq> c_u16: codec "sse_encode_u16 bo" "sse_decode_u16 bo" "\<lambda>_. True"
  by unfold_locales (simp add: sse_encode_u16_def sse_decode_u16_def get_put16)

sublocale byteorder_laws \<subseteq> c_u32: codec "sse_encode_u32 bo" "sse_decode_u32 bo" "\<lambda>_. True"
  by unfold_locales (simp add: sse_encode_u32_def sse_decode_u32_def get_put32)

sublocale byteorder_laws \<subseteq> c_i32: codec "sse_encode_i32 bo" "sse_decode_i32 bo" "\<lambda>_. True"
  by unfold_locales (simp add: sse_encode_i32_def sse_decode_i32_def get_put32)

sublocale byteorder_laws \<subseteq> c_i64: codec "sse_encode_i64 bo" "sse_decode_i64 bo" "\<lambda>_. True"
  by unfold_locales (simp add: sse_encode_i64_def sse_decode_i64_def get_put64)

sublocale byteorder_laws \<subseteq> c_usize: codec "sse_encode_usize bo" "sse_decode_usize bo" "\<lambda>_. True"
  by unfold_locales (simp add: sse_encode_usize_def sse_decode_usize_def get_put64)

section \<open>Vectors, texts and options\<close>

text \<open>\<open>Vec\<close>: the length as an \<open>i32\<close>, then the elements.  A negative length panics when the
  vector is allocated.\<close>

definition sse_encode_vec :: "byteorder \<Rightarrow> ('a \<Rightarrow> string) \<Rightarrow> 'a list \<Rightarrow> string" where
  "sse_encode_vec bo enc xs = sse_encode_i32 bo (of_nat (length xs)) @ concat (map enc xs)"

fun decode_items :: "'a decoder \<Rightarrow> nat \<Rightarrow> 'a list decoder" where
  "decode_items dec 0 s = Some ([], s)"
| "decode_items dec (Suc n) s = do {
     (x, s) \<leftarrow> dec s;
     (xs, s) \<leftarrow> decode_items dec n s;
     Some (x # xs, s) }"

definition sse_decode_vec :: "byteorder \<Rightarrow> 'a decoder \<Rightarrow> 'a list decoder" where
  "sse_decode_vec bo dec s = do {
     (len, s) \<leftarrow> sse_decode_i32 bo s;
     if sint len < 0 then None else decode_items dec (nat (sint len)) s }"

definition vec_ok :: "('a \<Rightarrow> bool) \<Rightarrow> 'a list \<Rightarrow> bool" where
  "vec_ok ok xs \<longleftrightarrow> length xs < 2 ^ 31 \<and> (\<forall>x \<in> set xs. ok x)"

context codec begin

lemma decode_items_enc:
  "\<forall>x \<in> set xs. ok x \<Longrightarrow> decode_items dec (length xs) (concat (map enc xs) @ rest) = Some (xs, rest)"
  by (induction xs) (simp_all add: dec_enc)

end

lemma sint_of_nat_32: "n < 2 ^ 31 \<Longrightarrow> sint (of_nat n :: 32 word) = int n"
  by (simp add: signed_of_nat signed_take_bit_int_eq_self)

lemma codec_vec:
  assumes "byteorder_laws bo" and "codec enc dec ok"
  shows "codec (sse_encode_vec bo enc) (sse_decode_vec bo dec) (vec_ok ok)"
proof unfold_locales
  fix xs rest
  assume "vec_ok ok xs"
  then show "sse_decode_vec bo dec (sse_encode_vec bo enc xs @ rest) = Some (xs, rest)"
    using codec.decode_items_enc [OF assms(2), of xs rest] byteorder_laws.get_put32 [OF assms(1)]
    by (simp add: sse_decode_vec_def sse_encode_vec_def sse_encode_i32_def sse_decode_i32_def vec_ok_def
        sint_of_nat_32)
qed

text \<open>A negative length is a panic, and so is a message that ends too early.\<close>

lemma decode_vec_negative:
  assumes "byteorder_laws bo" and "sint len < 0"
  shows "sse_decode_vec bo dec (sse_encode_i32 bo len @ rest) = None"
  using assms(2) byteorder_laws.get_put32 [OF assms(1), of len rest]
  by (simp add: sse_decode_vec_def sse_encode_i32_def sse_decode_i32_def)

text \<open>A \<open>String\<close> is its bytes; \<open>from_utf8(..).unwrap()\<close> panics on bytes that are no text.\<close>

definition sse_encode_string :: "byteorder \<Rightarrow> string \<Rightarrow> string" where
  "sse_encode_string bo = sse_encode_vec bo sse_encode_u8"

definition sse_decode_string :: "byteorder \<Rightarrow> string decoder" where
  "sse_decode_string bo s = do {
     (bytes, s) \<leftarrow> sse_decode_vec bo sse_decode_u8 s;
     if valid_utf8 bytes then Some (bytes, s) else None }"

definition string_ok :: "string \<Rightarrow> bool" where
  "string_ok s \<longleftrightarrow> valid_utf8 s \<and> length s < 2 ^ 31"

lemma codec_string:
  assumes "byteorder_laws bo"
  shows "codec (sse_encode_string bo) (sse_decode_string bo) string_ok"
proof unfold_locales
  fix x rest
  assume "string_ok x"
  then show "sse_decode_string bo (sse_encode_string bo x @ rest) = Some (x, rest)"
    using codec.dec_enc [OF codec_vec [OF assms c_u8.codec_axioms], of x rest]
    by (simp add: sse_encode_string_def sse_decode_string_def string_ok_def vec_ok_def)
qed

sublocale byteorder_laws \<subseteq> c_string: codec "sse_encode_string bo" "sse_decode_string bo" string_ok
  by (rule codec_string) unfold_locales

definition sse_encode_list_string :: "byteorder \<Rightarrow> string list \<Rightarrow> string" where
  "sse_encode_list_string bo = sse_encode_vec bo (sse_encode_string bo)"

definition sse_decode_list_string :: "byteorder \<Rightarrow> string list decoder" where
  "sse_decode_list_string bo = sse_decode_vec bo (sse_decode_string bo)"

sublocale byteorder_laws \<subseteq> c_strings: codec "sse_encode_list_string bo" "sse_decode_list_string bo" "vec_ok string_ok"
  unfolding sse_encode_list_string_def sse_decode_list_string_def
  by (rule codec_vec [OF _ c_string.codec_axioms]) unfold_locales

definition sse_encode_opt_string :: "byteorder \<Rightarrow> string option \<Rightarrow> string" where
  "sse_encode_opt_string bo x =
     sse_encode_bool (x \<noteq> None) @ (case x of None \<Rightarrow> [] | Some v \<Rightarrow> sse_encode_string bo v)"

definition sse_decode_opt_string :: "byteorder \<Rightarrow> string option decoder" where
  "sse_decode_opt_string bo s = do {
     (some, s) \<leftarrow> sse_decode_bool s;
     if some then do { (v, s) \<leftarrow> sse_decode_string bo s; Some (Some v, s) }
     else Some (None, s) }"

sublocale byteorder_laws \<subseteq> c_opt: codec "sse_encode_opt_string bo" "sse_decode_opt_string bo" "pred_option string_ok"
proof unfold_locales
  fix x rest
  assume "pred_option string_ok x"
  then show "sse_decode_opt_string bo (sse_encode_opt_string bo x @ rest) = Some (x, rest)"
    by (cases x) (simp_all add: sse_decode_opt_string_def sse_encode_opt_string_def c_bool.dec_enc c_string.dec_enc)
qed

section \<open>The structs of the app interface\<close>

text \<open>Field by field, in the order of the declaration.\<close>

context byteorder_laws begin

lemmas dec_simps = c_string.dec_enc c_u16.dec_enc c_u32.dec_enc c_i32.dec_enc c_i64.dec_enc c_usize.dec_enc
  c_bool.dec_enc c_opt.dec_enc c_strings.dec_enc

end

definition sse_encode_device_snapshot :: "byteorder \<Rightarrow> device_snapshot \<Rightarrow> string" where
  "sse_encode_device_snapshot bo x = sse_encode_string bo (ds_alias x) @
     sse_encode_string bo (ds_device_type x) @
     sse_encode_string bo (ds_fingerprint x) @
     sse_encode_string bo (ds_ip x) @
     sse_encode_u16 bo (ds_port x)"

definition sse_decode_device_snapshot :: "byteorder \<Rightarrow> device_snapshot decoder" where
  "sse_decode_device_snapshot bo s = do {
     (alias, s) \<leftarrow> sse_decode_string bo s;
     (device_type, s) \<leftarrow> sse_decode_string bo s;
     (fingerprint, s) \<leftarrow> sse_decode_string bo s;
     (ip, s) \<leftarrow> sse_decode_string bo s;
     (port, s) \<leftarrow> sse_decode_u16 bo s;
     Some (\<lparr>ds_alias = alias, ds_device_type = device_type, ds_fingerprint = fingerprint, ds_ip = ip, ds_port = port\<rparr>, s) }"

definition device_snapshot_ok :: "device_snapshot \<Rightarrow> bool" where
  "device_snapshot_ok x \<longleftrightarrow> string_ok (ds_alias x) \<and> string_ok (ds_device_type x) \<and> string_ok (ds_fingerprint x) \<and> string_ok (ds_ip x)"

sublocale byteorder_laws \<subseteq> c_device_snapshot: codec "sse_encode_device_snapshot bo" "sse_decode_device_snapshot bo" device_snapshot_ok
  by unfold_locales (simp add: sse_encode_device_snapshot_def sse_decode_device_snapshot_def device_snapshot_ok_def dec_simps)

definition sse_encode_node_config :: "byteorder \<Rightarrow> node_config \<Rightarrow> string" where
  "sse_encode_node_config bo x = sse_encode_string bo (nc_base_dir x) @
     sse_encode_string bo (nc_save_dir x) @
     sse_encode_string bo (nc_alias x) @
     sse_encode_string bo (nc_device_type x)"

definition sse_decode_node_config :: "byteorder \<Rightarrow> node_config decoder" where
  "sse_decode_node_config bo s = do {
     (base_dir, s) \<leftarrow> sse_decode_string bo s;
     (save_dir, s) \<leftarrow> sse_decode_string bo s;
     (alias, s) \<leftarrow> sse_decode_string bo s;
     (device_type, s) \<leftarrow> sse_decode_string bo s;
     Some (\<lparr>nc_base_dir = base_dir, nc_save_dir = save_dir, nc_alias = alias, nc_device_type = device_type\<rparr>, s) }"

definition node_config_ok :: "node_config \<Rightarrow> bool" where
  "node_config_ok x \<longleftrightarrow> string_ok (nc_base_dir x) \<and> string_ok (nc_save_dir x) \<and> string_ok (nc_alias x) \<and> string_ok (nc_device_type x)"

sublocale byteorder_laws \<subseteq> c_node_config: codec "sse_encode_node_config bo" "sse_decode_node_config bo" node_config_ok
  by unfold_locales (simp add: sse_encode_node_config_def sse_decode_node_config_def node_config_ok_def dec_simps)

definition sse_encode_node_status :: "byteorder \<Rightarrow> node_status \<Rightarrow> string" where
  "sse_encode_node_status bo x = sse_encode_u16 bo (ns_port x) @
     sse_encode_string bo (ns_fingerprint x)"

definition sse_decode_node_status :: "byteorder \<Rightarrow> node_status decoder" where
  "sse_decode_node_status bo s = do {
     (port, s) \<leftarrow> sse_decode_u16 bo s;
     (fingerprint, s) \<leftarrow> sse_decode_string bo s;
     Some (\<lparr>ns_port = port, ns_fingerprint = fingerprint\<rparr>, s) }"

definition node_status_ok :: "node_status \<Rightarrow> bool" where
  "node_status_ok x \<longleftrightarrow> string_ok (ns_fingerprint x)"

sublocale byteorder_laws \<subseteq> c_node_status: codec "sse_encode_node_status bo" "sse_decode_node_status bo" node_status_ok
  by unfold_locales (simp add: sse_encode_node_status_def sse_decode_node_status_def node_status_ok_def dec_simps)

definition sse_encode_saved_file_event :: "byteorder \<Rightarrow> saved_file_event \<Rightarrow> string" where
  "sse_encode_saved_file_event bo x = sse_encode_string bo (sv_path x) @
     sse_encode_string bo (sv_from_alias x)"

definition sse_decode_saved_file_event :: "byteorder \<Rightarrow> saved_file_event decoder" where
  "sse_decode_saved_file_event bo s = do {
     (path, s) \<leftarrow> sse_decode_string bo s;
     (from_alias, s) \<leftarrow> sse_decode_string bo s;
     Some (\<lparr>sv_path = path, sv_from_alias = from_alias\<rparr>, s) }"

definition saved_file_event_ok :: "saved_file_event \<Rightarrow> bool" where
  "saved_file_event_ok x \<longleftrightarrow> string_ok (sv_path x) \<and> string_ok (sv_from_alias x)"

sublocale byteorder_laws \<subseteq> c_saved_file_event: codec "sse_encode_saved_file_event bo" "sse_decode_saved_file_event bo" saved_file_event_ok
  by unfold_locales (simp add: sse_encode_saved_file_event_def sse_decode_saved_file_event_def saved_file_event_ok_def dec_simps)

definition sse_encode_send_target :: "byteorder \<Rightarrow> send_target \<Rightarrow> string" where
  "sse_encode_send_target bo x = sse_encode_string bo (st_ip x) @
     sse_encode_u16 bo (st_port x) @
     sse_encode_string bo (st_fingerprint x) @
     sse_encode_string bo (st_alias x)"

definition sse_decode_send_target :: "byteorder \<Rightarrow> send_target decoder" where
  "sse_decode_send_target bo s = do {
     (ip, s) \<leftarrow> sse_decode_string bo s;
     (port, s) \<leftarrow> sse_decode_u16 bo s;
     (fingerprint, s) \<leftarrow> sse_decode_string bo s;
     (alias, s) \<leftarrow> sse_decode_string bo s;
     Some (\<lparr>st_ip = ip, st_port = port, st_fingerprint = fingerprint, st_alias = alias\<rparr>, s) }"

definition send_target_ok :: "send_target \<Rightarrow> bool" where
  "send_target_ok x \<longleftrightarrow> string_ok (st_ip x) \<and> string_ok (st_fingerprint x) \<and> string_ok (st_alias x)"

sublocale byteorder_laws \<subseteq> c_send_target: codec "sse_encode_send_target bo" "sse_decode_send_target bo" send_target_ok
  by unfold_locales (simp add: sse_encode_send_target_def sse_decode_send_target_def send_target_ok_def dec_simps)

definition sse_encode_trusted_device_view :: "byteorder \<Rightarrow> trusted_device_view \<Rightarrow> string" where
  "sse_encode_trusted_device_view bo x = sse_encode_string bo (tv_fingerprint x) @
     sse_encode_string bo (tv_alias x) @
     sse_encode_string bo (tv_trusted_at x)"

definition sse_decode_trusted_device_view :: "byteorder \<Rightarrow> trusted_device_view decoder" where
  "sse_decode_trusted_device_view bo s = do {
     (fingerprint, s) \<leftarrow> sse_decode_string bo s;
     (alias, s) \<leftarrow> sse_decode_string bo s;
     (trusted_at, s) \<leftarrow> sse_decode_string bo s;
     Some (\<lparr>tv_fingerprint = fingerprint, tv_alias = alias, tv_trusted_at = trusted_at\<rparr>, s) }"

definition trusted_device_view_ok :: "trusted_device_view \<Rightarrow> bool" where
  "trusted_device_view_ok x \<longleftrightarrow> string_ok (tv_fingerprint x) \<and> string_ok (tv_alias x) \<and> string_ok (tv_trusted_at x)"

sublocale byteorder_laws \<subseteq> c_trusted_device_view: codec "sse_encode_trusted_device_view bo" "sse_decode_trusted_device_view bo" trusted_device_view_ok
  by unfold_locales (simp add: sse_encode_trusted_device_view_def sse_decode_trusted_device_view_def trusted_device_view_ok_def dec_simps)

text \<open>The size of a file item is a signed number of 64 bits.\<close>

definition sse_encode_file_item :: "byteorder \<Rightarrow> file_item \<Rightarrow> string" where
  "sse_encode_file_item bo x = sse_encode_string bo (fi_id x) @
     sse_encode_string bo (fi_name x) @
     sse_encode_i64 bo (word_of_int (fi_size x))"

definition sse_decode_file_item :: "byteorder \<Rightarrow> file_item decoder" where
  "sse_decode_file_item bo s = do {
     (id', s) \<leftarrow> sse_decode_string bo s;
     (name, s) \<leftarrow> sse_decode_string bo s;
     (size', s) \<leftarrow> sse_decode_i64 bo s;
     Some (\<lparr>fi_id = id', fi_name = name, fi_size = sint size'\<rparr>, s) }"

definition file_item_ok :: "file_item \<Rightarrow> bool" where
  "file_item_ok x \<longleftrightarrow> string_ok (fi_id x) \<and> string_ok (fi_name x) \<and> - (2 ^ 63) \<le> fi_size x \<and> fi_size x < 2 ^ 63"

lemma sint_of_int_64: "- (2 ^ 63) \<le> k \<Longrightarrow> k < 2 ^ 63 \<Longrightarrow> sint (word_of_int k :: 64 word) = k"
  by (simp add: signed_of_int signed_take_bit_int_eq_self)

sublocale byteorder_laws \<subseteq> c_file_item: codec "sse_encode_file_item bo" "sse_decode_file_item bo" file_item_ok
  by unfold_locales
    (simp add: sse_encode_file_item_def sse_decode_file_item_def file_item_ok_def dec_simps sint_of_int_64)

definition sse_encode_list_file_item :: "byteorder \<Rightarrow> file_item list \<Rightarrow> string" where
  "sse_encode_list_file_item bo = sse_encode_vec bo (sse_encode_file_item bo)"

definition sse_decode_list_file_item :: "byteorder \<Rightarrow> file_item list decoder" where
  "sse_decode_list_file_item bo = sse_decode_vec bo (sse_decode_file_item bo)"

definition sse_encode_list_device_snapshot :: "byteorder \<Rightarrow> device_snapshot list \<Rightarrow> string" where
  "sse_encode_list_device_snapshot bo = sse_encode_vec bo (sse_encode_device_snapshot bo)"

definition sse_decode_list_device_snapshot :: "byteorder \<Rightarrow> device_snapshot list decoder" where
  "sse_decode_list_device_snapshot bo = sse_decode_vec bo (sse_decode_device_snapshot bo)"

definition sse_encode_list_trusted_device_view :: "byteorder \<Rightarrow> trusted_device_view list \<Rightarrow> string" where
  "sse_encode_list_trusted_device_view bo = sse_encode_vec bo (sse_encode_trusted_device_view bo)"

definition sse_decode_list_trusted_device_view :: "byteorder \<Rightarrow> trusted_device_view list decoder" where
  "sse_decode_list_trusted_device_view bo = sse_decode_vec bo (sse_decode_trusted_device_view bo)"

sublocale byteorder_laws \<subseteq> c_file_items: codec "sse_encode_list_file_item bo" "sse_decode_list_file_item bo"
    "vec_ok file_item_ok"
  unfolding sse_encode_list_file_item_def sse_decode_list_file_item_def
  by (rule codec_vec [OF _ c_file_item.codec_axioms]) unfold_locales

sublocale byteorder_laws \<subseteq> c_devices: codec "sse_encode_list_device_snapshot bo"
    "sse_decode_list_device_snapshot bo" "vec_ok device_snapshot_ok"
  unfolding sse_encode_list_device_snapshot_def sse_decode_list_device_snapshot_def
  by (rule codec_vec [OF _ c_device_snapshot.codec_axioms]) unfold_locales

sublocale byteorder_laws \<subseteq> c_trusted_views: codec "sse_encode_list_trusted_device_view bo"
    "sse_decode_list_trusted_device_view bo" "vec_ok trusted_device_view_ok"
  unfolding sse_encode_list_trusted_device_view_def sse_decode_list_trusted_device_view_def
  by (rule codec_vec [OF _ c_trusted_device_view.codec_axioms]) unfold_locales

definition sse_encode_approval_request :: "byteorder \<Rightarrow> approval_request \<Rightarrow> string" where
  "sse_encode_approval_request bo x = sse_encode_string bo (ar_sender_alias x) @
     sse_encode_string bo (ar_sender_fingerprint x) @
     sse_encode_bool (ar_is_new_device x) @
     sse_encode_list_file_item bo (ar_files x)"

definition sse_decode_approval_request :: "byteorder \<Rightarrow> approval_request decoder" where
  "sse_decode_approval_request bo s = do {
     (sender_alias, s) \<leftarrow> sse_decode_string bo s;
     (sender_fingerprint, s) \<leftarrow> sse_decode_string bo s;
     (is_new_device, s) \<leftarrow> sse_decode_bool s;
     (files, s) \<leftarrow> sse_decode_list_file_item bo s;
     Some (\<lparr>ar_sender_alias = sender_alias, ar_sender_fingerprint = sender_fingerprint,
       ar_is_new_device = is_new_device, ar_files = files\<rparr>, s) }"

definition approval_request_ok :: "approval_request \<Rightarrow> bool" where
  "approval_request_ok x \<longleftrightarrow> string_ok (ar_sender_alias x) \<and> string_ok (ar_sender_fingerprint x)
     \<and> vec_ok file_item_ok (ar_files x)"

sublocale byteorder_laws \<subseteq> c_approval_request: codec "sse_encode_approval_request bo"
    "sse_decode_approval_request bo" approval_request_ok
  by unfold_locales (simp add: sse_encode_approval_request_def sse_decode_approval_request_def
      approval_request_ok_def dec_simps c_file_items.dec_enc)

text \<open>An enum is the number of its variant; another number panics.\<close>

fun phase_index :: "send_phase \<Rightarrow> i32" where
  "phase_index WaitingApproval = 0"
| "phase_index Uploading = 1"
| "phase_index Done = 2"
| "phase_index Failed = 3"
| "phase_index Canceled = 4"

definition sse_encode_send_phase :: "byteorder \<Rightarrow> send_phase \<Rightarrow> string" where
  "sse_encode_send_phase bo x = sse_encode_i32 bo (phase_index x)"

definition sse_decode_send_phase :: "byteorder \<Rightarrow> send_phase decoder" where
  "sse_decode_send_phase bo s = do {
     (inner, s) \<leftarrow> sse_decode_i32 bo s;
     if inner = 0 then Some (WaitingApproval, s)
     else if inner = 1 then Some (Uploading, s)
     else if inner = 2 then Some (Done, s)
     else if inner = 3 then Some (Failed, s)
     else if inner = 4 then Some (Canceled, s)
     else None }"

sublocale byteorder_laws \<subseteq> c_send_phase: codec "sse_encode_send_phase bo" "sse_decode_send_phase bo" "\<lambda>_. True"
proof unfold_locales
  show "sse_decode_send_phase bo (sse_encode_send_phase bo x @ rest) = Some (x, rest)" for x rest
    by (cases x) (simp_all add: sse_encode_send_phase_def sse_decode_send_phase_def dec_simps)
qed

definition sse_encode_send_event :: "byteorder \<Rightarrow> send_event \<Rightarrow> string" where
  "sse_encode_send_event bo x = sse_encode_send_phase bo (se_phase x) @
     sse_encode_u32 bo (se_file_index x) @
     sse_encode_u32 bo (se_file_count x) @
     sse_encode_string bo (se_file_name x) @
     sse_encode_i64 bo (se_sent_bytes x) @
     sse_encode_i64 bo (se_total_bytes x) @
     sse_encode_opt_string bo (se_message x)"

definition sse_decode_send_event :: "byteorder \<Rightarrow> send_event decoder" where
  "sse_decode_send_event bo s = do {
     (phase, s) \<leftarrow> sse_decode_send_phase bo s;
     (file_index, s) \<leftarrow> sse_decode_u32 bo s;
     (file_count, s) \<leftarrow> sse_decode_u32 bo s;
     (file_name, s) \<leftarrow> sse_decode_string bo s;
     (sent_bytes, s) \<leftarrow> sse_decode_i64 bo s;
     (total_bytes, s) \<leftarrow> sse_decode_i64 bo s;
     (message, s) \<leftarrow> sse_decode_opt_string bo s;
     Some (\<lparr>se_phase = phase, se_file_index = file_index, se_file_count = file_count, se_file_name = file_name,
       se_sent_bytes = sent_bytes, se_total_bytes = total_bytes, se_message = message\<rparr>, s) }"

definition send_event_ok :: "send_event \<Rightarrow> bool" where
  "send_event_ok x \<longleftrightarrow> string_ok (se_file_name x) \<and> pred_option string_ok (se_message x)"

sublocale byteorder_laws \<subseteq> c_send_event: codec "sse_encode_send_event bo" "sse_decode_send_event bo" send_event_ok
  by unfold_locales (simp add: sse_encode_send_event_def sse_decode_send_event_def send_event_ok_def dec_simps
      c_send_phase.dec_enc)

end
