(* ===== verification/Bridge_Calls.thy ===== *)
theory Bridge_Calls
  imports Bridge_Codec
begin

text \<open>
  The calls across the bridge.  The app (\<open>app/lib/src/rust/frb_generated.dart\<close>) writes the
  arguments of a call and passes the bytes with the number of the function;
  \<open>app/rust/src/frb_generated.rs\<close> picks the function by its number, reads the arguments and
  calls it.  Sinks cross as texts and callbacks as handles, both made by the bridge library.
\<close>

section \<open>Calls of the app\<close>

datatype api_call =
    Greet string
  | Init_app
  | Manual_exchange_info string u16
  | Node_announce
  | Node_device_events string
  | Node_saved_events string
  | Node_start node_config u64
  | Node_stop
  | Send_cancel
  | Send_files send_target "string list" string
  | Trust_add string string
  | Trust_contains string
  | Trust_list
  | Trust_remove string

text \<open>What the app sends: the function's number and its arguments.\<close>

fun dart_call :: "byteorder \<Rightarrow> api_call \<Rightarrow> int \<times> string" where
  "dart_call bo (Greet name) = (1, sse_encode_string bo name)"
| "dart_call bo Init_app = (2, [])"
| "dart_call bo (Manual_exchange_info address port) = (3, sse_encode_string bo address @ sse_encode_u16 bo port)"
| "dart_call bo Node_announce = (4, [])"
| "dart_call bo (Node_device_events sink) = (5, sse_encode_string bo sink)"
| "dart_call bo (Node_saved_events sink) = (6, sse_encode_string bo sink)"
| "dart_call bo (Node_start config on_approval) = (7, sse_encode_node_config bo config @ sse_encode_usize bo on_approval)"
| "dart_call bo Node_stop = (8, [])"
| "dart_call bo Send_cancel = (9, [])"
| "dart_call bo (Send_files target paths sink) =
     (10, sse_encode_send_target bo target @ sse_encode_list_string bo paths @ sse_encode_string bo sink)"
| "dart_call bo (Trust_add fingerprint alias) = (11, sse_encode_string bo fingerprint @ sse_encode_string bo alias)"
| "dart_call bo (Trust_contains fingerprint) = (12, sse_encode_string bo fingerprint)"
| "dart_call bo Trust_list = (13, [])"
| "dart_call bo (Trust_remove fingerprint) = (14, sse_encode_string bo fingerprint)"

text \<open>\<open>deserializer.end()\<close> before the function is called.\<close>

definition at_end :: "byteorder \<Rightarrow> string \<Rightarrow> 'a \<Rightarrow> 'a option" where
  "at_end bo s x = (if bo_end bo s then Some x else None)"

section \<open>Errors, handles and sinks\<close>

definition sse_decode_error :: "byteorder \<Rightarrow> string decoder" where
  "sse_decode_error bo = sse_decode_string bo"

definition sse_encode_error :: "byteorder \<Rightarrow> string \<Rightarrow> string" where
  "sse_encode_error bo text = sse_encode_string bo text"

definition sse_decode_dart_opaque :: "byteorder \<Rightarrow> u64 decoder" where
  "sse_decode_dart_opaque bo = sse_decode_usize bo"

definition sse_encode_dart_opaque :: "byteorder \<Rightarrow> u64 \<Rightarrow> string" where
  "sse_encode_dart_opaque bo handle = sse_encode_usize bo handle"

definition sse_decode_device_sink :: "byteorder \<Rightarrow> string decoder" where
  "sse_decode_device_sink bo = sse_decode_string bo"

definition sse_decode_saved_sink :: "byteorder \<Rightarrow> string decoder" where
  "sse_decode_saved_sink bo = sse_decode_string bo"

definition sse_decode_send_sink :: "byteorder \<Rightarrow> string decoder" where
  "sse_decode_send_sink bo = sse_decode_string bo"

lemmas handle_defs = sse_decode_error_def sse_encode_error_def sse_decode_dart_opaque_def sse_encode_dart_opaque_def
  sse_decode_device_sink_def sse_decode_saved_sink_def sse_decode_send_sink_def

section \<open>The wire functions\<close>

definition wire_greet :: "byteorder \<Rightarrow> string \<Rightarrow> api_call option" where
  "wire_greet bo s = do { (name, s) \<leftarrow> sse_decode_string bo s; at_end bo s (Greet name) }"

definition wire_init_app :: "byteorder \<Rightarrow> string \<Rightarrow> api_call option" where
  "wire_init_app bo s = at_end bo s Init_app"

definition wire_manual_exchange_info :: "byteorder \<Rightarrow> string \<Rightarrow> api_call option" where
  "wire_manual_exchange_info bo s = do {
     (address, s) \<leftarrow> sse_decode_string bo s;
     (port, s) \<leftarrow> sse_decode_u16 bo s;
     at_end bo s (Manual_exchange_info address port) }"

definition wire_node_announce :: "byteorder \<Rightarrow> string \<Rightarrow> api_call option" where
  "wire_node_announce bo s = at_end bo s Node_announce"

definition wire_node_device_events :: "byteorder \<Rightarrow> string \<Rightarrow> api_call option" where
  "wire_node_device_events bo s = do { (sink, s) \<leftarrow> sse_decode_device_sink bo s; at_end bo s (Node_device_events sink) }"

definition wire_node_saved_events :: "byteorder \<Rightarrow> string \<Rightarrow> api_call option" where
  "wire_node_saved_events bo s = do { (sink, s) \<leftarrow> sse_decode_saved_sink bo s; at_end bo s (Node_saved_events sink) }"

definition wire_node_start :: "byteorder \<Rightarrow> string \<Rightarrow> api_call option" where
  "wire_node_start bo s = do {
     (config, s) \<leftarrow> sse_decode_node_config bo s;
     (on_approval, s) \<leftarrow> sse_decode_dart_opaque bo s;
     at_end bo s (Node_start config on_approval) }"

definition wire_node_stop :: "byteorder \<Rightarrow> string \<Rightarrow> api_call option" where
  "wire_node_stop bo s = at_end bo s Node_stop"

definition wire_send_cancel :: "byteorder \<Rightarrow> string \<Rightarrow> api_call option" where
  "wire_send_cancel bo s = at_end bo s Send_cancel"

definition wire_send_files :: "byteorder \<Rightarrow> string \<Rightarrow> api_call option" where
  "wire_send_files bo s = do {
     (target, s) \<leftarrow> sse_decode_send_target bo s;
     (paths, s) \<leftarrow> sse_decode_list_string bo s;
     (sink, s) \<leftarrow> sse_decode_send_sink bo s;
     at_end bo s (Send_files target paths sink) }"

definition wire_trust_add :: "byteorder \<Rightarrow> string \<Rightarrow> api_call option" where
  "wire_trust_add bo s = do {
     (fingerprint, s) \<leftarrow> sse_decode_string bo s;
     (alias, s) \<leftarrow> sse_decode_string bo s;
     at_end bo s (Trust_add fingerprint alias) }"

definition wire_trust_contains :: "byteorder \<Rightarrow> string \<Rightarrow> api_call option" where
  "wire_trust_contains bo s = do { (fingerprint, s) \<leftarrow> sse_decode_string bo s; at_end bo s (Trust_contains fingerprint) }"

definition wire_trust_list :: "byteorder \<Rightarrow> string \<Rightarrow> api_call option" where
  "wire_trust_list bo s = at_end bo s Trust_list"

definition wire_trust_remove :: "byteorder \<Rightarrow> string \<Rightarrow> api_call option" where
  "wire_trust_remove bo s = do { (fingerprint, s) \<leftarrow> sse_decode_string bo s; at_end bo s (Trust_remove fingerprint) }"

text \<open>The dispatchers; an unknown number is a panic.\<close>

definition pde_ffi_dispatcher_primary :: "byteorder \<Rightarrow> int \<Rightarrow> string \<Rightarrow> api_call option" where
  "pde_ffi_dispatcher_primary bo func_id s =
     (if func_id = 2 then wire_init_app bo s
      else if func_id = 3 then wire_manual_exchange_info bo s
      else if func_id = 4 then wire_node_announce bo s
      else if func_id = 5 then wire_node_device_events bo s
      else if func_id = 6 then wire_node_saved_events bo s
      else if func_id = 7 then wire_node_start bo s
      else if func_id = 8 then wire_node_stop bo s
      else if func_id = 9 then wire_send_cancel bo s
      else if func_id = 10 then wire_send_files bo s
      else if func_id = 11 then wire_trust_add bo s
      else if func_id = 12 then wire_trust_contains bo s
      else if func_id = 13 then wire_trust_list bo s
      else if func_id = 14 then wire_trust_remove bo s
      else None)"

definition pde_ffi_dispatcher_sync :: "byteorder \<Rightarrow> int \<Rightarrow> string \<Rightarrow> api_call option" where
  "pde_ffi_dispatcher_sync bo func_id s = (if func_id = 1 then wire_greet bo s else None)"

text \<open>A call waits for its answer or not; only the greeting does.\<close>

fun is_sync :: "api_call \<Rightarrow> bool" where
  "is_sync (Greet name) = True"
| "is_sync _ = False"

fun call_ok :: "api_call \<Rightarrow> bool" where
  "call_ok (Greet name) = string_ok name"
| "call_ok (Manual_exchange_info address port) = string_ok address"
| "call_ok (Node_device_events sink) = string_ok sink"
| "call_ok (Node_saved_events sink) = string_ok sink"
| "call_ok (Node_start config on_approval) = node_config_ok config"
| "call_ok (Send_files target paths sink) = (send_target_ok target \<and> vec_ok string_ok paths \<and> string_ok sink)"
| "call_ok (Trust_add fingerprint alias) = (string_ok fingerprint \<and> string_ok alias)"
| "call_ok (Trust_contains fingerprint) = string_ok fingerprint"
| "call_ok (Trust_remove fingerprint) = string_ok fingerprint"
| "call_ok _ = True"

lemmas wire_defs = wire_greet_def wire_init_app_def wire_manual_exchange_info_def wire_node_announce_def
  wire_node_device_events_def wire_node_saved_events_def wire_node_start_def wire_node_stop_def wire_send_cancel_def
  wire_send_files_def wire_trust_add_def wire_trust_contains_def wire_trust_list_def wire_trust_remove_def handle_defs

context byteorder_laws begin

lemmas dec_all = c_string.dec_enc_all c_usize.dec_enc_all c_u16.dec_enc_all c_strings.dec_enc_all

lemma call_read:
  assumes "call_ok c"
  shows "(if is_sync c then pde_ffi_dispatcher_sync else pde_ffi_dispatcher_primary) bo
    (fst (dart_call bo c)) (snd (dart_call bo c)) = Some c"
  using assms
  by (cases c) (simp_all add: pde_ffi_dispatcher_sync_def pde_ffi_dispatcher_primary_def wire_defs at_end_def
      end_Nil dec_simps dec_all c_node_config.dec_enc c_send_target.dec_enc)

end

text \<open>
  Every call of the app reaches the function it names, with the arguments it was given: the
  numbers and the order of the arguments agree on both sides of the bridge.
\<close>

theorem call_reaches_function:
  assumes "byteorder_laws bo" and "call_ok c" and "dart_call bo c = (func_id, msg)"
  shows "(if is_sync c then pde_ffi_dispatcher_sync bo func_id msg
    else pde_ffi_dispatcher_primary bo func_id msg) = Some c"
  using byteorder_laws.call_read [OF assms(1,2)] assms(3) by (cases "is_sync c") simp_all

section \<open>Values that come back\<close>

context byteorder_laws begin

lemmas read_values = c_send_event.dec_enc c_devices.dec_enc c_saved_file_event.dec_enc c_trusted_views.dec_enc
  c_node_status.dec_enc

lemmas read_message = c_string.dec_enc_all

end


section \<open>Asking the user\<close>

text \<open>The approval request crosses as a Dart value.\<close>

datatype dart_abi = Dart_string string | Dart_bool bool | Dart_int int | Dart_null | Dart_list "dart_abi list"

definition into_dart_file_item :: "file_item \<Rightarrow> dart_abi" where
  "into_dart_file_item x = Dart_list [Dart_string (fi_id x), Dart_string (fi_name x), Dart_int (fi_size x)]"

definition into_dart_approval_request :: "approval_request \<Rightarrow> dart_abi" where
  "into_dart_approval_request x = Dart_list [Dart_string (ar_sender_alias x), Dart_string (ar_sender_fingerprint x),
     Dart_bool (ar_is_new_device x), Dart_list (map into_dart_file_item (ar_files x))]"

definition into_dart_device_snapshot :: "device_snapshot \<Rightarrow> dart_abi" where
  "into_dart_device_snapshot x = Dart_list [Dart_string (ds_alias x), Dart_string (ds_device_type x),
     Dart_string (ds_fingerprint x), Dart_string (ds_ip x), Dart_int (uint (ds_port x))]"

definition into_dart_node_config :: "node_config \<Rightarrow> dart_abi" where
  "into_dart_node_config x = Dart_list [Dart_string (nc_base_dir x), Dart_string (nc_save_dir x),
     Dart_string (nc_alias x), Dart_string (nc_device_type x)]"

definition into_dart_node_status :: "node_status \<Rightarrow> dart_abi" where
  "into_dart_node_status x = Dart_list [Dart_int (uint (ns_port x)), Dart_string (ns_fingerprint x)]"

definition into_dart_saved_file_event :: "saved_file_event \<Rightarrow> dart_abi" where
  "into_dart_saved_file_event x = Dart_list [Dart_string (sv_path x), Dart_string (sv_from_alias x)]"

definition into_dart_send_phase :: "send_phase \<Rightarrow> dart_abi" where
  "into_dart_send_phase x = Dart_int (case x of WaitingApproval \<Rightarrow> 0 | Uploading \<Rightarrow> 1 | Done \<Rightarrow> 2 | Failed \<Rightarrow> 3 | Canceled \<Rightarrow> 4)"

definition into_dart_send_event :: "send_event \<Rightarrow> dart_abi" where
  "into_dart_send_event x = Dart_list [into_dart_send_phase (se_phase x), Dart_int (uint (se_file_index x)),
     Dart_int (uint (se_file_count x)), Dart_string (se_file_name x), Dart_int (sint (se_sent_bytes x)),
     Dart_int (sint (se_total_bytes x)), (case se_message x of None \<Rightarrow> Dart_null | Some m \<Rightarrow> Dart_string m)]"

definition into_dart_send_target :: "send_target \<Rightarrow> dart_abi" where
  "into_dart_send_target x = Dart_list [Dart_string (st_ip x), Dart_int (uint (st_port x)),
     Dart_string (st_fingerprint x), Dart_string (st_alias x)]"

definition into_dart_trusted_device_view :: "trusted_device_view \<Rightarrow> dart_abi" where
  "into_dart_trusted_device_view x = Dart_list [Dart_string (tv_fingerprint x), Dart_string (tv_alias x),
     Dart_string (tv_trusted_at x)]"

text \<open>A Dart value tells the struct it was made of.\<close>

lemma into_dart_inject:
  "into_dart_device_snapshot d = into_dart_device_snapshot d' \<longleftrightarrow> d = d'"
  "into_dart_node_config c = into_dart_node_config c' \<longleftrightarrow> c = c'"
  "into_dart_node_status st = into_dart_node_status st' \<longleftrightarrow> st = st'"
  "into_dart_saved_file_event f = into_dart_saved_file_event f' \<longleftrightarrow> f = f'"
  "into_dart_send_target t = into_dart_send_target t' \<longleftrightarrow> t = t'"
  "into_dart_trusted_device_view v = into_dart_trusted_device_view v' \<longleftrightarrow> v = v'"
  by (auto simp: into_dart_device_snapshot_def into_dart_node_config_def into_dart_node_status_def
      into_dart_saved_file_event_def into_dart_send_target_def into_dart_trusted_device_view_def
      simp flip: word_uint_eq_iff intro: device_snapshot.equality node_config.equality node_status.equality saved_file_event.equality
        send_target.equality trusted_device_view.equality)

lemma into_dart_send_event_inject: "into_dart_send_event e = into_dart_send_event e' \<longleftrightarrow> e = e'"
proof
  assume eq: "into_dart_send_event e = into_dart_send_event e'"
  have "se_phase e = se_phase e'"
    using eq by (cases "se_phase e"; cases "se_phase e'") (simp_all add: into_dart_send_event_def into_dart_send_phase_def)
  moreover have "se_message e = se_message e'"
    using eq by (cases "se_message e"; cases "se_message e'") (simp_all add: into_dart_send_event_def)
  moreover have "se_sent_bytes e = se_sent_bytes e'" "se_total_bytes e = se_total_bytes e'"
    using eq by (auto simp: into_dart_send_event_def intro: signed_word_eqI)
  ultimately show "e = e'" using eq by (intro send_event.equality) (simp_all add: into_dart_send_event_def flip: word_uint_eq_iff)
qed simp

text \<open>The app's side: a value of another shape is an exception.\<close>

fun dco_decode_file_item :: "dart_abi \<Rightarrow> file_item option" where
  "dco_decode_file_item (Dart_list [Dart_string i, Dart_string n, Dart_int k]) =
     Some \<lparr>fi_id = i, fi_name = n, fi_size = k\<rparr>"
| "dco_decode_file_item _ = None"

fun dco_decode_approval_request :: "dart_abi \<Rightarrow> approval_request option" where
  "dco_decode_approval_request (Dart_list [Dart_string al, Dart_string fp, Dart_bool new, Dart_list files]) =
     map_option (\<lambda>fs. \<lparr>ar_sender_alias = al, ar_sender_fingerprint = fp, ar_is_new_device = new, ar_files = fs\<rparr>)
       (those (map dco_decode_file_item files))"
| "dco_decode_approval_request _ = None"

text \<open>The answer: a byte that says whether the callback returned or threw, then its result.\<close>

definition dart_answer :: "byteorder \<Rightarrow> string + bool \<Rightarrow> string" where
  "dart_answer bo r = (case r of Inr b \<Rightarrow> sse_encode_u8 (char_of (0 :: nat)) @ sse_encode_bool b
     | Inl message \<Rightarrow> sse_encode_u8 (char_of (1 :: nat)) @ sse_encode_string bo message)"

definition decode_approval_answer :: "byteorder \<Rightarrow> string \<Rightarrow> bool option" where
  "decode_approval_answer bo s = do {
     (action, s) \<leftarrow> sse_decode_u8 s;
     (ans, s) \<leftarrow> (if byte action = 0 then do { (b, s) \<leftarrow> sse_decode_bool s; Some (Inr b, s) }
       else if byte action = 1 then do { (e, s) \<leftarrow> sse_decode_error bo s; Some (Inl e, s) }
       else None);
     ans \<leftarrow> at_end bo s ans;
     (case ans of Inr b \<Rightarrow> Some b | Inl e \<Rightarrow> None) }"

definition ask_app :: "byteorder \<Rightarrow> (approval_request \<Rightarrow> string + bool) \<Rightarrow> approval_request \<Rightarrow> bool option" where
  "ask_app bo callback req = do {
     r \<leftarrow> dco_decode_approval_request (into_dart_approval_request req);
     decode_approval_answer bo (dart_answer bo (callback r)) }"

lemma those_map_Some: "(\<And>x. x \<in> set xs \<Longrightarrow> f (g x) = Some x) \<Longrightarrow> those (map f (map g xs)) = Some xs"
  by (induction xs) auto

lemma approval_request_crosses: "dco_decode_approval_request (into_dart_approval_request r) = Some r"
  using those_map_Some [of "ar_files r" dco_decode_file_item into_dart_file_item]
  by (simp add: into_dart_approval_request_def into_dart_file_item_def)

text \<open>
  C35: The question reaches the user as it was asked, and the answer is the user's. Only an
  exception in the app's callback has no answer: it panics the task that asked.
\<close>

theorem user_is_asked:
  assumes "byteorder_laws bo" and "\<And>m. callback req = Inl m \<Longrightarrow> string_ok m"
  shows "ask_app bo callback req = (case callback req of Inr b \<Rightarrow> Some b | Inl _ \<Rightarrow> None)"
  using byteorder_laws.end_Nil [OF assms(1)] byteorder_laws.read_message [OF assms(1)] assms(2)
  by (cases "callback req")
    (simp_all add: ask_app_def approval_request_crosses decode_approval_answer_def dart_answer_def
      c_u8.dec_enc c_bool.dec_enc_all at_end_def handle_defs)

end
