(* ===== verification/Bridge_Tasks.thy ===== *)
theory Bridge_Tasks
  imports Bridge_Calls
begin

text \<open>
  How the wire functions of \<open>app/rust/src/frb_generated.rs\<close> hand their call to the bridge: which
  handler runs it, under which name, and whether the result is returned at once or posted to the
  port that the app waits at (\<open>SyncTask\<close> and \<open>NormalTask\<close> of \<open>app/lib/src/rust/frb_generated.dart\<close>).
\<close>

section \<open>Tasks\<close>

text \<open>\<open>wrap_sync\<close> runs a call in the caller, \<open>wrap_normal\<close> on a worker thread, \<open>wrap_async\<close> as a task.\<close>

datatype executor = Wrap_sync | Wrap_normal | Wrap_async

datatype call_mode = Mode_sync | Mode_normal

record task_info =
  ti_executor :: executor
  ti_debug_name :: string
  ti_port :: "nat option"
  ti_mode :: call_mode

definition task_greet :: task_info where
  "task_greet = \<lparr>ti_executor = Wrap_sync, ti_debug_name = ''greet'', ti_port = None, ti_mode = Mode_sync\<rparr>"

definition task_init_app :: "nat \<Rightarrow> task_info" where
  "task_init_app port = \<lparr>ti_executor = Wrap_normal, ti_debug_name = ''init_app'', ti_port = Some port, ti_mode = Mode_normal\<rparr>"

definition task_manual_exchange_info :: "nat \<Rightarrow> task_info" where
  "task_manual_exchange_info port = \<lparr>ti_executor = Wrap_async, ti_debug_name = ''manual_exchange_info'', ti_port = Some port, ti_mode = Mode_normal\<rparr>"

definition task_node_announce :: "nat \<Rightarrow> task_info" where
  "task_node_announce port = \<lparr>ti_executor = Wrap_async, ti_debug_name = ''node_announce'', ti_port = Some port, ti_mode = Mode_normal\<rparr>"

definition task_node_device_events :: "nat \<Rightarrow> task_info" where
  "task_node_device_events port = \<lparr>ti_executor = Wrap_async, ti_debug_name = ''node_device_events'', ti_port = Some port, ti_mode = Mode_normal\<rparr>"

definition task_node_saved_events :: "nat \<Rightarrow> task_info" where
  "task_node_saved_events port = \<lparr>ti_executor = Wrap_async, ti_debug_name = ''node_saved_events'', ti_port = Some port, ti_mode = Mode_normal\<rparr>"

definition task_node_start :: "nat \<Rightarrow> task_info" where
  "task_node_start port = \<lparr>ti_executor = Wrap_async, ti_debug_name = ''node_start'', ti_port = Some port, ti_mode = Mode_normal\<rparr>"

definition task_node_stop :: "nat \<Rightarrow> task_info" where
  "task_node_stop port = \<lparr>ti_executor = Wrap_async, ti_debug_name = ''node_stop'', ti_port = Some port, ti_mode = Mode_normal\<rparr>"

definition task_send_cancel :: "nat \<Rightarrow> task_info" where
  "task_send_cancel port = \<lparr>ti_executor = Wrap_normal, ti_debug_name = ''send_cancel'', ti_port = Some port, ti_mode = Mode_normal\<rparr>"

definition task_send_files :: "nat \<Rightarrow> task_info" where
  "task_send_files port = \<lparr>ti_executor = Wrap_async, ti_debug_name = ''send_files'', ti_port = Some port, ti_mode = Mode_normal\<rparr>"

definition task_trust_add :: "nat \<Rightarrow> task_info" where
  "task_trust_add port = \<lparr>ti_executor = Wrap_normal, ti_debug_name = ''trust_add'', ti_port = Some port, ti_mode = Mode_normal\<rparr>"

definition task_trust_contains :: "nat \<Rightarrow> task_info" where
  "task_trust_contains port = \<lparr>ti_executor = Wrap_normal, ti_debug_name = ''trust_contains'', ti_port = Some port, ti_mode = Mode_normal\<rparr>"

definition task_trust_list :: "nat \<Rightarrow> task_info" where
  "task_trust_list port = \<lparr>ti_executor = Wrap_normal, ti_debug_name = ''trust_list'', ti_port = Some port, ti_mode = Mode_normal\<rparr>"

definition task_trust_remove :: "nat \<Rightarrow> task_info" where
  "task_trust_remove port = \<lparr>ti_executor = Wrap_normal, ti_debug_name = ''trust_remove'', ti_port = Some port, ti_mode = Mode_normal\<rparr>"

text \<open>The task of a call; the port is the one the app passes along.\<close>

fun task_of :: "nat \<Rightarrow> api_call \<Rightarrow> task_info" where
  "task_of port (Greet _) = task_greet"
| "task_of port Init_app = task_init_app port"
| "task_of port (Manual_exchange_info _ _) = task_manual_exchange_info port"
| "task_of port Node_announce = task_node_announce port"
| "task_of port (Node_device_events _) = task_node_device_events port"
| "task_of port (Node_saved_events _) = task_node_saved_events port"
| "task_of port (Node_start _ _) = task_node_start port"
| "task_of port Node_stop = task_node_stop port"
| "task_of port Send_cancel = task_send_cancel port"
| "task_of port (Send_files _ _ _) = task_send_files port"
| "task_of port (Trust_add _ _) = task_trust_add port"
| "task_of port (Trust_contains _) = task_trust_contains port"
| "task_of port Trust_list = task_trust_list port"
| "task_of port (Trust_remove _) = task_trust_remove port"

text \<open>\<open>debugName\<close> of the call on the side of the app.\<close>

fun dart_debug_name :: "api_call \<Rightarrow> string" where
  "dart_debug_name (Greet _) = ''greet''"
| "dart_debug_name Init_app = ''init_app''"
| "dart_debug_name (Manual_exchange_info _ _) = ''manual_exchange_info''"
| "dart_debug_name Node_announce = ''node_announce''"
| "dart_debug_name (Node_device_events _) = ''node_device_events''"
| "dart_debug_name (Node_saved_events _) = ''node_saved_events''"
| "dart_debug_name (Node_start _ _) = ''node_start''"
| "dart_debug_name Node_stop = ''node_stop''"
| "dart_debug_name Send_cancel = ''send_cancel''"
| "dart_debug_name (Send_files _ _ _) = ''send_files''"
| "dart_debug_name (Trust_add _ _) = ''trust_add''"
| "dart_debug_name (Trust_contains _) = ''trust_contains''"
| "dart_debug_name Trust_list = ''trust_list''"
| "dart_debug_name (Trust_remove _) = ''trust_remove''"

lemmas task_defs = task_greet_def task_init_app_def task_manual_exchange_info_def task_node_announce_def task_node_device_events_def
  task_node_saved_events_def task_node_start_def task_node_stop_def task_send_cancel_def task_send_files_def
  task_trust_add_def task_trust_contains_def task_trust_list_def task_trust_remove_def

section \<open>Delivery\<close>

text \<open>A result is returned to the caller or posted to a port.\<close>

datatype delivery = Returned string | Posted nat string

definition deliver :: "task_info \<Rightarrow> string \<Rightarrow> delivery" where
  "deliver ti s = (case ti_port ti of None \<Rightarrow> Returned s | Some port \<Rightarrow> Posted port s)"

text \<open>What the app picks up for a call: a sync task takes what is returned, any other waits at its port.\<close>

definition dart_pick_up :: "nat \<Rightarrow> api_call \<Rightarrow> delivery \<Rightarrow> string option" where
  "dart_pick_up port call d = (case d of
     Returned s \<Rightarrow> if is_sync call then Some s else None
   | Posted p s \<Rightarrow> if \<not> is_sync call \<and> p = port then Some s else None)"

lemma tasks_agree:
  "ti_debug_name (task_of port call) = dart_debug_name call"
  "ti_mode (task_of port call) = Mode_sync \<longleftrightarrow> is_sync call"
  "ti_port (task_of port call) = (if is_sync call then None else Some port)"
  "ti_executor (task_of port call) = Wrap_sync \<longleftrightarrow> is_sync call"
  by (cases call; simp add: task_defs)+

lemma pick_up_delivered: "dart_pick_up port call (deliver (task_of port call) s) = Some s"
  by (simp add: dart_pick_up_def deliver_def tasks_agree)

text \<open>The result of a call that waits at another port is not picked up.\<close>

lemma pick_up_other: "port' \<noteq> port \<Longrightarrow> \<not> is_sync call' \<Longrightarrow> dart_pick_up port call (deliver (task_of port' call') s) = None"
  by (simp add: dart_pick_up_def deliver_def tasks_agree)

end
