(* ===== verification/Bridge_Results.thy ===== *)
theory Bridge_Results
  imports Bridge_Tasks
begin

text \<open>
  What a call of the app comes back with: the functions behind the wire functions of
  \<open>app/rust/src/frb_generated.rs\<close>, the encoding of their results and errors, and how the app reads
  them (\<open>app/lib/src/rust/frb_generated.dart\<close>).  How a result is told from an error in the bytes
  belongs to the bridge library: a parameter with laws.
\<close>

section \<open>Results\<close>

datatype api_output =
    Out_string string
  | Out_unit
  | Out_device device_snapshot
  | Out_status node_status
  | Out_bool bool
  | Out_trusted "trusted_device_view list"

type_synonym api_result = "string + api_output"

record packing =
  pk_ok :: "string \<Rightarrow> string"
  pk_err :: "string \<Rightarrow> string"
  pk_read :: "string \<Rightarrow> (string + string) option"

locale packing_laws =
  fixes pk :: packing
  assumes read_ok [simp]: "pk_read pk (pk_ok pk s) = Some (Inr s)"
    and read_err [simp]: "pk_read pk (pk_err pk s) = Some (Inl s)"

text \<open>One byte for the kind, then the data.\<close>

definition tagged :: packing where
  "tagged = \<lparr>pk_ok = (\<lambda>s. char_of (0 :: nat) # s), pk_err = (\<lambda>s. char_of (1 :: nat) # s),
     pk_read = (\<lambda>s. case s of [] \<Rightarrow> None
       | c # rest \<Rightarrow> if byte c = 0 then Some (Inr rest) else if byte c = 1 then Some (Inl rest) else None)\<rparr>"

interpretation tagged: packing_laws tagged
  by unfold_locales (simp_all add: tagged_def)

fun sse_encode_output :: "byteorder \<Rightarrow> api_output \<Rightarrow> string" where
  "sse_encode_output bo (Out_string s) = sse_encode_string bo s"
| "sse_encode_output bo Out_unit = []"
| "sse_encode_output bo (Out_device d) = sse_encode_device_snapshot bo d"
| "sse_encode_output bo (Out_status st) = sse_encode_node_status bo st"
| "sse_encode_output bo (Out_bool b) = sse_encode_bool b"
| "sse_encode_output bo (Out_trusted ds) = sse_encode_list_trusted_device_view bo ds"

text \<open>An error of \<open>anyhow\<close> crosses as its text; \<open>transform_result_sse\<close>.\<close>

definition transform_result :: "byteorder \<Rightarrow> packing \<Rightarrow> api_result \<Rightarrow> string" where
  "transform_result bo pk r = (case r of
     Inl text \<Rightarrow> pk_err pk (sse_encode_error bo text) | Inr out \<Rightarrow> pk_ok pk (sse_encode_output bo out))"

section \<open>The functions behind the calls\<close>

definition greet :: "string \<Rightarrow> string" where
  "greet name = ''Hello, '' @ name @ ''!''"

text \<open>What the calls meet outside: \<open>ae_text\<close> and \<open>ae_start_text\<close> are the texts of their errors.\<close>

record api_env =
  ae_library :: library
  ae_start :: start_io
  ae_bind :: bool
  ae_addrs :: "(bool \<times> if_addr) list option"
  ae_order :: "node \<Rightarrow> (string \<times> trusted_device) list"
  ae_now :: "string option"
  ae_mkdir :: bool
  ae_write :: write_outcome
  ae_uri_ok :: "string \<Rightarrow> bool"
  ae_info :: "string \<Rightarrow> peer_info option"
  ae_end :: endpoint
  ae_text :: "api_error \<Rightarrow> string"
  ae_start_text :: "start_failure \<Rightarrow> string"

abbreviation unit_result :: "api_env \<Rightarrow> api_error + 'a \<Rightarrow> api_result" where
  "unit_result env r \<equiv> map_sum (ae_text env) (\<lambda>_. Out_unit) r"

text \<open>
  Subscriptions and transfers return as soon as their task is spawned; what the tasks do is in
  theories Device_Feed and Node.
\<close>

fun api_run :: "api_env \<Rightarrow> api_call \<Rightarrow> app \<Rightarrow> api_result \<times> app" where
  "api_run env (Greet name) a = (Inr (Out_string (greet name)), a)"
| "api_run env Init_app a = (Inr Out_unit, a)"
| "api_run env (Manual_exchange_info address port) a =
     (map_sum (ae_text env) Out_device
        (manual_exchange_info (fingerprint_of (lb_hex (ae_library env)) (lb_sha (ae_library env))) (ae_uri_ok env) (ae_info env)
           (ae_end env) address port a), a)"
| "api_run env Node_announce a = (let (r, a') = node_announce (ae_bind env) (ae_addrs env) a in (unit_result env r, a'))"
| "api_run env (Node_device_events sink) a = (unit_result env (current a), a)"
| "api_run env (Node_saved_events sink) a = (unit_result env (current a), a)"
| "api_run env (Node_start config on_approval) a =
     (let (r, a') = node_start (ae_library env) config (ae_start env) a in (map_sum (ae_start_text env) Out_status r, a'))"
| "api_run env Node_stop a = (Inr Out_unit, node_stop a)"
| "api_run env Send_cancel a = (Inr Out_unit, a)"
| "api_run env (Send_files target paths sink) a = (Inr Out_unit, a)"
| "api_run env (Trust_add fingerprint alias) a =
     (let (r, a') = trust_add (ae_library env) (ae_now env) (ae_mkdir env) (ae_write env) fingerprint alias a
      in (unit_result env r, a'))"
| "api_run env (Trust_contains fingerprint) a = (map_sum (ae_text env) Out_bool (trust_contains fingerprint a), a)"
| "api_run env Trust_list a = (map_sum (ae_text env) Out_trusted (trust_list (ae_order env) a), a)"
| "api_run env (Trust_remove fingerprint) a =
     (let (r, a') = trust_remove (ae_library env) (ae_mkdir env) (ae_write env) fingerprint a in (unit_result env r, a'))"

section \<open>What the app reads\<close>

text \<open>The whole text has to be used up.\<close>

definition read_all :: "byteorder \<Rightarrow> 'a decoder \<Rightarrow> string \<Rightarrow> 'a option" where
  "read_all bo dec s = do { (x, rest) \<leftarrow> dec s; at_end bo rest x }"

fun dart_output :: "byteorder \<Rightarrow> api_call \<Rightarrow> string \<Rightarrow> api_output option" where
  "dart_output bo (Greet _) s = map_option Out_string (read_all bo (sse_decode_string bo) s)"
| "dart_output bo (Manual_exchange_info _ _) s = map_option Out_device (read_all bo (sse_decode_device_snapshot bo) s)"
| "dart_output bo (Node_start _ _) s = map_option Out_status (read_all bo (sse_decode_node_status bo) s)"
| "dart_output bo (Trust_contains _) s = map_option Out_bool (read_all bo sse_decode_bool s)"
| "dart_output bo Trust_list s = map_option Out_trusted (read_all bo (sse_decode_list_trusted_device_view bo) s)"
| "dart_output bo _ s = at_end bo s Out_unit"

text \<open>The calls that cannot fail have no decoder for an error.\<close>

fun infallible :: "api_call \<Rightarrow> bool" where
  "infallible (Greet _) \<longleftrightarrow> True"
| "infallible Init_app \<longleftrightarrow> True"
| "infallible Node_stop \<longleftrightarrow> True"
| "infallible Send_cancel \<longleftrightarrow> True"
| "infallible (Send_files _ _ _) \<longleftrightarrow> True"
| "infallible _ \<longleftrightarrow> False"

definition dart_result :: "byteorder \<Rightarrow> packing \<Rightarrow> api_call \<Rightarrow> string \<Rightarrow> api_result option" where
  "dart_result bo pk call s = (case pk_read pk s of
     None \<Rightarrow> None
   | Some (Inr data) \<Rightarrow> map_option Inr (dart_output bo call data)
   | Some (Inl data) \<Rightarrow> if infallible call then None else map_option Inl (read_all bo (sse_decode_string bo) data))"

text \<open>A call from the app and back.\<close>

definition bridge_call ::
    "byteorder \<Rightarrow> packing \<Rightarrow> nat \<Rightarrow> api_env \<Rightarrow> api_call \<Rightarrow> app \<Rightarrow> (api_result \<times> app) option" where
  "bridge_call bo pk port env call a =
     (let (func_id, msg) = dart_call bo call in
      do { reached \<leftarrow> (if is_sync call then pde_ffi_dispatcher_sync bo func_id msg
             else pde_ffi_dispatcher_primary bo func_id msg);
           let (r, a') = api_run env reached a;
           answer \<leftarrow> dart_pick_up port call (deliver (task_of port reached) (transform_result bo pk r));
           read \<leftarrow> dart_result bo pk call answer;
           Some (read, a') })"

fun output_ok :: "api_output \<Rightarrow> bool" where
  "output_ok (Out_string s) \<longleftrightarrow> string_ok s"
| "output_ok (Out_device d) \<longleftrightarrow> device_snapshot_ok d"
| "output_ok (Out_status st) \<longleftrightarrow> node_status_ok st"
| "output_ok (Out_trusted ds) \<longleftrightarrow> vec_ok trusted_device_view_ok ds"
| "output_ok _ \<longleftrightarrow> True"

definition result_ok :: "api_result \<Rightarrow> bool" where
  "result_ok r = (case r of Inl text \<Rightarrow> string_ok text | Inr out \<Rightarrow> output_ok out)"

section \<open>A call and its answer\<close>

lemma read_all_enc: "byteorder_laws bo \<Longrightarrow> dec s = Some (x, []) \<Longrightarrow> read_all bo dec s = Some x"
  by (simp add: read_all_def at_end_def byteorder_laws.end_Nil)

text \<open>The outputs that belong to a call.\<close>

fun output_of :: "api_call \<Rightarrow> api_output \<Rightarrow> bool" where
  "output_of (Greet _) out \<longleftrightarrow> (\<exists>s. out = Out_string s)"
| "output_of (Manual_exchange_info _ _) out \<longleftrightarrow> (\<exists>d. out = Out_device d)"
| "output_of (Node_start _ _) out \<longleftrightarrow> (\<exists>st. out = Out_status st)"
| "output_of (Trust_contains _) out \<longleftrightarrow> (\<exists>b. out = Out_bool b)"
| "output_of Trust_list out \<longleftrightarrow> (\<exists>ds. out = Out_trusted ds)"
| "output_of _ out \<longleftrightarrow> out = Out_unit"

lemma api_run_output:
  assumes "fst (api_run env call a) = Inr out"
  shows "output_of call out"
  using assms by (cases call) (auto simp: map_sum_def split: sum.splits prod.splits)

lemma api_run_infallible: "infallible call \<Longrightarrow> \<exists>out. fst (api_run env call a) = Inr out"
  by (cases call) auto

context byteorder_laws begin

lemmas output_all = c_string.dec_enc_all c_node_status.dec_enc_all c_bool.dec_enc_all c_device_snapshot.dec_enc_all
  c_trusted_views.dec_enc_all

lemma dart_output_enc:
  "output_of call out \<Longrightarrow> output_ok out \<Longrightarrow> dart_output bo call (sse_encode_output bo out) = Some out"
  by (cases call) (auto simp: read_all_def at_end_def end_Nil output_all)

lemma dart_result_transform:
  assumes "packing_laws pk" and "result_ok r" and "\<And>out. r = Inr out \<Longrightarrow> output_of call out"
    and "infallible call \<Longrightarrow> \<exists>out. r = Inr out"
  shows "dart_result bo pk call (transform_result bo pk r) = Some r"
  using assms(2-4) packing_laws.read_ok [OF assms(1)] packing_laws.read_err [OF assms(1)]
  by (cases r) (auto simp: dart_result_def transform_result_def result_ok_def sse_encode_error_def dart_output_enc
      read_all_def at_end_def end_Nil output_all)

end


end
