(* ===== verification/Cli.thy ===== *)
theory Cli
  imports Lifecycle
begin

text \<open>
  \<open>app/rust/src/bin/easy_send_rs.rs\<close>: the command line peer on the same core.  Arguments, the
  choice of a target, the check that a device is trusted before anything is sent to it, the
  transfer, and the answer at the prompt.
\<close>

section \<open>Texts\<close>

text \<open>\<open>str::parse\<close> of an unsigned number of \<open>w\<close> bits: an optional plus sign and digits.\<close>

definition is_digit :: "char \<Rightarrow> bool" where
  "is_digit c \<longleftrightarrow> 48 \<le> byte c \<and> byte c \<le> 57"

definition parse_uint :: "nat \<Rightarrow> string \<Rightarrow> nat option" where
  "parse_uint w s =
     (let digits = (case s of c # rest \<Rightarrow> if c = CHR ''+'' then rest else s | [] \<Rightarrow> s) in
      if digits \<noteq> [] \<and> list_all is_digit digits \<and> dec_value digits < 2 ^ w
      then Some (dec_value digits) else None)"

text \<open>The characters that \<open>trim\<close> removes.\<close>

definition white_space :: "string list" where
  "white_space = map (\<lambda>p. utf8 [p]) ([9, 10, 11, 12, 13, 32, 0x85, 0xA0, 0x1680, 0x2028, 0x2029, 0x202F, 0x205F, 0x3000]
     @ [0x2000..<0x200B])"

text \<open>Remove a prefix that is in the list, as often as there is one.\<close>

fun strip_any :: "string list \<Rightarrow> string \<Rightarrow> string option" where
  "strip_any [] s = None"
| "strip_any (w # ws) s = (case strip_prefix w s of
     Some r \<Rightarrow> if length r < length s then Some r else strip_any ws s | None \<Rightarrow> strip_any ws s)"

lemma strip_any_shorter: "strip_any ws s = Some r \<Longrightarrow> length r < length s"
  by (induction ws) (auto split: option.splits if_splits)

function trim_start :: "string list \<Rightarrow> string \<Rightarrow> string" where
  "trim_start ws s = (case strip_any ws s of None \<Rightarrow> s | Some r \<Rightarrow> trim_start ws r)"
  by pat_completeness auto
termination by (relation "measure (\<lambda>(ws, s). length s)") (auto dest: strip_any_shorter)

declare trim_start.simps [simp del]

definition trim_end :: "string list \<Rightarrow> string \<Rightarrow> string" where
  "trim_end ws s = rev (trim_start (map rev ws) (rev s))"

definition trim :: "string \<Rightarrow> string" where
  "trim s = trim_end white_space (trim_start white_space s)"

text \<open>White space starts and ends outside the graphic ASCII characters, and the ASCII ones are single bytes.\<close>

definition graphic :: "char \<Rightarrow> bool" where
  "graphic c \<longleftrightarrow> 33 \<le> byte c \<and> byte c < 128"

lemma white_space_bytes:
  assumes "w \<in> set white_space"
  shows "w \<noteq> []" and "\<not> graphic (hd w)" and "\<not> graphic (last w)" and "byte (last w) < 128 \<Longrightarrow> w = [last w]"
proof -
  have "list_all (\<lambda>w. w \<noteq> [] \<and> \<not> graphic (hd w) \<and> \<not> graphic (last w) \<and> (byte (last w) < 128 \<longrightarrow> w = [last w])) white_space"
    by (simp add: white_space_def upt_conv_Cons utf8_def utf8_char_def graphic_def)
  with assms show "w \<noteq> []" "\<not> graphic (hd w)" "\<not> graphic (last w)" "byte (last w) < 128 \<Longrightarrow> w = [last w]"
    by (auto simp: list_all_iff)
qed

lemma strip_any_None: "(\<And>w. w \<in> set ws \<Longrightarrow> w \<noteq> [] \<and> hd w \<noteq> c) \<Longrightarrow> strip_any ws (c # s) = None"
  by (induction ws) (auto simp: strip_prefix_Some_iff split: option.splits, metis append_is_Nil_conv hd_append list.sel(1))

lemma strip_any_byte:
  assumes "[c] \<in> set ws" and "\<And>w. w \<in> set ws \<Longrightarrow> w \<noteq> [] \<and> (hd w = c \<longrightarrow> w = [c])"
  shows "strip_any ws (c # s) = Some s"
  using assms
proof (induction ws)
  case (Cons w ws)
  show ?case
  proof (cases "w = [c]")
    case False
    with Cons.prems(2) [of w] have "strip_prefix w (c # s) = None" by (cases w) auto
    with False Cons show ?thesis by auto
  qed simp
qed simp

text \<open>\<open>trim\<close> takes the end of the line off an answer, and nothing else.\<close>

lemma trim_line:
  assumes "s \<noteq> []" and "graphic (hd s)" and "graphic (last s)"
  shows "trim s = s" and "trim (s @ [CHR 0x0A]) = s"
proof -
  have "strip_any white_space (hd s # tl s @ t) = None" for t
    using white_space_bytes(1,2) assms(2) by (intro strip_any_None) metis
  with assms(1) have start: "trim_start white_space (s @ t) = s @ t" for t
    by (subst trim_start.simps) (cases s, simp_all)
  have rev_s: "rev s = last s # rev (butlast s)" using assms(1) by (cases s rule: rev_cases) auto
  have "strip_any (map rev white_space) (rev s) = None"
    unfolding rev_s using white_space_bytes(1,3) assms(3) by (intro strip_any_None) (clarsimp simp: hd_rev, metis)
  then have stop: "trim_start (map rev white_space) (rev s) = rev s" by (simp add: trim_start.simps)
  then show "trim s = s" using start [of "[]"] by (simp add: trim_def trim_end_def)
  have "CHR 0x0A = char_of (10 :: nat)" by (rule sym) (simp add: char_of_eq_iff)
  then have "[CHR 0x0A] \<in> set white_space" by (simp add: white_space_def utf8_def utf8_char_def)
  then have "strip_any (map rev white_space) (CHR 0x0A # rev s) = Some (rev s)"
    using white_space_bytes by (intro strip_any_byte) (force simp: hd_rev)+
  with stop have "trim_start (map rev white_space) (CHR 0x0A # rev s) = rev s" by (subst trim_start.simps) simp
  then show "trim (s @ [CHR 0x0A]) = s" using start [of "[CHR 0x0A]"] by (simp add: trim_def trim_end_def)
qed

text \<open>Lower case of the ASCII letters: no other character becomes one of \<open>y\<close>, \<open>e\<close>, \<open>s\<close> or a
  letter of the known file extensions.\<close>

definition to_lower :: "string \<Rightarrow> string" where
  "to_lower s = map (\<lambda>c. if 65 \<le> byte c \<and> byte c \<le> 90 then char_of (byte c + 32) else c) s"

section \<open>Settings\<close>

definition config_dir :: "string option \<Rightarrow> string" where
  "config_dir home = (case home of Some h \<Rightarrow> path_join h ''.easy-send-rust'' | None \<Rightarrow> ''.easy-send-rust'')"

text \<open>The default alias is the host name without its \<open>.local\<close> endings.\<close>

definition cli_self_info :: "string \<Rightarrow> string option \<Rightarrow> identity \<Rightarrow> u16 \<Rightarrow> peer_info" where
  "cli_self_info hostname alias ident port =
     \<lparr>pi_alias = (case alias of Some a \<Rightarrow> a | None \<Rightarrow> trim_end [''.local''] (from_utf8_lossy hostname)),
      pi_device_type = ''desktop'', pi_fingerprint = id_fingerprint ident, pi_port = port\<rparr>"

text \<open>Pairs of a flag and its value, and the other arguments.\<close>

fun parse_args :: "string list \<Rightarrow> string list \<Rightarrow> (string, string) hash_map \<Rightarrow> string list
    \<Rightarrow> (string, string) hash_map \<times> string list" where
  "parse_args names [] flags positional = (flags, rev positional)"
| "parse_args names [arg] flags positional = (flags, rev (arg # positional))"
| "parse_args names (arg # v # rest) flags positional = (case strip_prefix ''--'' arg of
     Some name \<Rightarrow> if name \<in> set names then parse_args names rest (fmupd name v flags) positional
       else parse_args names (v # rest) flags (arg # positional)
   | None \<Rightarrow> parse_args names (v # rest) flags (arg # positional))"

definition mime_of :: "string \<Rightarrow> string" where
  "mime_of path =
     (let ext = (case path_extension path of Some e \<Rightarrow> to_lower (from_utf8_lossy e) | None \<Rightarrow> []) in
      if ext \<in> {''jpg'', ''jpeg''} then ''image/jpeg''
      else if ext = ''png'' then ''image/png''
      else if ext = ''gif'' then ''image/gif''
      else if ext = ''pdf'' then ''application/pdf''
      else if ext \<in> {''txt'', ''md''} then ''text/plain''
      else if ext = ''json'' then ''application/json''
      else if ext = ''zip'' then ''application/zip''
      else if ext = ''mp4'' then ''video/mp4''
      else ''application/octet-stream'')"

text \<open>The answer read from the terminal; \<open>None\<close> is a read error.\<close>

definition prompt_yn :: "string option \<Rightarrow> bool" where
  "prompt_yn line = (to_lower (trim (case line of Some l \<Rightarrow> l | None \<Rightarrow> [])) \<in> {''y'', ''yes''})"

text \<open>Of what is typed on one line, \<open>y\<close> and \<open>yes\<close> in any case are a yes, and nothing else.\<close>

lemma prompt_line:
  assumes "answer \<noteq> []" and "graphic (hd answer)" and "graphic (last answer)"
  shows "prompt_yn (Some (answer @ [CHR 0x0A])) \<longleftrightarrow> to_lower answer \<in> {''y'', ''yes''}"
  using trim_line(2) [OF assms] by (simp add: prompt_yn_def)

section \<open>Commands\<close>

datatype cli_error =
    Usage | Bad_number string | Unreadable string | Not_a_file string | Setup sec_error
  | Receive_failed start_error | Discovery_start | No_ip_connection send_error | Not_found_in_time string
  | Trust_refused | Trust_save sec_error | Prepare_refused send_error | Upload_stopped string send_error | Cli_panic

text \<open>A target: its info and its address as text.\<close>

record cli_device =
  cd_info :: peer_info
  cd_ip :: string

definition cli_addr :: "cli_device \<Rightarrow> string" where
  "cli_addr d = cd_ip d @ '':'' @ dec_string (unat (pi_port (cd_info d)))"

text \<open>
  What the commands meet outside: the libraries, the file system's answers, the other end, what
  discovery lists at each look, the answer at the prompt.  \<open>cw_parse_ip\<close> is the standard
  library's reader of addresses and yields the address as it is printed.
\<close>

record cli_world =
  cw_lib :: library
  cw_uri_ok :: "string \<Rightarrow> bool"
  cw_parse_ip :: "string \<Rightarrow> string option"
  cw_info :: "string \<Rightarrow> peer_info option"
  cw_session :: "string \<Rightarrow> prepare_upload_response option"
  cw_home :: "string option"
  cw_hostname :: string
  cw_identity :: identity_io
  cw_trust_fault :: bool
  cw_is_file :: "string \<Rightarrow> bool option"
  cw_size :: "string \<Rightarrow> u64 option"
  cw_end :: endpoint
  cw_discovery :: bool
  cw_looks :: "device list list"
  cw_answer :: "string option"
  cw_now :: "string option"
  cw_mkdir :: bool
  cw_write :: write_outcome
  cw_prepare :: connection
  cw_upload :: "nat \<Rightarrow> connection \<times> (string list \<times> bool) option \<times> connection"

abbreviation cw_fp :: "cli_world \<Rightarrow> string \<Rightarrow> string" where
  "cw_fp w \<equiv> fingerprint_of (lb_hex (cw_lib w)) (lb_sha (cw_lib w))"

definition split_target :: "string \<Rightarrow> string \<times> u16" where
  "split_target to = (case rsplit_once CHR '':'' to of
       Some (h, p) \<Rightarrow> (h, case parse_uint 16 p of Some n \<Rightarrow> of_nat n | None \<Rightarrow> SERVICE_PORT)
     | None \<Rightarrow> (to, SERVICE_PORT))"

text \<open>Look for the alias in what discovery lists, one look after the other.\<close>

fun find_alias :: "string \<Rightarrow> device list list \<Rightarrow> device option" where
  "find_alias to [] = None"
| "find_alias to (look # looks) = (case List.find (\<lambda>d. pi_alias (dv_info d) = to) look of
     Some d \<Rightarrow> Some d | None \<Rightarrow> find_alias to looks)"

definition resolve_target :: "cli_world \<Rightarrow> string \<Rightarrow> peer_info \<Rightarrow> cli_error + cli_device" where
  "resolve_target w to self_info =
     (let (host, port) = split_target to in
      case cw_parse_ip w host of
        Some ip \<Rightarrow>
          (case exchange_info (cw_fp w) (cw_uri_ok w) (cw_info w) (cw_end w)
               (host @ '':'' @ dec_string (unat port)) self_info of
             Inl e \<Rightarrow> Inl (No_ip_connection e)
           | Inr info \<Rightarrow> Inr \<lparr>cd_info = info, cd_ip = ip\<rparr>)
      | None \<Rightarrow>
          if \<not> cw_discovery w then Inl Discovery_start
          else (case find_alias to (cw_looks w) of
             None \<Rightarrow> Inl (Not_found_in_time to)
           | Some d \<Rightarrow> Inr \<lparr>cd_info = dv_info d, cd_ip = ipv4_string (dv_ip d)\<rparr>))"

text \<open>The first look at the paths.\<close>

fun check_paths :: "(string \<Rightarrow> bool option) \<Rightarrow> string list \<Rightarrow> cli_error option" where
  "check_paths is_file [] = None"
| "check_paths is_file (p # ps) = (case is_file p of None \<Rightarrow> Some (Unreadable p)
     | Some b \<Rightarrow> if \<not> b then Some (Not_a_file p) else check_paths is_file ps)"

text \<open>Trust on first use: an unknown device is sent to only after the user said yes.\<close>

definition confirm_trust ::
    "cli_world \<Rightarrow> peer_info \<Rightarrow> trust_store \<Rightarrow> fs \<Rightarrow> (cli_error + unit) \<times> trust_store \<times> fs" where
  "confirm_trust w info ts f =
     (if ts_contains ts (pi_fingerprint info) then (Inr (), ts, f)
      else case str_slice (pi_fingerprint info) 0 16 of None \<Rightarrow> (Inl Cli_panic, ts, f)
      | Some _ \<Rightarrow>
          if \<not> prompt_yn (cw_answer w) then (Inl Trust_refused, ts, f)
          else (let (r, ts', g) = ts_add (lb_print (cw_lib w)) (cw_now w) (cw_mkdir w) (cw_write w)
                      (pi_fingerprint info) (pi_alias info) ts f
                in (map_sum Trust_save id r, ts', g)))"

fun cli_items :: "(string \<Rightarrow> u64 option) \<Rightarrow> nat \<Rightarrow> string list \<Rightarrow> cli_error + (string \<times> string \<times> file_meta) list" where
  "cli_items size_of i [] = Inr []"
| "cli_items size_of i (p # ps) = (case size_of p of None \<Rightarrow> Inl (Unreadable p)
     | Some n \<Rightarrow> (case cli_items size_of (i + 1) ps of Inl e \<Rightarrow> Inl e
         | Inr items \<Rightarrow> Inr ((''f'' @ dec_string (i + 1), p,
             \<lparr>fm_name = item_name p, fm_size = n, fm_mime = mime_of p\<rparr>) # items)))"

fun cli_uploads ::
    "cli_world \<Rightarrow> prepare_upload_response \<Rightarrow> nat \<Rightarrow> sender \<Rightarrow> (string \<times> string \<times> file_meta) list
      \<Rightarrow> (cli_error + unit) \<times> (endpoint \<times> http_request) list" where
  "cli_uploads w session i sd [] = (Inr (), [])"
| "cli_uploads w session i sd ((file_id, path, meta) # items) = (case hm_get (ps_tokens session) file_id of
     None \<Rightarrow> (Inl Cli_panic, [])
   | Some token \<Rightarrow>
       (let (conn, content, cancel_conn) = cw_upload w i;
            (uploaded, sd', sent, _) = upload_file (cw_fp w) (cw_uri_ok w) sd conn (ps_session_id session)
              file_id token content (fm_size meta)
        in case uploaded of
             Inl e \<Rightarrow> (Inl (Upload_stopped (fm_name meta) e),
               sent @ snd (cancel (cw_fp w) (cw_uri_ok w) sd' cancel_conn (ps_session_id session)))
           | Inr _ \<Rightarrow> (let (r, sent') = cli_uploads w session (i + 1) sd' items in (r, sent @ sent'))))"

text \<open>The transfer to a trusted target: its result and the requests it made.\<close>

definition cli_transfer ::
    "cli_world \<Rightarrow> cli_device \<Rightarrow> peer_info \<Rightarrow> string list \<Rightarrow> (cli_error + unit) \<times> (endpoint \<times> http_request) list" where
  "cli_transfer w target self_info paths = (case cli_items (cw_size w) 0 paths of
     Inl e \<Rightarrow> (Inl e, [])
   | Inr items \<Rightarrow>
       (let sd = sender_new (cli_addr target) (pi_fingerprint (cd_info target)) self_info;
            (prepared, sd', sent) = prepare_upload (cw_fp w) (cw_uri_ok w) (cw_session w) sd (cw_prepare w) (metas_of items)
        in case prepared of
             Inl e \<Rightarrow> (Inl (Prepare_refused e), sent)
           | Inr session \<Rightarrow> (let (r, sent') = cli_uploads w session 0 sd' items in (r, sent @ sent'))))"

text \<open>What \<open>send\<close> leaves: the trust store it had opened, the files, and what it sent in a transfer.\<close>

definition cmd_send ::
    "cli_world \<Rightarrow> string list \<Rightarrow> fs \<Rightarrow> (cli_error + unit) \<times> trust_store option \<times> fs \<times> (endpoint \<times> http_request) list" where
  "cmd_send w args f =
     (let (flags, paths) = parse_args [''to'', ''alias''] args fmempty []; dir = config_dir (cw_home w) in
      case hm_get flags ''to'' of None \<Rightarrow> (Inl Usage, None, f, [])
      | Some to \<Rightarrow>
          if paths = [] then (Inl Usage, None, f, [])
          else case check_paths (cw_is_file w) paths of Some e \<Rightarrow> (Inl e, None, f, [])
          | None \<Rightarrow>
          (case load_or_create (lb_hex (cw_lib w)) (lb_sha (cw_lib w)) (lb_certs (cw_lib w)) (cw_identity w) f dir of
             (Inl e, g) \<Rightarrow> (Inl (Setup e), None, g, [])
           | (Inr ident, g) \<Rightarrow>
          (case ts_open (lb_parse (cw_lib w)) (cw_trust_fault w) g dir of Inl e \<Rightarrow> (Inl (Setup e), None, g, [])
           | Inr ts \<Rightarrow>
              (let self_info = cli_self_info (cw_hostname w) (hm_get flags ''alias'') ident SERVICE_PORT in
               case resolve_target w to self_info of Inl e \<Rightarrow> (Inl e, Some ts, g, [])
               | Inr target \<Rightarrow>
                   (case confirm_trust w (cd_info target) ts g of
                      (Inl e, ts', h) \<Rightarrow> (Inl e, Some ts', h, [])
                    | (Inr _, ts', h) \<Rightarrow>
                        (let (r, sent) = cli_transfer w target self_info paths in (r, Some ts', h, sent)))))))"

text \<open>\<open>ls\<close>: what is listed after the wait; \<open>devices\<close> is what discovery lists then.\<close>

definition cmd_ls :: "cli_world \<Rightarrow> device list \<Rightarrow> string list \<Rightarrow> fs \<Rightarrow> (cli_error + (string \<times> string \<times> string) list) \<times> fs" where
  "cmd_ls w devices args f =
     (let (flags, _) = parse_args [''alias'', ''wait''] args fmempty [] in
      case (case hm_get flags ''wait'' of None \<Rightarrow> Some 3 | Some t \<Rightarrow> parse_uint 64 t) of
        None \<Rightarrow> (Inl (Bad_number (case hm_get flags ''wait'' of None \<Rightarrow> [] | Some t \<Rightarrow> t)), f)
      | Some wait \<Rightarrow>
          (case load_or_create (lb_hex (cw_lib w)) (lb_sha (cw_lib w)) (lb_certs (cw_lib w)) (cw_identity w) f
               (config_dir (cw_home w)) of
             (Inl e, g) \<Rightarrow> (Inl (Setup e), g)
           | (Inr ident, g) \<Rightarrow>
               if \<not> cw_discovery w then (Inl Discovery_start, g)
               else (Inr (map (\<lambda>d. (pi_alias (dv_info d), pi_device_type (dv_info d), device_addr d)) devices), g)))"

text \<open>\<open>recv\<close> up to the point where it waits: the receiver and what discovery announces.\<close>

definition cmd_recv ::
    "cli_world \<Rightarrow> (u16 \<Rightarrow> u16 option) \<Rightarrow> (bool \<times> if_addr) list option \<Rightarrow> string list \<Rightarrow> fs
      \<Rightarrow> (cli_error + recv_config \<times> rstate \<times> trust_store \<times> effects \<times> discoverer) \<times> fs" where
  "cmd_recv w os_bind addrs args f =
     (let (flags, _) = parse_args [''dir'', ''alias''] args fmempty [];
          save_dir = (case hm_get flags ''dir'' of Some d \<Rightarrow> d | None \<Rightarrow> ''.''); dir = config_dir (cw_home w); lb = cw_lib w in
      case load_or_create (lb_hex lb) (lb_sha lb) (lb_certs lb) (cw_identity w) f dir of
        (Inl e, g) \<Rightarrow> (Inl (Setup e), g)
      | (Inr ident, g) \<Rightarrow>
          (case ts_open (lb_parse lb) (cw_trust_fault w) g dir of Inl e \<Rightarrow> (Inl (Setup e), g)
           | Inr ts \<Rightarrow>
               (let info = cli_self_info (cw_hostname w) (hm_get flags ''alias'') ident 0 in
                case receiver_start os_bind (server_config (lb_key lb) (lb_tls lb) ident) save_dir info None of
                  Inl e \<Rightarrow> (Inl (Receive_failed e), g)
                | Inr (rc, st) \<Rightarrow>
                    (case start (cw_discovery w) addrs (info\<lparr>pi_port := rc_port rc\<rparr>) of
                       None \<Rightarrow> (Inl Discovery_start, g)
                     | Some (out, dc) \<Rightarrow> (Inr (rc, st, ts, out, dc), g)))))"

text \<open>The command and the exit status.\<close>

datatype command = C_ls "string list" | C_send "string list" | C_recv "string list"

definition parse_command :: "string list \<Rightarrow> command option" where
  "parse_command args = (case args of [] \<Rightarrow> None
     | c # rest \<Rightarrow> if c = ''ls'' then Some (C_ls rest) else if c = ''send'' then Some (C_send rest)
         else if c = ''recv'' then Some (C_recv rest) else None)"

definition exit_status :: "(cli_error + 'a) option \<Rightarrow> int" where
  "exit_status r = (case r of None \<Rightarrow> 2 | Some (Inl e) \<Rightarrow> if e = Cli_panic then 101 else 1 | Some (Inr _) \<Rightarrow> 0)"

section \<open>Who is sent to\<close>

lemma sender_step_ok:
  assumes "sender_step fp uri_ok fsl sd sent sd'" and "client_ok fp expected (sd_client sd)"
  shows "client_ok fp expected (sd_client sd') \<and> (\<forall>(ep, q) \<in> set sent. authentic fp expected ep)"
  using assms(1)
proof (cases rule: sender_step_request)
  case (request conn rq res)
  with sender_request_ok [OF request assms(2)] show ?thesis by blast
qed (use assms(2) in simp)

lemma cli_uploads_authentic:
  "cli_uploads w session i sd items = (r, sent) \<Longrightarrow> client_ok (cw_fp w) expected (sd_client sd) \<Longrightarrow>
    \<forall>(ep, q) \<in> set sent. authentic (cw_fp w) expected ep"
proof (induction items arbitrary: i sd r sent)
  case (Cons item items)
  obtain file_id path meta where item: "item = (file_id, path, meta)" by (cases item)
  obtain conn content cc where up: "cw_upload w i = (conn, content, cc)" by (metis prod_cases3)
  show ?case
  proof (cases "hm_get (ps_tokens session) file_id")
    case None
    with Cons.prems item show ?thesis by simp
  next
    case (Some token)
    obtain u sd' s1 ps where u: "upload_file (cw_fp w) (cw_uri_ok w) sd conn (ps_session_id session) file_id token
        content (fm_size meta) = (u, sd', s1, ps)"
      by (metis prod_cases4)
    note ok = sender_step_ok [OF ss_upload [OF u] Cons.prems(2)]
    obtain sd2 s2 where c: "cancel (cw_fp w) (cw_uri_ok w) sd' cc (ps_session_id session) = (sd2, s2)" by fastforce
    obtain r' s3 where rest: "cli_uploads w session (i + 1) sd' items = (r', s3)" by fastforce
    note ok2 = sender_step_ok [OF ss_cancel [OF c]] and ih = Cons.IH [OF rest]
    show ?thesis
    proof (cases u)
      case (Inl e)
      with Cons.prems(1) item Some up u c have "sent = s1 @ s2" by simp
      with ok ok2 show ?thesis by auto
    next
      case (Inr x)
      with Cons.prems(1) item Some up u rest have "sent = s1 @ s3" by simp
      with ok ih show ?thesis by auto
    qed
  qed
qed simp

lemma cli_transfer_authentic:
  assumes "cli_transfer w target self_info paths = (r, sent)" and "(ep, rq) \<in> set sent"
  shows "authentic (cw_fp w) (Some (pi_fingerprint (cd_info target))) ep"
proof -
  obtain items where items: "cli_items (cw_size w) 0 paths = Inr items"
    using assms by (cases "cli_items (cw_size w) 0 paths") (auto simp: cli_transfer_def)
  let ?sd = "sender_new (cli_addr target) (pi_fingerprint (cd_info target)) self_info"
  obtain p sd' s1 where p: "prepare_upload (cw_fp w) (cw_uri_ok w) (cw_session w) ?sd (cw_prepare w) (metas_of items) = (p, sd', s1)"
    by (metis prod_cases3)
  have "client_ok (cw_fp w) (Some (pi_fingerprint (cd_info target))) (sd_client ?sd)" by (simp add: sender_new_def)
  note ok = sender_step_ok [OF ss_prepare [OF p] this]
  show ?thesis
  proof (cases p)
    case (Inl e)
    with assms items p ok show ?thesis by (auto simp: cli_transfer_def)
  next
    case (Inr session)
    obtain r' s2 where u: "cli_uploads w session 0 sd' items = (r', s2)" by fastforce
    with Inr assms items p ok cli_uploads_authentic [OF u, of "Some (pi_fingerprint (cd_info target))"]
    show ?thesis by (auto simp: cli_transfer_def)
  qed
qed

lemma confirm_trust_InrD:
  assumes "confirm_trust w info ts f = (Inr u, ts', g)"
  shows "ts_contains ts' (pi_fingerprint info) \<and> (ts_contains ts (pi_fingerprint info) \<or> prompt_yn (cw_answer w))"
proof (cases "ts_contains ts (pi_fingerprint info)")
  case True
  with assms show ?thesis by (auto simp: confirm_trust_def)
next
  case False
  obtain r ts1 h where a: "ts_add (lb_print (cw_lib w)) (cw_now w) (cw_mkdir w) (cw_write w)
      (pi_fingerprint info) (pi_alias info) ts f = (r, ts1, h)"
    by (metis prod_cases3)
  with False assms have "r = Inr ()" "ts1 = ts'" "prompt_yn (cw_answer w)"
    by (cases r; auto simp: confirm_trust_def split: option.splits if_splits)+
  moreover from a have "ts_contains ts1 (pi_fingerprint info) \<or> r \<noteq> Inr ()"
    by (rule ts_add_cases) (use False in \<open>auto simp: ts_contains_def ts_insert_def\<close>)
  ultimately show ?thesis by auto
qed


text \<open>
  An unknown device with a short fingerprint crashes \<open>send\<close>: the prompt shows the first 16
  bytes, and an announcement can carry any text.
\<close>

theorem short_fingerprint_panics:
  assumes "length (pi_fingerprint info) < 16" and "\<not> ts_contains ts (pi_fingerprint info)"
  shows "confirm_trust w info ts f = (Inl Cli_panic, ts, f)"
  using assms by (simp add: confirm_trust_def str_slice_def)

section \<open>Arguments\<close>

text \<open>A command line as it is meant, and as it is typed.\<close>

datatype cli_arg = Flag string string | Position string

fun type_arg :: "cli_arg \<Rightarrow> string list" where
  "type_arg (Flag name v) = [''--'' @ name, v]"
| "type_arg (Position a) = [a]"

fun typed_ok :: "string list \<Rightarrow> cli_arg \<Rightarrow> bool" where
  "typed_ok names (Flag name v) \<longleftrightarrow> name \<in> set names"
| "typed_ok names (Position a) \<longleftrightarrow> (\<forall>name \<in> set names. a \<noteq> ''--'' @ name)"

fun meant_flags :: "cli_arg list \<Rightarrow> (string, string) hash_map \<Rightarrow> (string, string) hash_map" where
  "meant_flags [] m = m"
| "meant_flags (Flag name v # as) m = meant_flags as (fmupd name v m)"
| "meant_flags (Position a # as) m = meant_flags as m"

fun meant_positions :: "cli_arg list \<Rightarrow> string list" where
  "meant_positions [] = []"
| "meant_positions (Flag name v # as) = meant_positions as"
| "meant_positions (Position a # as) = a # meant_positions as"

lemma parse_args_position:
  assumes "\<forall>name \<in> set names. a \<noteq> ''--'' @ name"
  shows "parse_args names (a # rest) flags positional = parse_args names rest flags (a # positional)"
proof (cases rest)
  case (Cons v vs)
  have "name \<notin> set names" if "strip_prefix ''--'' a = Some name" for name
    using that assms by (auto simp: strip_prefix_Some_iff)
  with Cons show ?thesis by (auto split: option.split)
qed simp

lemma parse_args_typed:
  "\<forall>a \<in> set as. typed_ok names a \<Longrightarrow>
    parse_args names (concat (map type_arg as)) flags positional = (meant_flags as flags, rev positional @ meant_positions as)"
proof (induction as arbitrary: flags positional)
  case (Cons a as)
  show ?case
  proof (cases a)
    case (Flag name v)
    with Cons.prems have "name \<in> set names" by simp
    moreover have "strip_prefix ''--'' (''--'' @ name) = Some name" by (rule strip_prefix_append)
    ultimately show ?thesis using Flag Cons by simp
  next
    case (Position p)
    with Cons.prems have "\<forall>name \<in> set names. p \<noteq> ''--'' @ name" by simp
    from parse_args_position [OF this] Position Cons show ?thesis by simp
  qed
qed simp

text \<open>
  A command line is read as it was meant: flags with their values may stand anywhere among
  the other arguments, which keep their order; the last value of a flag counts; and a value
  may itself look like a flag.
\<close>

theorem parse_args_reads_back:
  assumes "\<And>a. a \<in> set as \<Longrightarrow> typed_ok names a"
  shows "parse_args names (concat (map type_arg as)) fmempty [] = (meant_flags as fmempty, meant_positions as)"
  using parse_args_typed [of as names fmempty "[]"] assms by simp

lemma dec_string_is_digit: "list_all is_digit (dec_string n)"
proof -
  have "is_digit c" if "c \<in> set (dec_string n)" for c
  proof -
    obtain d where "d < 10" "c = digit_char d" using dec_string_digits [OF \<open>c \<in> set (dec_string n)\<close>] by blast
    then show ?thesis using digit_char_range [of d] by (simp add: is_digit_def digit_char_def)
  qed
  then show ?thesis by (simp add: list_all_iff)
qed

lemma parse_uint_dec_string: "n < 2 ^ w \<Longrightarrow> parse_uint w (dec_string n) = Some n"
proof -
  assume n: "n < 2 ^ w"
  obtain c s where d: "dec_string n = c # s" by (cases "dec_string n") auto
  have "is_digit c" using dec_string_is_digit [of n] d by simp
  then have "c \<noteq> CHR ''+''" by (auto simp: is_digit_def)
  with n d dec_string_is_digit [of n] dec_value_dec_string [of n] show ?thesis
    by (simp add: parse_uint_def)
qed

text \<open>
  A target with a port is taken apart where it should be, and one without a colon gets the
  service port; a port that is no number of 16 bits is silently replaced by the service port.
\<close>

lemma split_target_cases:
  "split_target (host @ '':'' @ dec_string (unat (port :: u16))) = (host, port)"
  "CHR '':'' \<notin> set host \<Longrightarrow> split_target host = (host, SERVICE_PORT)"
  "CHR '':'' \<notin> set p \<Longrightarrow> parse_uint 16 p = None \<Longrightarrow> split_target (host @ '':'' @ p) = (host, SERVICE_PORT)"
proof -
  have last: "rsplit_once CHR '':'' (host @ '':'' @ q) = Some (host, q)" if "CHR '':'' \<notin> set q" for q
    using that by (simp add: rsplit_once_def split_once_append)
  have "CHR '':'' \<notin> set (dec_string (unat port))"
    using dec_string_is_digit [of "unat port"] by (auto simp: list_all_iff is_digit_def)
  moreover have "unat port < 2 ^ LENGTH(16)" by (rule unsigned_less)
  then have "unat port < 2 ^ 16" by simp
  ultimately show "split_target (host @ '':'' @ dec_string (unat (port :: u16))) = (host, port)"
    using last by (simp add: split_target_def parse_uint_dec_string)
  show "CHR '':'' \<notin> set host \<Longrightarrow> split_target host = (host, SERVICE_PORT)"
    by (simp add: split_target_def rsplit_once_None_iff [THEN iffD2])
  show "CHR '':'' \<notin> set p \<Longrightarrow> parse_uint 16 p = None \<Longrightarrow> split_target (host @ '':'' @ p) = (host, SERVICE_PORT)"
    using last by (simp add: split_target_def)
qed

end
