(* ===== verification/Cli_Text.thy ===== *)
theory Cli_Text
  imports Cli
begin

text \<open>
  What the command line peer of \<open>app/rust/src/bin/easy_send_rs.rs\<close> prints: sizes, the lines of the
  commands, and the questions at the prompt.  Sizes go through \<open>f64\<close>; the conversion and the
  formatting with one decimal are written out as the standard library does them, to the
  nearest, ties to even.
\<close>

section \<open>Rounding\<close>

text \<open>The quotient to the nearest number, ties to even.\<close>

definition round_div :: "nat \<Rightarrow> nat \<Rightarrow> nat" where
  "round_div n d = (let q = n div d; r = n mod d
     in if 2 * r < d \<or> 2 * r = d \<and> even q then q else q + 1)"

text \<open>The number of bits of a number.\<close>

fun bits :: "nat \<Rightarrow> nat" where
  "bits n = (if n = 0 then 0 else Suc (bits (n div 2)))"

declare bits.simps [simp del]

text \<open>\<open>n as f64\<close>: 53 bits are kept.\<close>

definition f64_of_nat :: "nat \<Rightarrow> nat" where
  "f64_of_nat n = (let u = 2 ^ (bits n - 53) in round_div n u * u)"

text \<open>\<open>{:.1}\<close> of the quotient of an \<open>f64\<close> by a power of two, which is exact.\<close>

definition one_decimal :: "nat \<Rightarrow> nat \<Rightarrow> string" where
  "one_decimal n d = (let t = round_div (10 * n) d
     in dec_string (t div 10) @ ''.'' @ dec_string (t mod 10))"

definition format_size :: "u64 \<Rightarrow> string" where
  "format_size bytes = (let x = f64_of_nat (unat bytes); MB = 1024 * 1024
     in if MB \<le> x then one_decimal x MB @ '' MB'' else one_decimal x 1024 @ '' KB'')"

lemma round_div_near:
  assumes "0 < d"
  shows "2 * n \<le> 2 * (round_div n d * d) + d" and "2 * (round_div n d * d) \<le> 2 * n + d"
proof -
  have n: "n = n div d * d + n mod d" by simp
  have r: "n mod d < d" using assms by simp
  define q r where "q = n div d" and "r = n mod d"
  have "n = q * d + r" "r < d" using n r by (simp_all add: q_def r_def)
  moreover have "round_div n d = (if 2 * r < d \<or> 2 * r = d \<and> even q then q else q + 1)"
    by (simp add: round_div_def q_def r_def Let_def)
  ultimately show "2 * n \<le> 2 * (round_div n d * d) + d" "2 * (round_div n d * d) \<le> 2 * n + d"
    by (auto simp: algebra_simps)
qed

lemma round_div_exact: "0 < d \<Longrightarrow> round_div (k * d) d = k"
  by (simp add: round_div_def)

lemma bits_less: "n < 2 ^ k \<Longrightarrow> bits n \<le> k"
proof (induction k arbitrary: n)
  case (Suc k)
  then have "n div 2 < 2 ^ k" by simp
  with Suc.IH show ?case by (subst bits.simps) simp
qed (simp add: bits.simps)

lemma f64_small: "n < 2 ^ 53 \<Longrightarrow> f64_of_nat n = n"
  using bits_less [of n 53] by (simp add: f64_of_nat_def round_div_exact [of 1, simplified])

lemma f64_near:
  assumes "n < 2 ^ 64"
  shows "n \<le> f64_of_nat n + 1024" and "f64_of_nat n \<le> n + 1024"
proof -
  let ?u = "2 ^ (bits n - 53) :: nat"
  have "bits n - 53 \<le> 11" using bits_less [OF assms] by simp
  then have u: "?u \<le> 2 ^ 11" by (rule power_increasing) simp
  have "f64_of_nat n = round_div n ?u * ?u" by (simp add: f64_of_nat_def Let_def)
  with round_div_near [of ?u n] u show "n \<le> f64_of_nat n + 1024" "f64_of_nat n \<le> n + 1024" by simp_all
qed

text \<open>
  C38: A size is printed to the nearest tenth. For every number of bytes, \<open>format_size\<close> shows a
  number \<open>t\<close> of tenths of kilobytes below a megabyte and of megabytes from there on; \<open>t\<close> tenths
  are within half a tenth of the true size, and where \<open>f64\<close> cannot hold the number exactly
  within 1024 bytes more.
\<close>

theorem format_size_accurate:
  "\<exists>t unit. (unit = 2 ^ 10 \<and> unat bytes < 2 ^ 20
        \<and> format_size bytes = dec_string (t div 10) @ ''.'' @ dec_string (t mod 10) @ '' KB''
      \<or> unit = 2 ^ 20 \<and> 2 ^ 20 \<le> unat bytes
        \<and> format_size bytes = dec_string (t div 10) @ ''.'' @ dec_string (t mod 10) @ '' MB'')
    \<and> 2 * \<bar>10 * int (unat bytes) - int (t * unit)\<bar> \<le> int unit + (if unat bytes < 2 ^ 53 then 0 else 20480)"
proof -
  define b x where "b = unat bytes" and "x = f64_of_nat b"
  have "b < 2 ^ LENGTH(64)" unfolding b_def by (rule unsigned_less)
  then have b: "b < 2 ^ 64" by simp
  have same: "x = b" if "b < 2 ^ 53" using f64_small [OF that] by (simp add: x_def)
  note near = f64_near [OF b, folded x_def]
  define unit where "unit = (if 2 ^ 20 \<le> x then 2 ^ 20 else 2 ^ 10 :: nat)"
  define t where "t = round_div (10 * x) unit"
  have unit: "2 ^ 20 \<le> x \<longleftrightarrow> 2 ^ 20 \<le> b"
  proof (cases "b < 2 ^ 53")
    case False
    with near(1) show ?thesis by simp
  qed (simp add: same)
  have fmt: "format_size bytes = dec_string (t div 10) @ ''.'' @ dec_string (t mod 10) @ (if 2 ^ 20 \<le> x then '' MB'' else '' KB'')"
    by (simp add: format_size_def one_decimal_def Let_def t_def unit_def x_def b_def)
  have "0 < unit" by (simp add: unit_def)
  define n where "n = t * unit"
  note r = round_div_near [OF \<open>0 < unit\<close>, of "10 * x", folded t_def, folded n_def]
  have "2 * \<bar>10 * int b - int n\<bar> \<le> int unit + (if b < 2 ^ 53 then 0 else 20480)"
  proof (cases "b < 2 ^ 53")
    case True
    with r same have "int (20 * b) \<le> int (2 * n + unit)" "int (2 * n) \<le> int (20 * b + unit)"
      by (simp_all only: of_nat_le_iff)
    with True show ?thesis by (simp add: abs_if)
  next
    case False
    from r near have "int (20 * b) \<le> int (2 * n + unit + 20480)" "int (2 * n) \<le> int (20 * b + unit + 20480)"
      by (simp_all only: of_nat_le_iff)
    with False show ?thesis by (simp add: abs_if)
  qed
  then show ?thesis
    using unit fmt unfolding b_def [symmetric] n_def by (intro exI [of _ t] exI [of _ unit]) (simp add: unit_def)
qed

section \<open>Questions\<close>

definition join :: "string \<Rightarrow> string list \<Rightarrow> string" where
  "join sep parts = (case parts of [] \<Rightarrow> [] | p # ps \<Rightarrow> p @ concat (map (\<lambda>q. sep @ q) ps))"

text \<open>
  What the receiving user is asked; \<open>it\<close> is the order in which the map of files is iterated.
  The sizes are added up as a release build does, without a check for overflow.
\<close>

definition recv_question :: "transfer_request \<Rightarrow> (string \<times> file_meta) list \<Rightarrow> string" where
  "recv_question req it =
     (let names = map (\<lambda>(_, meta). fm_name meta) it;
          total = sum_list (map (\<lambda>(_, meta). fm_size meta) it);
          badge = (if tr_is_new_device req then utf8 [32, 91, 0xC0C8, 32, 0xAE30, 0xAE30, 93] else '''')
      in utf8 [0x2190, 32] @ pi_alias (tr_sender req) @ badge @ utf8 [0xAC00, 32] @ join '', '' names
        @ '' ('' @ format_size total @ utf8 [41, 32, 0xC804, 0xC1A1, 32, 0xC694, 0xCCAD] @ '' [y/N] '')"

text \<open>What the sending user is asked about a new device; the slice of the fingerprint can panic.\<close>

definition send_question :: "peer_info \<Rightarrow> string option" where
  "send_question info = map_option (\<lambda>short. utf8 [0xC0C8, 32, 0xAE30, 0xAE30, 0xC785, 0xB2C8, 0xB2E4, 46, 32,
       0xC2E0, 0xB8B0, 0xD560, 0xAE4C, 0xC694, 63, 32, 40] @ pi_alias info @ utf8 [44, 32, 0xC9C0, 0xBB38, 32] @ short
       @ utf8 [0x2026, 41] @ '' [y/N] '')
     (str_slice (pi_fingerprint info) 0 16)"

text \<open>
  The user can be asked about a huge transfer as if it were empty: the total of the announced
  sizes wraps around. Two files of \<open>2 ^ 63\<close> bytes are shown as \<open>0.0 KB\<close>.
\<close>

theorem question_total_wraps:
  "recv_question \<lparr>tr_sender = info, tr_files = files, tr_is_new_device = False\<rparr>
      [(''1'', \<lparr>fm_name = ''a'', fm_size = 2 ^ 63, fm_mime = ''''\<rparr>), (''2'', \<lparr>fm_name = ''b'', fm_size = 2 ^ 63, fm_mime = ''''\<rparr>)]
    = utf8 [0x2190, 32] @ pi_alias info @ utf8 [0xAC00, 32] @ ''a, b (0.0 KB'' @ utf8 [41, 32, 0xC804, 0xC1A1, 32, 0xC694, 0xCCAD]
      @ '' [y/N] ''"
proof -
  have "format_size 0 = ''0.0 KB''"
    by (simp add: format_size_def f64_of_nat_def one_decimal_def round_div_def bits.simps dec_string.simps digit_char_def
        char_of_eq_byte)
  moreover have zero: "(18446744073709551616 :: u64) = 0" by (rule word_uint_eqI) simp
  ultimately have "format_size 18446744073709551616 = format_size 0" by (simp only: zero)
  with \<open>format_size 0 = _\<close> show ?thesis by (simp add: recv_question_def join_def Let_def)
qed

end
