(* ===== verification/Cli_Main.thy ===== *)
theory Cli_Main
  imports Cli_Text
begin

text \<open>
  \<open>main\<close> of \<open>app/rust/src/bin/easy_send_rs.rs\<close>: the exit status and what is printed, what a
  successful \<open>send\<close> means, and Ctrl+C during the uploads.
\<close>

section \<open>What success means\<close>

lemma cli_uploads_done:
  "cli_uploads w session i sd items = (Inr (), sent) \<Longrightarrow> client_ok (cw_fp w) (Some expected) (sd_client sd) \<Longrightarrow>
    list_all2 (upload_sent (cw_fp w) expected (sd_addr sd) session) items sent"
proof (induction items arbitrary: i sd sent)
  case (Cons item items)
  obtain file_id path meta where item: "item = (file_id, path, meta)" by (cases item)
  obtain token where token: "hm_get (ps_tokens session) file_id = Some token"
    using Cons.prems(1) item by (cases "hm_get (ps_tokens session) file_id") auto
  obtain conn content cc where up: "cw_upload w i = (conn, content, cc)" by (metis prod_cases3)
  obtain u sd' s1 ps where u: "upload_file (cw_fp w) (cw_uri_ok w) sd conn (ps_session_id session) file_id token
      content (fm_size meta) = (u, sd', s1, ps)"
    by (metis prod_cases4)
  obtain r' s3 where rest: "cli_uploads w session (i + 1) sd' items = (r', s3)" by fastforce
  obtain x where x: "u = Inr x" and res: "r' = Inr ()" "sent = s1 @ s3"
    using Cons.prems(1) item token up u rest by (cases u) auto
  from upload_file_Inr [OF u [unfolded x] Cons.prems(2)] obtain ep rq body where
    s1: "s1 = [(ep, rq)]" "hr_path rq = sender_url sd ''/upload'' (upload_query (ps_session_id session) file_id token)"
      "hr_length rq = Some (fm_size meta)" "ep_reply ep rq = Some (200, body)"
      "cw_fp w (ep_cert ep) = expected" "ep_signed ep"
    and ok: "client_ok (cw_fp w) (Some expected) (sd_client sd')" "sd_addr sd' = sd_addr sd"
    by blast
  have "upload_sent (cw_fp w) expected (sd_addr sd) session item (ep, rq)"
    using s1 item token by (simp add: upload_sent_def sender_url_def API_PREFIX_def)
  with Cons.IH [OF rest [unfolded res] ok(1)] ok(2) res(2) s1(1) show ?case by simp
qed simp

lemma cli_transfer_done:
  assumes "cli_transfer w target self_info paths = (Inr (), sent)"
  shows "\<exists>items session ep rq b ups. cli_items (cw_size w) 0 paths = Inr items \<and> sent = (ep, rq) # ups
    \<and> hr_prepare rq = Some \<lparr>pr_info = self_info, pr_files = metas_of items\<rparr>
    \<and> ep_reply ep rq = Some (200, Some b) \<and> cw_session w b = Some session
    \<and> cw_fp w (ep_cert ep) = pi_fingerprint (cd_info target) \<and> ep_signed ep
    \<and> list_all2 (upload_sent (cw_fp w) (pi_fingerprint (cd_info target)) (cli_addr target) session) items ups"
proof -
  let ?fp = "pi_fingerprint (cd_info target)"
  let ?sd = "sender_new (cli_addr target) ?fp self_info"
  obtain items where items: "cli_items (cw_size w) 0 paths = Inr items"
    using assms by (cases "cli_items (cw_size w) 0 paths") (auto simp: cli_transfer_def)
  obtain r sd' s where p: "prepare_upload (cw_fp w) (cw_uri_ok w) (cw_session w) ?sd (cw_prepare w) (metas_of items) = (r, sd', s)"
    by (metis prod_cases3)
  obtain session where r: "r = Inr session"
    using assms items p by (cases r) (auto simp: cli_transfer_def)
  obtain r' ups where u: "cli_uploads w session 0 sd' items = (r', ups)" by fastforce
  have res: "r' = Inr ()" "sent = s @ ups"
    using assms items p r u by (auto simp: cli_transfer_def)
  have ok: "client_ok (cw_fp w) (Some ?fp) (sd_client ?sd)" by (simp add: sender_new_def)
  from prepare_upload_Inr [OF p [unfolded r] ok] obtain ep rq b where
    s: "s = [(ep, rq)]" "hr_prepare rq = Some \<lparr>pr_info = self_info, pr_files = metas_of items\<rparr>"
      "ep_reply ep rq = Some (200, Some b)" "cw_session w b = Some session" "cw_fp w (ep_cert ep) = ?fp" "ep_signed ep"
    and ok': "client_ok (cw_fp w) (Some ?fp) (sd_client sd')" "sd_addr sd' = cli_addr target"
    by (auto simp: sender_new_def)
  from cli_uploads_done [OF u [unfolded res] ok'(1)] ok'(2)
  have "list_all2 (upload_sent (cw_fp w) ?fp (cli_addr target) session) items ups" by simp
  with s items res(2) show ?thesis by auto
qed

section \<open>What is printed\<close>

text \<open>\<open>{:<n}\<close>: fill up with spaces to \<open>n\<close> characters.\<close>

definition char_count :: "string \<Rightarrow> nat" where
  "char_count s = length (filter (\<lambda>c. \<not> is_cont c) s)"

definition pad_right :: "nat \<Rightarrow> string \<Rightarrow> string" where
  "pad_right n s = s @ replicate (n - char_count s) CHR '' ''"

definition ls_lines :: "nat \<Rightarrow> (string \<times> string \<times> string) list \<Rightarrow> string list" where
  "ls_lines wait devices =
     (utf8 [0xBC1C, 0xACAC, 0xB41C, 32, 0xAE30, 0xAE30, 32, 40] @ dec_string wait @ utf8 [0xCD08, 32, 0xD0D0, 0xC0C9, 41, 58])
     # (if devices = [] then [utf8 [32, 32, 40, 0xC5C6, 0xC74C, 41]]
        else map (\<lambda>(i, alias, device_type, addr). ''  '' @ dec_string (i + 1) @ ''. '' @ pad_right 24 alias @ '' ''
            @ pad_right 8 device_type @ '' '' @ addr) (enumerate 0 devices))"

text \<open>\<open>speed\<close> is what the clock and the division of \<open>f64\<close> make of the size.\<close>

definition uploaded_line :: "file_meta \<Rightarrow> u64 \<Rightarrow> string" where
  "uploaded_line meta speed = utf8 [0xC5C5, 0xB85C, 0xB4DC, 32, 0xC644, 0xB8CC, 58, 32] @ fm_name meta @ '' (''
     @ format_size (fm_size meta) @ '', '' @ format_size speed @ ''/s)''"

definition saved_line :: "saved_file \<Rightarrow> string" where
  "saved_line sf = utf8 [0xC800, 0xC7A5, 32, 0xC644, 0xB8CC, 58, 32] @ sf_path sf
     @ utf8 [32, 40, 0xBCF4, 0xB0B8, 32, 0xAE30, 0xAE30, 58, 32] @ sf_from sf @ '')''"

definition asking_line :: "peer_info \<Rightarrow> string" where
  "asking_line info = pi_alias info @ utf8 [0xC5D0, 0xAC8C, 32, 0xC804, 0xC1A1, 32, 0xC694, 0xCCAD, 32, 0x2014, 32,
     0xC218, 0xC2E0, 0xC790, 32, 0xC2B9, 0xC778, 32, 0xB300, 0xAE30, 32, 0xC911, 32, 40, 0xCD5C, 0xB300, 32, 54, 48,
     0xCD08, 41, 0x2026]"

definition listening_line :: "recv_config \<Rightarrow> string" where
  "listening_line rc = utf8 [0xC218, 0xC2E0, 32, 0xB300, 0xAE30, 32, 0xC911] @ '' (alias: '' @ pi_alias (rc_self_info rc)
     @ utf8 [44, 32, 0xD3EC, 0xD2B8, 58, 32] @ dec_string (unat (rc_port rc)) @ utf8 [44, 32, 0xC800, 0xC7A5, 58, 32]
     @ rc_save_dir rc @ utf8 [44, 32, 0xBC84, 0xC804, 58, 32] @ VERSION @ utf8 [41, 32, 0x2014] @ '' Ctrl+C''
     @ utf8 [0xB85C, 32, 0xC885, 0xB8CC]"

text \<open>The lines of \<open>send\<close> once the target is trusted: the request, then one line per upload that succeeded.\<close>

fun upload_lines ::
    "cli_world \<Rightarrow> (nat \<Rightarrow> u64) \<Rightarrow> prepare_upload_response \<Rightarrow> nat \<Rightarrow> sender \<Rightarrow> (string \<times> string \<times> file_meta) list
      \<Rightarrow> string list" where
  "upload_lines w speed session i sd [] = []"
| "upload_lines w speed session i sd ((file_id, path, meta) # items) = (case hm_get (ps_tokens session) file_id of
     None \<Rightarrow> []
   | Some token \<Rightarrow>
       (let (conn, content, _) = cw_upload w i;
            (uploaded, sd', _, _) = upload_file (cw_fp w) (cw_uri_ok w) sd conn (ps_session_id session)
              file_id token content (fm_size meta)
        in case uploaded of Inl e \<Rightarrow> []
           | Inr _ \<Rightarrow> uploaded_line meta (speed i) # upload_lines w speed session (i + 1) sd' items))"

definition transfer_lines :: "cli_world \<Rightarrow> (nat \<Rightarrow> u64) \<Rightarrow> cli_device \<Rightarrow> peer_info \<Rightarrow> string list \<Rightarrow> string list" where
  "transfer_lines w speed target self_info paths = (case cli_items (cw_size w) 0 paths of
     Inl e \<Rightarrow> []
   | Inr items \<Rightarrow> asking_line (cd_info target) #
       (let sd = sender_new (cli_addr target) (pi_fingerprint (cd_info target)) self_info;
            (prepared, sd', _) = prepare_upload (cw_fp w) (cw_uri_ok w) (cw_session w) sd (cw_prepare w) (metas_of items)
        in case prepared of Inl e \<Rightarrow> [] | Inr session \<Rightarrow> upload_lines w speed session 0 sd' items))"

text \<open>One line per file that was answered 200, in order: all of them exactly if the transfer succeeds.\<close>

lemma upload_lines_count:
  "cli_uploads w session i sd items = (r, sent) \<Longrightarrow>
    length (upload_lines w speed session i sd items) \<le> length items
    \<and> (r = Inr () \<longleftrightarrow> length (upload_lines w speed session i sd items) = length items)"
proof (induction items arbitrary: i sd r sent)
  case (Cons item items)
  obtain file_id path meta where item: "item = (file_id, path, meta)" by (cases item)
  obtain conn content cc where up: "cw_upload w i = (conn, content, cc)" by (metis prod_cases3)
  show ?case
  proof (cases "hm_get (ps_tokens session) file_id")
    case None
    with Cons.prems item show ?thesis by auto
  next
    case (Some token)
    obtain u sd' s1 ps where u: "upload_file (cw_fp w) (cw_uri_ok w) sd conn (ps_session_id session) file_id token
        content (fm_size meta) = (u, sd', s1, ps)"
      by (metis prod_cases4)
    obtain r' s3 where rest: "cli_uploads w session (i + 1) sd' items = (r', s3)" by fastforce
    with Cons.prems Cons.IH [OF rest] item Some up u show ?thesis by (cases u) auto
  qed
qed simp

lemma transfer_lines_done:
  assumes "cli_transfer w target self_info paths = (Inr (), sent)" and "cli_items (cw_size w) 0 paths = Inr items"
  shows "\<exists>lines. transfer_lines w speed target self_info paths = asking_line (cd_info target) # lines \<and> length lines = length items"
proof -
  let ?sd = "sender_new (cli_addr target) (pi_fingerprint (cd_info target)) self_info"
  obtain r sd' s where p: "prepare_upload (cw_fp w) (cw_uri_ok w) (cw_session w) ?sd (cw_prepare w) (metas_of items) = (r, sd', s)"
    by (metis prod_cases3)
  obtain session where r: "r = Inr session"
    using assms p by (cases r) (auto simp: cli_transfer_def)
  obtain r' ups where u: "cli_uploads w session 0 sd' items = (r', ups)" by fastforce
  have "r' = Inr ()" using assms p r u by (auto simp: cli_transfer_def)
  with upload_lines_count [OF u, of speed] p r assms(2) show ?thesis by (simp add: transfer_lines_def)
qed

section \<open>The process\<close>

definition usage_text :: string where
  "usage_text = utf8 [0xC0AC, 0xC6A9, 0xBC95, 58, 10] @ ''  easy-send-rs ls [--wait '' @ utf8 [0xCD08, 93] @ replicate 16 CHR '' ''
     @ utf8 [0xBC1C, 0xACAC, 0xB41C, 32, 0xAE30, 0xAE30, 32, 0xBAA9, 0xB85D, 32, 40, 0xAE30, 0xBCF8, 32] @ ''3'' @ utf8 [0xCD08, 32, 0xD0D0, 0xC0C9, 41, 10]
     @ ''  easy-send-rs send <'' @ utf8 [0xD30C, 0xC77C] @ ''...> --to <'' @ utf8 [0xB300, 0xC0C1, 62, 32, 32, 32, 32, 0xD30C, 0xC77C, 32, 0xC804, 0xC1A1, 32, 40, 0xB300, 0xC0C1, 32]
     @ ''= alias '' @ utf8 [0xB610, 0xB294, 32] @ ''IP[:'' @ utf8 [0xD3EC, 0xD2B8, 93, 41, 10]
     @ ''  easy-send-rs recv [--dir '' @ utf8 [0xD3F4, 0xB354, 93] @ replicate 14 CHR '' '' @ utf8 [0xC218, 0xC2E0, 32, 0xB300, 0xAE30, 32, 40, 0xAE30, 0xBCF8, 32, 0xC800, 0xC7A5, 32,
         0xC704, 0xCE58, 58, 32, 0xD604, 0xC7AC, 32, 0xD3F4, 0xB354, 41]"

text \<open>\<open>chain\<close> is the text of an error and its causes.\<close>

definition error_line :: "(cli_error \<Rightarrow> string) \<Rightarrow> cli_error \<Rightarrow> string" where
  "error_line chain e = utf8 [0xC624, 0xB958, 58, 32] @ chain e"

definition error_output :: "(cli_error \<Rightarrow> string) \<Rightarrow> cli_error + 'a \<Rightarrow> string list" where
  "error_output chain r = (case r of Inl e \<Rightarrow> if e = Cli_panic then [] else [error_line chain e] | Inr _ \<Rightarrow> [])"

text \<open>The output of \<open>send\<close>: the question for a new device, then the lines of the transfer.\<close>

definition send_output :: "cli_world \<Rightarrow> (nat \<Rightarrow> u64) \<Rightarrow> string list \<Rightarrow> fs \<Rightarrow> string list" where
  "send_output w speed args f =
     (let (flags, paths) = parse_args [''to'', ''alias''] args fmempty []; dir = config_dir (cw_home w) in
      case hm_get flags ''to'' of None \<Rightarrow> []
      | Some to \<Rightarrow>
          if paths = [] \<or> check_paths (cw_is_file w) paths \<noteq> None then []
          else case load_or_create (lb_hex (cw_lib w)) (lb_sha (cw_lib w)) (lb_certs (cw_lib w)) (cw_identity w) f dir of
             (Inl e, g) \<Rightarrow> []
           | (Inr ident, g) \<Rightarrow>
          (case ts_open (lb_parse (cw_lib w)) (cw_trust_fault w) g dir of Inl e \<Rightarrow> []
           | Inr ts \<Rightarrow>
              (let self_info = cli_self_info (cw_hostname w) (hm_get flags ''alias'') ident SERVICE_PORT in
               case resolve_target w to self_info of Inl e \<Rightarrow> []
               | Inr target \<Rightarrow>
                   (if ts_contains ts (pi_fingerprint (cd_info target)) then []
                    else case send_question (cd_info target) of None \<Rightarrow> [] | Some q \<Rightarrow> [q])
                   @ (case confirm_trust w (cd_info target) ts g of
                        (Inl e, _, _) \<Rightarrow> []
                      | (Inr _, _, _) \<Rightarrow> transfer_lines w speed target self_info paths))))"

definition ls_wait :: "string list \<Rightarrow> nat" where
  "ls_wait args = (case hm_get (fst (parse_args [''alias'', ''wait''] args fmempty [])) ''wait'' of
     None \<Rightarrow> 3 | Some t \<Rightarrow> (case parse_uint 64 t of None \<Rightarrow> 0 | Some n \<Rightarrow> n))"

text \<open>
  The whole process: exit status, standard output and standard error.  \<open>devices\<close> is what discovery
  lists for \<open>ls\<close>, \<open>asked\<close> what a receiver prints for its requests until Ctrl+C, and
  \<open>signal_ok\<close> whether waiting for Ctrl+C works.
\<close>

definition cli_main ::
    "cli_world \<Rightarrow> device list \<Rightarrow> (nat \<Rightarrow> u64) \<Rightarrow> (cli_error \<Rightarrow> string) \<Rightarrow> (u16 \<Rightarrow> u16 option)
      \<Rightarrow> (bool \<times> if_addr) list option \<Rightarrow> string list \<Rightarrow> bool \<Rightarrow> string list \<Rightarrow> fs \<Rightarrow> int \<times> string list \<times> string list" where
  "cli_main w devices speed chain os_bind addrs asked signal_ok args f = (case parse_command args of
       None \<Rightarrow> (exit_status (None :: (cli_error + unit) option), [], [usage_text])
     | Some (C_ls as) \<Rightarrow>
         (let (r, _) = cmd_ls w devices as f
          in (exit_status (Some r), (case r of Inl e \<Rightarrow> [] | Inr ds \<Rightarrow> ls_lines (ls_wait as) ds), error_output chain r))
     | Some (C_send as) \<Rightarrow>
         (let (r, _) = cmd_send w as f in (exit_status (Some r), send_output w speed as f, error_output chain r))
     | Some (C_recv as) \<Rightarrow>
         (case cmd_recv w os_bind addrs as f of
            (Inl e, _) \<Rightarrow> (exit_status (Some (Inl e :: cli_error + unit)), [], error_output chain (Inl e :: cli_error + unit))
          | (Inr (rc, _), _) \<Rightarrow> (if signal_ok then 0 else 1, listening_line rc # asked, [])))"

lemma cmd_send_Inr:
  assumes "cmd_send w args f = (Inr (), ts, g, sent)" and "parse_args [''to'', ''alias''] args fmempty [] = (flags, paths)"
  obtains to ident h t0 self_info target t h' where "hm_get flags ''to'' = Some to" and "paths \<noteq> []"
    and "check_paths (cw_is_file w) paths = None"
    and "load_or_create (lb_hex (cw_lib w)) (lb_sha (cw_lib w)) (lb_certs (cw_lib w)) (cw_identity w) f
      (config_dir (cw_home w)) = (Inr ident, h)"
    and "ts_open (lb_parse (cw_lib w)) (cw_trust_fault w) h (config_dir (cw_home w)) = Inr t0"
    and "self_info = cli_self_info (cw_hostname w) (hm_get flags ''alias'') ident SERVICE_PORT"
    and "resolve_target w to self_info = Inr target" and "confirm_trust w (cd_info target) t0 h = (Inr (), t, h')"
    and "cli_transfer w target self_info paths = (Inr (), sent)"
  using assms
  by (auto simp: cmd_send_def Let_def split: option.splits if_splits sum.splits prod.splits)


section \<open>Ctrl+C\<close>

text \<open>
  During the uploads Ctrl+C cancels the session at the receiver and ends the process with
  status 1.  The uploads go on until it does.
\<close>

definition on_ctrl_c :: "cli_world \<Rightarrow> sender \<Rightarrow> connection \<Rightarrow> string \<Rightarrow> (endpoint \<times> http_request) list \<times> string list \<times> int" where
  "on_ctrl_c w sd conn session_id =
     (snd (cancel (cw_fp w) (cw_uri_ok w) sd conn session_id), [utf8 [10, 0xCDE8, 0xC18C, 0xB428]], 1)"

text \<open>
  A receiver that still has the session is idle after the request that Ctrl+C sends to it, if it
  can be reached; a peer without the fingerprint of the target is sent nothing.
\<close>

lemma ctrl_c_ends_session:
  assumes "client_ok (cw_fp w) (Some expected) (sd_client sd)" and "query_safe sid" and "s_id ses = sid"
    and "cw_uri_ok w (sender_url sd ''/cancel'' (cancel_query sid))" and "ep_signed ep"
  shows "cw_fp w (ep_cert ep) = expected \<Longrightarrow> \<exists>rq. fst (on_ctrl_c w sd (Fresh ep) sid) = [(ep, rq)]
      \<and> hr_path rq = sender_url sd ''/cancel'' (cancel_query sid)
      \<and> handle_cancel (strip_prefix ''?'' (cancel_query sid)) (Sending ses) = Some (status 200, Idle)"
    and "cw_fp w (ep_cert ep) \<noteq> expected \<Longrightarrow> fst (on_ctrl_c w sd (Fresh ep) sid) = []"
proof -
  obtain m where m: "query_map (strip_prefix ''?'' (cancel_query sid)) = Some m" "param_or_default m ''sessionId'' = sid"
    using cancel_params_query [OF assms(2)] by blast
  show "\<exists>rq. fst (on_ctrl_c w sd (Fresh ep) sid) = [(ep, rq)]
      \<and> hr_path rq = sender_url sd ''/cancel'' (cancel_query sid)
      \<and> handle_cancel (strip_prefix ''?'' (cancel_query sid)) (Sending ses) = Some (status 200, Idle)"
    if "cw_fp w (ep_cert ep) = expected"
    using cancel_sends [where uri_ok = "cw_uri_ok w" and sd = sd and sid = sid, OF assms(4,1) that assms(5)] m assms(3)
    by (simp add: on_ctrl_c_def plain_request_def handle_cancel_def cancel_session_def)
  show "fst (on_ctrl_c w sd (Fresh ep) sid) = []" if "cw_fp w (ep_cert ep) \<noteq> expected"
  proof -
    obtain sd' sent where c: "cancel (cw_fp w) (cw_uri_ok w) sd (Fresh ep) sid = (sd', sent)" by fastforce
    have "\<forall>(e, q) \<in> set sent. authentic (cw_fp w) (Some expected) e"
      using sender_step_ok [OF ss_cancel [OF c] assms(1)] by blast
    moreover have "\<forall>(e, q) \<in> set sent. e = ep"
      using c by (auto simp: cancel_def sender_request_def client_request_def connect_def Let_def
          split: if_splits prod.splits sum.splits option.splits verdict.splits)
    ultimately have "sent = []" using that by (cases sent) (auto simp: authentic_def)
    then show ?thesis by (simp add: on_ctrl_c_def c)
  qed
qed

end
