(* ===== verification/Cli_Terminal.thy ===== *)
theory Cli_Terminal
  imports Cli_Text
begin

text \<open>
  The prompts of \<open>recv\<close> and the terminal they share: \<open>prompt_yn\<close> of
  \<open>app/rust/src/bin/easy_send_rs.rs\<close> step by step.  Each prompt reads one line in a blocking task
  of its own; the receiver gives a prompt up after a minute, but the task that reads for it
  cannot be stopped and reads on.
\<close>

section \<open>The terminal\<close>

text \<open>
  The blocking task of a prompt waits for the lock of the standard input, reads, and is finished
  with what \<open>read_line\<close> returned: a text, which is empty at the end of the input, or an error.
\<close>

datatype reading_task = Waiting | Reading | Finished "string option"

text \<open>
  \<open>tm_typed\<close> are the lines nobody has read, \<open>tm_lock\<close> is the prompt whose task has the standard
  input, \<open>tm_given_up\<close> the prompts whose request timed out.  \<open>tm_taken\<close> records which prompt's task
  took which line.
\<close>

record terminal =
  tm_typed :: "string list"
  tm_closed :: bool
  tm_task :: "nat \<Rightarrow> reading_task option"
  tm_lock :: "nat option"
  tm_given_up :: "nat set"
  tm_taken :: "(nat \<times> string) list"

definition terminal_init :: terminal where
  "terminal_init = \<lparr>tm_typed = [], tm_closed = False, tm_task = (\<lambda>_. None), tm_lock = None, tm_given_up = {},
     tm_taken = []\<rparr>"

datatype term_event =
    Type_line string
  | Close_input
  | Show_prompt nat
  | Lock_input nat
  | Read_line nat
  | Give_up nat

text \<open>The question is printed and the blocking task spawned.\<close>

definition show_prompt :: "nat \<Rightarrow> terminal \<Rightarrow> terminal option" where
  "show_prompt i tm = (if tm_task tm i = None then Some (tm\<lparr>tm_task := (tm_task tm)(i \<mapsto> Waiting)\<rparr>) else None)"

text \<open>\<open>stdin()\<close> is locked for the whole of \<open>read_line\<close>, by whichever task comes first.\<close>

definition lock_input :: "nat \<Rightarrow> terminal \<Rightarrow> terminal option" where
  "lock_input i tm = (if tm_task tm i = Some Waiting \<and> tm_lock tm = None
     then Some (tm\<lparr>tm_task := (tm_task tm)(i \<mapsto> Reading), tm_lock := Some i\<rparr>) else None)"

text \<open>
  \<open>read_line\<close> takes one line, which is an error if it is no UTF-8, and waits while there is none
  and the input is not closed.
\<close>

definition line_result :: "string \<Rightarrow> string option" where
  "line_result line = (if valid_utf8 line then Some line else None)"

definition read_line :: "nat \<Rightarrow> terminal \<Rightarrow> terminal option" where
  "read_line i tm = (if tm_lock tm \<noteq> Some i then None else
     (case tm_typed tm of
        line # rest \<Rightarrow> Some (tm\<lparr>tm_typed := rest, tm_lock := None, tm_taken := tm_taken tm @ [(i, line)],
          tm_task := (tm_task tm)(i \<mapsto> Finished (line_result line))\<rparr>)
      | [] \<Rightarrow> if tm_closed tm then Some (tm\<lparr>tm_lock := None, tm_task := (tm_task tm)(i \<mapsto> Finished (Some []))\<rparr>)
              else None))"

definition finished :: "terminal \<Rightarrow> nat \<Rightarrow> bool" where
  "finished tm i = (case tm_task tm i of Some (Finished _) \<Rightarrow> True | _ \<Rightarrow> False)"

text \<open>The minute is over: the future is dropped, the task that reads for it is not.\<close>

definition give_up :: "nat \<Rightarrow> terminal \<Rightarrow> terminal option" where
  "give_up i tm = (if tm_task tm i \<noteq> None \<and> \<not> finished tm i
     then Some (tm\<lparr>tm_given_up := insert i (tm_given_up tm)\<rparr>) else None)"

fun term_exec :: "term_event \<Rightarrow> terminal \<Rightarrow> terminal option" where
  "term_exec (Type_line l) tm = (if tm_closed tm then None else Some (tm\<lparr>tm_typed := tm_typed tm @ [l]\<rparr>))"
| "term_exec Close_input tm = Some (tm\<lparr>tm_closed := True\<rparr>)"
| "term_exec (Show_prompt i) tm = show_prompt i tm"
| "term_exec (Lock_input i) tm = lock_input i tm"
| "term_exec (Read_line i) tm = read_line i tm"
| "term_exec (Give_up i) tm = give_up i tm"

definition term_step :: "terminal \<Rightarrow> term_event \<Rightarrow> terminal \<Rightarrow> bool" where
  "term_step tm e tm' \<longleftrightarrow> term_exec e tm = Some tm'"

text \<open>What the receiver is told of a prompt: nothing yet, its answer, or that time is up.\<close>

definition approval_of :: "terminal \<Rightarrow> nat \<Rightarrow> approval option" where
  "approval_of tm i = (if i \<in> tm_given_up tm then Some Timed_out
     else case tm_task tm i of Some (Finished line) \<Rightarrow> Some (Answer (prompt_yn line)) | _ \<Rightarrow> None)"

fun typed_lines :: "term_event list \<Rightarrow> string list" where
  "typed_lines [] = []"
| "typed_lines (Type_line l # es) = l # typed_lines es"
| "typed_lines (e # es) = typed_lines es"

lemma term_step_cases:
  assumes "term_step tm e tm'"
  obtains (typed) l where "e = Type_line l" "\<not> tm_closed tm" "tm' = tm\<lparr>tm_typed := tm_typed tm @ [l]\<rparr>"
  | (closed) "e = Close_input" "tm' = tm\<lparr>tm_closed := True\<rparr>"
  | (shown) i where "e = Show_prompt i" "tm_task tm i = None" "tm' = tm\<lparr>tm_task := (tm_task tm)(i \<mapsto> Waiting)\<rparr>"
  | (locked) i where "e = Lock_input i" "tm_task tm i = Some Waiting" "tm_lock tm = None"
      "tm' = tm\<lparr>tm_task := (tm_task tm)(i \<mapsto> Reading), tm_lock := Some i\<rparr>"
  | (line) i l rest where "e = Read_line i" "tm_lock tm = Some i" "tm_typed tm = l # rest"
      "tm' = tm\<lparr>tm_typed := rest, tm_lock := None, tm_taken := tm_taken tm @ [(i, l)],
          tm_task := (tm_task tm)(i \<mapsto> Finished (line_result l))\<rparr>"
  | (at_end) i where "e = Read_line i" "tm_lock tm = Some i" "tm_typed tm = []" "tm_closed tm"
      "tm' = tm\<lparr>tm_lock := None, tm_task := (tm_task tm)(i \<mapsto> Finished (Some []))\<rparr>"
  | (given_up) i where "e = Give_up i" "\<not> finished tm i" "tm' = tm\<lparr>tm_given_up := insert i (tm_given_up tm)\<rparr>"
  using assms
  by (cases e) (auto simp: term_step_def show_prompt_def lock_input_def read_line_def give_up_def
      split: if_splits list.splits)

section \<open>One line, one prompt\<close>

definition terminal_ok :: "terminal \<Rightarrow> bool" where
  "terminal_ok tm \<longleftrightarrow> (\<forall>i. tm_task tm i = Some Reading \<longleftrightarrow> tm_lock tm = Some i)
     \<and> distinct (map fst (tm_taken tm))
     \<and> (\<forall>i l. (i, l) \<in> set (tm_taken tm) \<longrightarrow> tm_task tm i = Some (Finished (line_result l)))
     \<and> (\<forall>i l. tm_task tm i = Some (Finished (Some l)) \<longrightarrow> l = [] \<or> (i, l) \<in> set (tm_taken tm))"

lemma trim_start_Nil: "trim_start ws [] = []"
proof -
  have "strip_any ws [] = None" using strip_any_shorter [of ws "[]"] by (cases "strip_any ws []") auto
  then show ?thesis by (simp add: trim_start.simps)
qed

lemma not_yes_without_line: "\<not> prompt_yn (Some [])" "\<not> prompt_yn None"
  by (simp_all add: prompt_yn_def trim_def trim_end_def trim_start_Nil to_lower_def)

lemma terminal_okD:
  assumes "terminal_ok tm"
  shows "tm_task tm i = Some Reading \<longleftrightarrow> tm_lock tm = Some i"
    and "(i, l) \<in> set (tm_taken tm) \<Longrightarrow> tm_task tm i = Some (Finished (line_result l))"
    and "tm_task tm i = Some (Finished (Some l)) \<Longrightarrow> l = [] \<or> (i, l) \<in> set (tm_taken tm)"
  using assms by (auto simp: terminal_ok_def)

lemma reading_took_nothing: "terminal_ok tm \<Longrightarrow> tm_lock tm = Some i \<Longrightarrow> (i, l) \<notin> set (tm_taken tm)"
  using terminal_okD(1) [of tm i] terminal_okD(2) [of tm i l] by auto

lemma terminal_ok_step: "terminal_ok tm \<Longrightarrow> True \<Longrightarrow> term_step tm e tm' \<Longrightarrow> terminal_ok tm'"
proof (erule term_step_cases)
  fix i l rest
  assume ok: "terminal_ok tm" and lock: "tm_lock tm = Some i"
    and "tm' = tm\<lparr>tm_typed := rest, tm_lock := None, tm_taken := tm_taken tm @ [(i, l)],
          tm_task := (tm_task tm)(i \<mapsto> Finished (line_result l))\<rparr>"
  with reading_took_nothing [OF ok lock] terminal_okD [OF ok] show "terminal_ok tm'"
    by (auto simp: terminal_ok_def line_result_def split: if_splits)
next
  fix i
  assume ok: "terminal_ok tm" and lock: "tm_lock tm = Some i"
    and "tm' = tm\<lparr>tm_lock := None, tm_task := (tm_task tm)(i \<mapsto> Finished (Some []))\<rparr>"
  with reading_took_nothing [OF ok lock] terminal_okD [OF ok] show "terminal_ok tm'"
    by (auto simp: terminal_ok_def)
next
  fix i
  assume ok: "terminal_ok tm" and new: "tm_task tm i = None" and tm': "tm' = tm\<lparr>tm_task := (tm_task tm)(i \<mapsto> Waiting)\<rparr>"
  from terminal_okD(1) [OF ok, of i] terminal_okD(2) [OF ok, of i] new have "tm_lock tm \<noteq> Some i" "\<And>l. (i, l) \<notin> set (tm_taken tm)"
    by auto
  with ok tm' show "terminal_ok tm'" by (auto simp: terminal_ok_def)
qed (auto simp: terminal_ok_def)

interpretation terminal_inv: step_invariant term_step terminal_ok
  by unfold_locales (rule terminal_ok_step)

lemma terminal_init_ok: "terminal_ok terminal_init"
  by (simp add: terminal_ok_def terminal_init_def)

lemma taken_in_order:
  "run term_step tm es tm' \<Longrightarrow> map snd (tm_taken tm') @ tm_typed tm' = map snd (tm_taken tm) @ tm_typed tm @ typed_lines es"
  by (induction rule: run.induct) (auto elim: term_step_cases)

text \<open>
  C39: Every prompt has its own answer. Whatever is typed, whenever prompts are shown and
  given up, and in whatever order their tasks get hold of the standard input: the lines are
  taken in the order they were typed, none is lost and none is read twice, no prompt takes
  two, and a transfer is approved only by a yes on a line that this prompt alone has read.
\<close>

theorem prompts_take_lines_in_order:
  assumes "run term_step terminal_init es tm"
  shows "map snd (tm_taken tm) @ tm_typed tm = typed_lines es \<and> distinct (map fst (tm_taken tm))
    \<and> (approval_of tm i = Some (Answer True) \<longrightarrow> (\<exists>l. (i, l) \<in> set (tm_taken tm) \<and> prompt_yn (Some l)))"
proof -
  have ok: "terminal_ok tm" using terminal_inv.run_inv [OF assms terminal_init_ok] .
  have "map snd (tm_taken tm) @ tm_typed tm = typed_lines es"
    using taken_in_order [OF assms] by (simp add: terminal_init_def)
  moreover have "distinct (map fst (tm_taken tm))" using ok by (simp add: terminal_ok_def)
  moreover have "\<exists>l. (i, l) \<in> set (tm_taken tm) \<and> prompt_yn (Some l)" if "approval_of tm i = Some (Answer True)"
  proof -
    from that obtain line where "tm_task tm i = Some (Finished line)" "prompt_yn line"
      by (auto simp: approval_of_def split: if_splits option.splits reading_task.splits)
    with not_yes_without_line terminal_okD(3) [OF ok, of i] show ?thesis by (cases line) auto
  qed
  ultimately show ?thesis by blast
qed

section \<open>Prompts that were given up\<close>

text \<open>While nothing is typed and the input is open, no prompt gets an answer.\<close>

lemma nothing_typed_nothing_answered:
  "run term_step tm es tm' \<Longrightarrow> tm_typed tm = [] \<Longrightarrow> typed_lines es = [] \<Longrightarrow> \<not> tm_closed tm \<Longrightarrow> Close_input \<notin> set es
    \<Longrightarrow> finished tm' j = finished tm j"
proof (induction rule: run.induct)
  case (run_Cons tm e t es tm')
  from run_Cons.hyps(1) run_Cons.prems have "finished t j = finished tm j \<and> tm_typed t = [] \<and> typed_lines es = [] \<and> \<not> tm_closed t"
    by (cases rule: term_step_cases) (auto simp: finished_def)
  with run_Cons show ?case by simp
qed simp

lemma one_line_for_the_reader:
  "run term_step tm es tm' \<Longrightarrow> tm_lock tm = Some i \<Longrightarrow> i \<noteq> j \<Longrightarrow> \<not> finished tm j
    \<Longrightarrow> length (tm_typed tm) + length (typed_lines es) \<le> 1 \<Longrightarrow> \<not> tm_closed tm \<Longrightarrow> Close_input \<notin> set es \<Longrightarrow> \<not> finished tm' j"
proof (induction rule: run.induct)
  case (run_Cons tm e t es tm')
  from run_Cons.hyps(1) show ?case
  proof (cases rule: term_step_cases)
    case (line i' l rest)
    then have "tm_typed t = []" "typed_lines es = []" "\<not> tm_closed t" "Close_input \<notin> set es" "\<not> finished t j"
      using run_Cons.prems by (auto simp: finished_def)
    then show ?thesis using nothing_typed_nothing_answered [OF run_Cons.hyps(2)] by simp
  qed (use run_Cons in \<open>auto simp: finished_def\<close>)
qed simp

lemma given_up_stays: "run term_step tm es tm' \<Longrightarrow> i \<in> tm_given_up tm \<Longrightarrow> i \<in> tm_given_up tm'"
  by (induction rule: run.induct) (auto elim: term_step_cases)

text \<open>
  A prompt that was given up while its task had the standard input swallows the next line: the
  answer typed for a later request does not reach that request, and does nothing for the first.
\<close>

theorem given_up_prompt_swallows_answer:
  assumes "run term_step tm es tm'" and "tm_lock tm = Some i" and "i \<in> tm_given_up tm" and "i \<noteq> j" and "\<not> finished tm j"
    and "tm_typed tm = []" and "\<not> tm_closed tm" and "Close_input \<notin> set es" and "length (typed_lines es) = 1"
  shows "approval_of tm' i = Some Timed_out" and "approval_of tm' j \<noteq> Some (Answer b)"
  using given_up_stays [OF assms(1,3)] one_line_for_the_reader [OF assms(1,2,4,5) _ assms(7,8)] assms(6,9)
  by (auto simp: approval_of_def finished_def split: option.splits reading_task.splits if_splits)

end
