(* ===== verification/End_To_End.thy ===== *)
theory End_To_End
  imports Recv_Races Cli
begin

text \<open>
  The sender of \<open>app/rust/src/api/easy_send.rs\<close> and the receiver of
  \<open>app/rust/src/core/transfer/recv.rs\<close> together: what the lemmas of the parts give for the
  files of one transfer, from the list the sender makes to what the receiver stores.
\<close>

section \<open>From the sender's file list to the receiver's disk\<close>

lemma collect_items_ids:
  "collect_items metadata i paths = Inr items \<Longrightarrow>
    map fst items = map (\<lambda>k. ''f'' @ dec_string (Suc k)) [i..<i + length paths]"
proof (induction paths arbitrary: i items)
  case (Cons p ps)
  from Cons.prems obtain n rest where r: "collect_items metadata (i + 1) ps = Inr rest"
    and items: "items = (''f'' @ dec_string (i + 1), p,
      \<lparr>fm_name = item_name p, fm_size = n, fm_mime = ''application/octet-stream''\<rparr>) # rest"
    by (auto split: option.splits sum.splits)
  have "[i..<i + length (p # ps)] = i # [i + 1..<i + 1 + length ps]" by (subst upt_conv_Cons) simp_all
  with Cons.IH [OF r] items show ?case by simp
qed simp

lemma collect_items_distinct: "collect_items metadata i paths = Inr items \<Longrightarrow> distinct (map fst items)"
  by (simp add: collect_items_ids distinct_map inj_on_def dec_string_inj)

lemma query_safe_file_id: "query_safe (''f'' @ dec_string n)"
proof (rule query_safe_ascii)
  have "is_digit c" if "c \<in> set (dec_string n)" for c
    using that dec_string_is_digit [of n] by (simp add: list_all_iff)
  then show "\<forall>c \<in> set (''f'' @ dec_string n). byte c < 128 \<and> c \<notin> {CHR ''%'', CHR ''+'', CHR ''&''}"
    by (fastforce simp: is_digit_def)
qed

lemma item_fst: "(a, b, c) \<in> set items \<Longrightarrow> a \<in> fst ` set items"
  by force

lemma metas_of_lookup:
  assumes "distinct (map fst items)"
  shows "hm_get (metas_of items) fid = Some meta \<longleftrightarrow> (\<exists>path. (fid, path, meta) \<in> set items)"
proof -
  have "hm_get (foldl (\<lambda>m (id', path, meta). fmupd id' meta m) m items) fid =
      (case map_of items fid of Some (path, meta) \<Rightarrow> Some meta | None \<Rightarrow> hm_get m fid)" for m
    using assms
  proof (induction items arbitrary: m)
    case (Cons item items)
    then show ?case by (cases item) (auto split: option.splits dest: map_of_SomeD item_fst)
  qed simp
  then have "hm_get (metas_of items) fid = map_option snd (map_of items fid)"
    by (simp add: metas_of_def split: option.split)
  then show ?thesis using assms by (auto simp: map_of_eq_Some_iff)
qed

lemma metas_of_dom: "distinct (map fst items) \<Longrightarrow> fset (fmdom (metas_of items)) = set (map fst items)"
  using metas_of_lookup [of items] by (force simp: fmlookup_dom_iff)

text \<open>The requests the sender makes for its files, each with the body that arrives.\<close>

definition upload_requests ::
    "prepare_upload_response \<Rightarrow> (string \<times> string \<times> file_meta) list \<Rightarrow> upload_env list
      \<Rightarrow> (upload_env \<times> string option) list" where
  "upload_requests session items envs = map2 (\<lambda>(fid, path, meta) env.
     (env, strip_prefix ''?'' (upload_query (ps_session_id session) fid
        (case hm_get (ps_tokens session) fid of Some token \<Rightarrow> token | None \<Rightarrow> [])))) items envs"

lemma map2_ids: "map2 (\<lambda>(fid, path, meta) e. (e, q fid)) items envs = map (\<lambda>(fid, e). (e, q fid)) (zip (map fst items) envs)"
  by (induction items envs rule: list_induct2') auto

text \<open>What ends up on the receiver's disk for a file.\<close>

definition delivered :: "fs \<Rightarrow> string \<Rightarrow> upload_env \<Rightarrow> saved_file \<Rightarrow> bool" where
  "delivered g from_alias env sf \<longleftrightarrow>
     fs_read g (sf_path sf) = Some (body_bytes (ue_frames env)) \<and> sf_from sf = from_alias"

lemma list_all2_zip_saves:
  "length xs = length envs \<Longrightarrow> list_all2 (saves_body g al) (zip xs envs) sfs = list_all2 (delivered g al) envs sfs"
  by (induction xs envs arbitrary: sfs rule: list_induct2)
    (auto simp: list_all2_Cons1 saves_body_def delivered_def)

lemma prepare_approved:
  assumes "from_slice body = Some p" and "fmdom' (pr_files p) \<noteq> {}" and "pe_approval env = Answer True"
    and "pe_now env \<noteq> None" and "fs_ok f"
  obtains ts f1 where "handle_prepare from_slice to_vec env (Some body) (Idle, ts0, f) =
      (prepare_response (new_session (pe_sid env) (pe_tok env) p), Some (prepare_request ts0 p),
       Sending (new_session (pe_sid env) (pe_tok env) p), ts, f1)"
    "ts_contains ts (pi_fingerprint (pr_info p))" "fs_ok f1" "\<And>x. x \<noteq> ts_path ts \<Longrightarrow> fs_read f1 x = fs_read f x"
proof -
  obtain u ts f1 where a: "ts_add to_vec (pe_now env) (pe_mkdir env) (pe_write env) (pi_fingerprint (pr_info p))
      (pi_alias (pr_info p)) ts0 f = (u, ts, f1)"
    by (metis prod_cases3)
  have "handle_prepare from_slice to_vec env (Some body) (Idle, ts0, f) =
      (prepare_response (new_session (pe_sid env) (pe_tok env) p), Some (prepare_request ts0 p),
       Sending (new_session (pe_sid env) (pe_tok env) p), ts, f1)"
    using assms(1-3) a by (simp add: handle_prepare_def prepare_parse_def prepare_claim_def approval_refusal_def Let_def)
  moreover have "ts_contains ts (pi_fingerprint (pr_info p))" using ts_contains_add [OF a] assms(4) by auto
  moreover have "fs_ok f1" and "x \<noteq> ts_path ts \<Longrightarrow> fs_read f1 x = fs_read f x" for x
    using ts_exec_frame [of to_vec "Ts_add (pe_now env) (pe_mkdir env) (pe_write env) (pi_fingerprint (pr_info p))
        (pi_alias (pr_info p))" ts0 f u ts f1] ts_add_path [OF a] ts_add_fs [OF a] a assms(5) by auto
  ultimately show thesis by (rule that)
qed

lemma uploads_fit:
  assumes "collect_items metadata 0 paths = Inr items" and "query_safe (pe_sid env)"
    and "\<And>fid. query_safe (pe_tok env fid) \<and> pe_tok env fid \<noteq> []"
    and "list_all2 (\<lambda>(fid, path, meta) e. fit_upload e meta) items envs" and "pr_files p = metas_of items"
    and "(fid, e) \<in> set (zip (map fst items) envs)"
  defines "s \<equiv> new_session (pe_sid env) (pe_tok env) p"
  shows "\<exists>tok meta. upload_params (strip_prefix ''?'' (upload_query (s_id s) fid
        (case hm_get (s_tokens s) fid of Some token \<Rightarrow> token | None \<Rightarrow> []))) = Some (s_id s, fid, tok)
      \<and> tok \<noteq> '''' \<and> hm_get (s_tokens s) fid = Some tok \<and> hm_get (s_files s) fid = Some meta \<and> fit_upload e meta"
proof -
  note d = collect_items_distinct [OF assms(1)]
  from assms(6) obtain i where i: "i < length items" "fid = fst (items ! i)" "e = envs ! i"
    by (auto simp: set_zip)
  obtain path meta where it: "items ! i = (fid, path, meta)" using i(2) by (cases "items ! i") auto
  then have "(fid, path, meta) \<in> set items" using i(1) nth_mem [of i items] by simp
  then have g: "hm_get (metas_of items) fid = Some meta" using metas_of_lookup [OF d] by blast
  have "fit_upload e meta" using list_all2_nthD [OF assms(4) i(1)] it i(3) by simp
  moreover have "fid \<in> set (map fst items)" using i by auto
  then have "query_safe fid" unfolding collect_items_ids [OF assms(1)] using query_safe_file_id by auto
  ultimately show ?thesis
    using g assms(2,3,5) upload_params_query [of "pe_sid env" fid "pe_tok env fid"] by (simp add: s_def)
qed

section \<open>The requests of a sender, served one after the other\<close>

text \<open>
  A transfer from end to end. A sender with readable files asks an idle receiver; the user
  there approves, and the bodies arrive whole. Then the receiver trusts the sender and opens a
  session; the upload requests that the sender makes from the answer are all answered with
  200; the receiver is idle again; every body is on its disk, in the order of the files and
  under the sender's alias; and no file it had before was changed but its trust list.
\<close>

theorem transfer_end_to_end:
  assumes "collect_items metadata 0 paths = Inr items" and "paths \<noteq> []"
    and "from_slice body = Some \<lparr>pr_info = sender_info, pr_files = metas_of items\<rparr>"
    and "pe_approval env = Answer True" and "pe_now env \<noteq> None"
    and "pe_sid env = random_hex16 hexe buf" and "\<And>fid. pe_tok env fid = random_hex16 hexe (bufs fid) \<and> length (bufs fid) = 16"
    and "\<And>b. set (hexe b) \<subseteq> set ''0123456789abcdef'' \<and> length (hexe b) = 2 * length b"
    and "list_all2 (\<lambda>(fid, path, meta) e. fit_upload e meta) items envs" and "fs_ok f"
  shows "\<exists>resp req st ts f1 session g saved. handle_prepare from_slice to_vec env (Some body) (Idle, ts0, f)
      = (resp, Some req, st, ts, f1)
    \<and> rs_status resp = 200 \<and> rs_body resp = Prepare_body session
    \<and> tr_files req = metas_of items \<and> ts_contains ts (pi_fingerprint sender_info)
    \<and> upload_all cfg (upload_requests session items envs) (st, f1, sv)
        = Some (replicate (length items) (status 200), Idle, g, sv @ saved)
    \<and> list_all2 (delivered g (pi_alias sender_info)) envs saved
    \<and> (\<forall>x d. x \<noteq> ts_path ts \<longrightarrow> fs_read f x = Some d \<longrightarrow> fs_read g x = Some d)"
proof -
  have hex: "query_safe (hexe b)" "length (hexe b) = 2 * length b" for b
    using assms(8) query_safe_hex by blast+
  have safe: "query_safe (pe_sid env)" "query_safe (pe_tok env fid) \<and> pe_tok env fid \<noteq> []" for fid
    using assms(6,7) hex [of buf] hex [of "bufs fid"] by (auto simp: random_hex16_def)
  let ?p = "\<lparr>pr_info = sender_info, pr_files = metas_of items\<rparr>"
  let ?s = "new_session (pe_sid env) (pe_tok env) ?p"
  let ?session = "\<lparr>ps_session_id = pe_sid env, ps_tokens = s_tokens ?s\<rparr>" and ?ups = "zip (map fst items) envs"
  note d = collect_items_distinct [OF assms(1)]
  have "length items = length paths" using arg_cong [OF collect_items_ids [OF assms(1)], of length] by simp
  with assms(2) metas_of_dom [OF d] have ne: "fmdom' (pr_files ?p) \<noteq> {}" by (auto simp: fmdom'_alt_def)
  obtain ts f1 where h: "handle_prepare from_slice to_vec env (Some body) (Idle, ts0, f) =
      (prepare_response ?s, Some (prepare_request ts0 ?p), Sending ?s, ts, f1)"
    and trust: "ts_contains ts (pi_fingerprint sender_info)"
    and f1: "fs_ok f1" "\<And>x. x \<noteq> ts_path ts \<Longrightarrow> fs_read f1 x = fs_read f x"
    by (rule prepare_approved [where p = ?p and from_slice = from_slice and body = body and to_vec = to_vec and ?ts0.0 = ts0, OF assms(3) ne assms(4,5,10)])
      simp
  have len: "length (map fst items) = length envs" using list_all2_lengthD [OF assms(9)] by simp
  have dom: "set (map fst ?ups) = fset (fmdom (s_files ?s) |-| s_received ?s)" and dis: "distinct (map fst ?ups)"
    using metas_of_dom [OF d] len d by simp_all
  let ?q = "\<lambda>fid. strip_prefix ''?'' (upload_query (s_id ?s) fid
      (case hm_get (s_tokens ?s) fid of Some token \<Rightarrow> token | None \<Rightarrow> []))"
  have "\<exists>tok meta. upload_params (?q fid) = Some (s_id ?s, fid, tok) \<and> tok \<noteq> '''' \<and> hm_get (s_tokens ?s) fid = Some tok
      \<and> hm_get (s_files ?s) fid = Some meta \<and> fit_upload e meta" if "(fid, e) \<in> set ?ups" for fid e
    by (rule uploads_fit [OF assms(1) safe assms(9) _ that]) simp
  note all = upload_all_complete [OF f1(1) new_session_ok [OF ne] dom dis this, of cfg sv]
  have "upload_requests ?session items envs = map (\<lambda>(fid, e). (e, ?q fid)) ?ups"
    unfolding upload_requests_def prepare_upload_response.simps new_session_simps by (rule map2_ids)
  with all obtain g saved where "upload_all cfg (upload_requests ?session items envs) (Sending ?s, f1, sv) =
      Some (replicate (length items) (status 200), Idle, g, sv @ saved)"
    and s: "list_all2 (saves_body g (pi_alias sender_info)) ?ups saved"
    and keep: "\<forall>x d. fs_read f1 x = Some d \<longrightarrow> fs_read g x = Some d"
    using len by auto
  then show ?thesis
    using h trust f1(2) list_all2_zip_saves [OF len]
    by (intro exI [of _ "prepare_response ?s"] exI [of _ "prepare_request ts0 ?p"] exI [of _ "Sending ?s"] exI [of _ ts]
        exI [of _ f1] exI [of _ ?session] exI [of _ g] exI [of _ saved])
      (simp add: prepare_response_def prepare_request_def)
qed

end
