(* ===== verification/Examples_App.thy ===== *)
theory Examples_App
  imports Examples_Recv Listener Bridge_Results Cli_Main Cli_Terminal End_To_End
begin

text \<open>
  Concrete runs of the connections, the node's lifecycle, the device feed, the bridge and the command line:
  each applies a theorem at an input where its hypotheses hold.
\<close>

section \<open>Connections\<close>

definition some_arrivals :: "net_event list" where
  "some_arrivals = [N_accept 0, N_tls 0 True, N_request 0 7 (post ''/prepare-upload'' None) (Some ''A''), N_piece 0 (E_ask 7)]"

lemma some_arrivals_run:
  "\<exists>s. run (net_step some_request (\<lambda>_. ''j'') some_config) (listener_init \<lparr>ts_path = ''/c/t'', ts_devices = fmempty\<rparr> fs_empty)
      some_arrivals s \<and> ln_conns s 0 = Some (Serving 7) \<and> unfinished (ln_server s) 7
    \<and> (\<exists>p rq. sv_tasks (ln_server s) 7 = Some (T_asked p rq))"
  by (simp add: some_arrivals_def run_Cons_iff net_step_def listener_init_def new_task_def on_prepare_def
      prepare_parse_def prepare_claim_def some_request_def on_ask_def unfinished_def)


theorem stopped_listener_witness:
  "\<exists>s s'. run (net_step some_request (\<lambda>_. ''j'') some_config) (stop_listener s) [N_piece 0 (E_answer 7 (Answer False)), N_reply 0, N_close 0] s'
    \<and> dom (ln_conns s') \<subseteq> dom (ln_conns s) \<and> \<not> unfinished (ln_server s') 7"
proof -
  let ?step = "net_step some_request (\<lambda>_. ''j'') some_config"
  from some_arrivals_run obtain s p rq where
    r: "run ?step (listener_init \<lparr>ts_path = ''/c/t'', ts_devices = fmempty\<rparr> fs_empty) some_arrivals s"
    and c: "ln_conns s 0 = Some (Serving 7)" and t: "sv_tasks (ln_server s) 7 = Some (T_asked p rq)"
    by blast
  have "\<exists>s'. run ?step (stop_listener s) [N_piece 0 (E_answer 7 (Answer False)), N_reply 0, N_close 0] s'
      \<and> ln_conns s' 0 = None"
    using c t by (simp add: run_Cons_iff net_step_def stop_listener_def on_answer_def approval_refusal_def drop_conn_def)
  then obtain s' where r': "run ?step (stop_listener s) [N_piece 0 (E_answer 7 (Answer False)), N_reply 0, N_close 0] s'"
    and c': "ln_conns s' 0 = None"
    by blast
  note l = stopped_listener [OF r r']
  have "\<not> unfinished (ln_server s') 7"
  proof
    assume "unfinished (ln_server s') 7"
    with l obtain d where d: "ln_conns s' d = Some (Serving 7)" by blast
    have "ln_conns s d = None" if "d \<noteq> 0" for d
      using r that by (auto simp: some_arrivals_def run_Cons_iff net_step_def listener_init_def dispatch_post
          split: if_splits option.splits conn.splits)
    with l d c' show False by (metis domD domI option.distinct(1) subsetD)
  qed
  with r' l show ?thesis by blast
qed

section \<open>The node\<close>

definition some_library :: library where
  "some_library = \<lparr>lb_hex = (\<lambda>s. s), lb_sha = (\<lambda>s. s), lb_certs = (\<lambda>_. Some (Some ''D'')), lb_key = (\<lambda>_. Some (Some ''K'')),
     lb_tls = (\<lambda>_ _. Some ()), lb_parse = (\<lambda>_. Some some_trusted), lb_print = (\<lambda>_. ''{}'')\<rparr>"

definition some_io :: start_io where
  "some_io = \<lparr>si_save_dir = True, si_identity = some_identity_io, si_trust_fault = False, si_bind = Some,
     si_discovery = True, si_addrs = None\<rparr>"

definition some_node_config :: node_config where
  "some_node_config = \<lparr>nc_base_dir = ''/c'', nc_save_dir = ''/d'', nc_alias = ''a'', nc_device_type = ''t''\<rparr>"

definition fresh_app :: app where
  "fresh_app = lc_app (life_init fs_empty)"

lemma fresh_fs: "ap_fs fresh_app = fs_empty" by (simp add: fresh_app_def life_init_def)

text \<open>A start succeeds when the identity can be had.\<close>

abbreviation some_load :: "fs \<Rightarrow> (sec_error + identity) \<times> fs" where
  "some_load f \<equiv> load_or_create (\<lambda>s. s) (\<lambda>s. s) (\<lambda>_. Some (Some ''D'')) some_identity_io f ''/c''"

lemma some_start:
  assumes "some_load (ap_fs a) = (Inr ident, f)"
  shows "\<exists>st a' n. node_start some_library some_node_config some_io a = (Inr st, a') \<and> ap_node a' = Some n \<and> ap_fs a' = f
    \<and> ts_open (\<lambda>_. Some some_trusted) False f ''/c'' = Inr (nd_trust n) \<and> ns_port st = 53318"
proof -
  have e: "ap_fs (node_stop a) = ap_fs a" by (simp add: node_stop_def split: option.split)
  have "\<exists>ts. ts_open (\<lambda>_. Some some_trusted) False f ''/c'' = Inr ts"
    by (simp add: ts_open_def Let_def split: option.split)
  then obtain ts where ts: "ts_open (\<lambda>_. Some some_trusted) False f ''/c'' = Inr ts" by blast
  show ?thesis
    unfolding node_start_def node_launch_def
    using assms ts
    by (simp add: e some_library_def some_io_def some_node_config_def server_config_def receiver_start_def
        SERVICE_PORT_def start_def bind_def bind_store_def bind_spawn_def announce_def current_or_rebind_def
        node_publish_def Let_def split_beta)
qed

lemma some_identity:
  "\<exists>ident f. some_load fs_empty = (Inr ident, f) \<and> fs_ok f \<and> fs_read f ''/c/cert.pem'' = Some ''C''
    \<and> fs_read f ''/c/key.pem'' = Some ''K'' \<and> fs_read f ''/c/trusted.json'' = None"
proof -
  have "\<exists>ident f. some_load fs_empty = (Inr ident, f)"
    by (simp add: load_or_create_def some_identity_io_def fs_exists_def fs_empty_def fs_write_file_def Let_def
        split: prod.split)
  then obtain ident f where l: "some_load fs_empty = (Inr ident, f)" by blast
  have new: "\<not> fs_exists fs_empty (path_join ''/c'' ''cert.pem'')" by (simp add: fs_exists_def fs_empty_def)
  have "\<exists>f1 b. fs_write_file W_ok fs_empty (path_join ''/c'' ''cert.pem'') ''C'' = (b, f1)
      \<and> fs_write_file W_ok f1 (path_join ''/c'' ''key.pem'') ''K'' = (b, f)"
    using l new by (auto simp: load_or_create_def Let_def some_identity_io_def split: if_splits prod.splits)
  then obtain f1 b where w: "fs_write_file W_ok fs_empty (path_join ''/c'' ''cert.pem'') ''C'' = (b, f1)"
    "fs_write_file W_ok f1 (path_join ''/c'' ''key.pem'') ''K'' = (b, f)" by blast
  have ok: "fs_ok f1" "fs_ok f"
    using fs_write_file_fs_ok [OF fs_ok_empty w(1)] fs_write_file_fs_ok [OF _ w(2)] by blast+
  have "fs_read f (path_join ''/c'' ''trusted.json'') = fs_read fs_empty (path_join ''/c'' ''trusted.json'')"
    using fs_write_file_read_other [OF fs_ok_empty w(1)] fs_write_file_read_other [OF ok(1) w(2)]
    by (simp add: path_join_inj)
  moreover have "fs_read fs_empty p = None" for p by (simp add: fs_read_def fs_empty_def)
  ultimately show ?thesis
    using load_or_create_created [OF l new fs_ok_empty] l ok(2)
    by (simp add: some_identity_io_def path_join_def)
qed

theorem started_node_consistent_witness:
  "\<exists>st a' n. node_start some_library some_node_config some_io fresh_app = (Inr st, a') \<and> current a' = Inr n
    \<and> pi_port (nd_self_info n) = 53318"
proof -
  from some_identity some_start [of fresh_app] obtain st a' where
    s: "node_start some_library some_node_config some_io fresh_app = (Inr st, a')" "ns_port st = 53318"
    unfolding fresh_fs by metis
  from started_node_consistent [OF s(1)] s show ?thesis by auto
qed



theorem subscriber_sees_latest_witness:
  "\<exists>es s s' b' it k. run (guarded feed_step one_emission) feed_init es s \<and> k \<le> 1
    \<and> run feed_step s (replicate k F_forward) s' \<and> fe_sub s' = Some b'
    \<and> is_iteration (fe_devices s) it \<and> last (sb_sink b') = device_list it \<and> it \<noteq> []"
proof -
  define d where "d = \<lparr>dv_info = some_peer ''F'', dv_ip = 1, dv_last_seen = 0\<rparr>"
  define m where "m = fmupd ''F'' d fmempty"
  define l where "l = device_list [(''F'', d)]"
  have it: "is_iteration m [(''F'', d)]" by (auto simp: is_iteration_def m_def)
  define b where "b = \<lparr>sb_pos = 0, sb_started = True, sb_sink = [[]]\<rparr>"
  define s where "s = \<lparr>fe_devices = m, fe_emissions = (\<lambda>_. None), fe_last = l, fe_log = [l], fe_sub = Some b\<rparr>"
  have "run feed_step feed_init [F_change 1 m, F_take 1 [(''F'', d)], F_subscribe, F_first, F_store 1, F_send 1] s"
    by (simp add: run_Cons_iff feed_step_simps feed_init_def subscribe_def first_list_def it
        flip: l_def) (simp add: s_def b_def fun_eq_iff)
  then have r: "run (guarded feed_step one_emission) feed_init
      [F_change 1 m, F_take 1 [(''F'', d)], F_subscribe, F_first, F_store 1, F_send 1] s"
    by (auto simp: run_Cons_iff guarded_def settled_def feed_init_def)
  have "settled s" "fe_sub s = Some b" "sb_started b" by (simp_all add: s_def b_def settled_def)
  from subscriber_sees_latest [OF r this] obtain k s' b' it where
    f: "k \<le> length (fe_log s)" "run feed_step s (replicate k F_forward) s'" "fe_sub s' = Some b'"
    "is_iteration (fe_devices s) it" "last (sb_sink b') = device_list it" by blast
  from f(4) have "it \<noteq> []" by (auto simp: is_iteration_def s_def m_def fun_eq_iff split: if_splits)
  moreover have "k \<le> 1" using f(1) by (simp add: s_def)
  ultimately show ?thesis using r f by blast
qed

section \<open>The bridge\<close>

definition some_call :: api_call where
  "some_call = Send_files \<lparr>st_ip = ''1.2.3.4'', st_port = 53317, st_fingerprint = ''D'', st_alias = ''b''\<rparr>
     [''/x/a'', ''/x/b''] ''s''"

lemma string_ok_ascii: "length s < 2 ^ 31 \<Longrightarrow> list_all (\<lambda>c. byte c < 128) s \<Longrightarrow> string_ok s"
  by (induction s) (simp_all add: string_ok_def valid_utf8_ascii_Cons valid_utf8.simps [of "[]"])

theorem call_reaches_function_witness:
  "\<exists>msg. dart_call little_endian some_call = (10, msg)
    \<and> pde_ffi_dispatcher_primary little_endian 10 msg = Some some_call"
proof -
  have "call_ok some_call" by (simp add: some_call_def send_target_ok_def vec_ok_def string_ok_ascii)
  moreover obtain msg where m: "dart_call little_endian some_call = (10, msg)" by (simp add: some_call_def)
  ultimately have "pde_ffi_dispatcher_primary little_endian 10 msg = Some some_call"
    using call_reaches_function [OF le.byteorder_laws_axioms] by (fastforce simp: some_call_def)
  with m show ?thesis by blast
qed



theorem user_is_asked_witness:
  "ask_app little_endian (\<lambda>req. if ar_is_new_device req then Inl ''E'' else Inr True) \<lparr>ar_sender_alias = ''a'',
      ar_sender_fingerprint = ''D'', ar_is_new_device = False, ar_files = []\<rparr> = Some True"
  using user_is_asked [OF le.byteorder_laws_axioms, of "\<lambda>req. if ar_is_new_device req then Inl ''E'' else Inr True"
      "\<lparr>ar_sender_alias = ''a'', ar_sender_fingerprint = ''D'', ar_is_new_device = False, ar_files = []\<rparr>"]
  by (simp add: string_ok_ascii split: if_splits)

section \<open>The command line\<close>

theorem parse_args_reads_back_witness:
  "parse_args [''to'', ''alias''] [''a'', ''--to'', ''--alias'', ''b''] fmempty [] = (fmupd ''to'' ''--alias'' fmempty, [''a'', ''b''])"
proof -
  let ?as = "[Position ''a'', Flag ''to'' ''--alias'', Position ''b'']"
  have "parse_args [''to'', ''alias''] (concat (map type_arg ?as)) fmempty [] = (meant_flags ?as fmempty, meant_positions ?as)"
    by (rule parse_args_reads_back) auto
  then show ?thesis by simp
qed

definition long_fp :: string where "long_fp = ''0123456789abcdef''"

definition long_end :: endpoint where
  "long_end = some_end\<lparr>ep_cert := long_fp\<rparr>"

definition some_world :: cli_world where
  "some_world = \<lparr>cw_lib = some_library, cw_uri_ok = (\<lambda>_. True), cw_parse_ip = Some, cw_info = (\<lambda>_. Some (some_peer long_fp)),
     cw_session = (\<lambda>_. Some some_accept), cw_home = Some ''/c'', cw_hostname = ''h'', cw_identity = some_identity_io,
     cw_trust_fault = False, cw_is_file = (\<lambda>_. Some True), cw_size = some_files, cw_end = long_end, cw_discovery = True,
     cw_looks = [], cw_answer = Some (''Y'' @ [CHR 0x0A]), cw_now = Some ''n'', cw_mkdir = True, cw_write = W_ok,
     cw_prepare = Fresh long_end, cw_upload = (\<lambda>_. (Pooled long_end, Some ([''h'', ''i''], False), Pooled long_end))\<rparr>"

lemma some_prompt: "prompt_yn (cw_answer some_world)"
proof -
  have "byte CHR ''Y'' = 89" "char_of (121 :: nat) = CHR ''y''" by (simp_all add: char_of_eq_iff)
  then have "to_lower ''Y'' = ''y''" "graphic CHR ''Y''" by (simp_all add: to_lower_def graphic_def)
  then show ?thesis using prompt_line [of "''Y''"] by (simp add: some_world_def)
qed

lemma some_slice: "str_slice long_fp 0 16 = Some ''0123456789abcdef''"
  by code_simp

lemma some_resolve: "resolve_target some_world ''1'' self = Inr \<lparr>cd_info = some_peer long_fp, cd_ip = ''1''\<rparr>"
  by (simp add: resolve_target_def split_target_def rsplit_once_def some_world_def exchange_info_def sender_demo
      long_end_def some_library_def fingerprint_of_def some_peer_def Let_def)

lemma some_confirm:
  assumes "\<not> ts_contains ts long_fp"
  shows "\<exists>ts' g. confirm_trust some_world (some_peer long_fp) ts f = (Inr (), ts', g)"
proof -
  obtain r ts' g where a: "ts_add (lb_print (cw_lib some_world)) (cw_now some_world) (cw_mkdir some_world) (cw_write some_world)
      long_fp long_fp ts f = (r, ts', g)"
    by (metis prod_cases3)
  have w: "cw_now some_world = Some ''n''" "cw_mkdir some_world" "cw_write some_world = W_ok" by (simp_all add: some_world_def)
  from a have "r = Inr ()"
    by (rule ts_add_cases) (use assms w in \<open>auto simp: save_ok\<close>)
  with a assms show ?thesis by (simp add: confirm_trust_def some_slice some_prompt, simp add: some_peer_def)
qed

lemma some_cli_transfer:
  "\<exists>rq rest. cli_transfer some_world \<lparr>cd_info = some_peer long_fp, cd_ip = ''1''\<rparr> self [''/a''] = (Inr (), (long_end, rq) # rest)"
  by (simp add: cli_transfer_def some_world_def some_files_def sender_demo long_end_def some_library_def
      fingerprint_of_def some_peer_def some_accept_def f1 Let_def split: prod.split)

lemma some_cmd_send:
  "\<exists>ts g rq rest t0 h. cmd_send some_world [''--to'', ''1'', ''/a''] fs_empty = (Inr (), Some ts, g, (long_end, rq) # rest)
    \<and> ts_open (\<lambda>_. Some some_trusted) False h ''/c/.easy-send-rust'' = Inr t0"
proof -
  let ?dir = "''/c/.easy-send-rust''" and ?args = "[''--to'', ''1'', ''/a'']"
  have dir: "config_dir (cw_home some_world) = ?dir" by (simp add: config_dir_def some_world_def path_join_def)
  have "\<exists>i f. load_or_create (\<lambda>s. s) (\<lambda>s. s) (\<lambda>_. Some (Some ''D'')) some_identity_io fs_empty ?dir = (Inr i, f)"
    by (simp add: load_or_create_def some_identity_io_def fs_exists_def fs_empty_def fs_write_file_def Let_def
        split: prod.split)
  then obtain i f where l: "load_or_create (\<lambda>s. s) (\<lambda>s. s) (\<lambda>_. Some (Some ''D'')) some_identity_io fs_empty ?dir = (Inr i, f)"
    by blast
  have "\<exists>ts. ts_open (\<lambda>_. Some some_trusted) False f ?dir = Inr ts \<and> \<not> ts_contains ts long_fp"
    by (simp add: ts_open_def ts_contains_def some_trusted_def long_fp_def Let_def split: option.split)
  then obtain ts where o: "ts_open (\<lambda>_. Some some_trusted) False f ?dir = Inr ts" and n: "\<not> ts_contains ts long_fp"
    by blast
  let ?target = "\<lparr>cd_info = some_peer long_fp, cd_ip = ''1''\<rparr>" and ?self = "cli_self_info ''h'' None i SERVICE_PORT"
  obtain ts' g where c: "confirm_trust some_world (some_peer long_fp) ts f = (Inr (), ts', g)"
    using some_confirm [OF n] by blast
  obtain rq rest where t: "cli_transfer some_world ?target ?self [''/a''] = (Inr (), (long_end, rq) # rest)"
    using some_cli_transfer by blast
  have "parse_args [''to'', ''alias''] ?args fmempty [] = (fmupd ''to'' ''1'' fmempty, [''/a''])" by simp
  moreover have "cw_lib some_world = some_library" "cw_identity some_world = some_identity_io" "\<not> cw_trust_fault some_world"
    "cw_hostname some_world = ''h''" "check_paths (cw_is_file some_world) [''/a''] = None"
    by (simp_all add: some_world_def)
  moreover have "lb_hex some_library = (\<lambda>s. s)" "lb_sha some_library = (\<lambda>s. s)" "lb_certs some_library = (\<lambda>_. Some (Some ''D''))"
    "lb_parse some_library = (\<lambda>_. Some some_trusted)" by (simp_all add: some_library_def)
  ultimately have s: "cmd_send some_world ?args fs_empty = (Inr (), Some ts', g, (long_end, rq) # rest)"
    unfolding cmd_send_def using l o c t some_resolve by (simp add: dir Let_def)
  with o show ?thesis by blast
qed



section \<open>The prompts of the command line\<close>

lemma some_yes: "prompt_yn (Some (''Y'' @ [CHR 0x0A]))"
  using some_prompt by (simp add: some_world_def)

definition some_term :: "term_event list" where
  "some_term = [Show_prompt 0, Lock_input 0, Give_up 0, Show_prompt 1, Type_line (''Y'' @ [CHR 0x0A]), Read_line 0]"

lemma some_term_run:
  "\<exists>tm. run term_step terminal_init some_term tm \<and> tm_taken tm = [(0, ''Y'' @ [CHR 0x0A])] \<and> tm_typed tm = []
    \<and> approval_of tm 0 = Some Timed_out \<and> approval_of tm 1 = None
    \<and> (\<exists>tm'. run term_step tm [Type_line (''Y'' @ [CHR 0x0A]), Lock_input 1, Read_line 1] tm'
        \<and> approval_of tm' 1 = Some (Answer True))"
  using some_yes by (simp add: some_term_def run_Cons_iff term_step_def terminal_init_def show_prompt_def lock_input_def read_line_def
      give_up_def finished_def approval_of_def line_result_def valid_utf8_ascii_Cons valid_utf8.simps [of "[]"])

theorem prompts_take_lines_in_order_witness:
  "\<exists>tm es l. run term_step terminal_init es tm \<and> approval_of tm 1 = Some (Answer True) \<and> length (typed_lines es) = 2
    \<and> map snd (tm_taken tm) @ tm_typed tm = typed_lines es \<and> (1, l) \<in> set (tm_taken tm) \<and> prompt_yn (Some l)"
proof -
  obtain tm tm' where "run term_step terminal_init some_term tm"
    and "run term_step tm [Type_line (''Y'' @ [CHR 0x0A]), Lock_input 1, Read_line 1] tm'"
    and a: "approval_of tm' 1 = Some (Answer True)"
    using some_term_run by blast
  then have r: "run term_step terminal_init (some_term @ [Type_line (''Y'' @ [CHR 0x0A]), Lock_input 1, Read_line 1]) tm'"
    by (rule_tac run_appendI)
  from prompts_take_lines_in_order [OF r, of 1] a r show ?thesis
    by (intro exI [of _ tm'] exI [of _ "some_term @ [Type_line (''Y'' @ [CHR 0x0A]), Lock_input 1, Read_line 1]"])
      (auto simp: some_term_def)
qed

end
