(* ===== verification/Closed_Loop.thy ===== *)
theory Closed_Loop
  imports End_To_End
begin

text \<open>
  A closed system: the sender of \<open>app/rust/src/core/transfer/send.rs\<close> over the handlers of
  \<open>app/rust/src/core/transfer/recv.rs\<close>.  The other end of the sender's connections is the
  receiver itself: it reads the address of a request, runs the handler, and its response is
  what the sender gets.  TLS, HTTP and JSON lie between the two and are parameters.
\<close>

section \<open>The receiver as an endpoint\<close>

text \<open>How \<open>serde_json\<close> writes and reads the bodies.\<close>

record json_text =
  js_request :: "prepare_upload_request \<Rightarrow> string"
  js_request_of :: "string \<Rightarrow> prepare_upload_request option"
  js_answer :: "prepare_upload_response \<Rightarrow> string"
  js_answer_of :: "string \<Rightarrow> prepare_upload_response option"
  js_info :: "peer_info \<Rightarrow> string"
  js_trusted :: "(string, trusted_device) hash_map \<Rightarrow> string"

text \<open>
  A receiver as others meet it: its certificate, its address, and what its handlers meet while
  they serve: the user's answer and random values, and how a body arrives and is stored.
\<close>

record station =
  sn_json :: json_text
  sn_config :: recv_config
  sn_cert :: string
  sn_addr :: string
  sn_prepare :: prepare_env
  sn_upload :: upload_env

text \<open>The request line: the address without scheme and host.\<close>

definition request_line :: "string \<Rightarrow> string \<Rightarrow> request option" where
  "request_line addr uri = (case strip_prefix (''https://'' @ addr) uri of
     None \<Rightarrow> None
   | Some target \<Rightarrow> Some (case split_once CHR ''?'' target of
       None \<Rightarrow> \<lparr>rq_method = ''POST'', rq_path = target, rq_query = None\<rparr>
     | Some (path, query) \<Rightarrow> \<lparr>rq_method = ''POST'', rq_path = path, rq_query = Some query\<rparr>))"

definition reply_text :: "json_text \<Rightarrow> response \<Rightarrow> u16 \<times> string option" where
  "reply_text js r = (rs_status r, Some (case rs_body r of
     No_body \<Rightarrow> [] | Info_body info \<Rightarrow> js_info js info | Prepare_body answer \<Rightarrow> js_answer js answer))"

text \<open>One request, from its first line to the response; a panic of the handler breaks the connection.\<close>

definition call_of :: "station \<Rightarrow> http_request \<Rightarrow> request \<Rightarrow> call option" where
  "call_of sn rq r = (case route r of
     To_prepare \<Rightarrow> Some (Call_prepare (sn_prepare sn) (map_option (js_request (sn_json sn)) (hr_prepare rq)))
   | To_upload \<Rightarrow> Some (Call_upload (sn_upload sn) (rq_query r))
   | To_cancel \<Rightarrow> Some (Call_cancel (rq_query r))
   | _ \<Rightarrow> None)"

definition receive :: "station \<Rightarrow> http_request \<Rightarrow> receiver \<Rightarrow> (u16 \<times> string option) option \<times> receiver" where
  "receive sn rq rv = (case request_line (sn_addr sn) (hr_path rq) of
     None \<Rightarrow> (None, rv)
   | Some r \<Rightarrow> (case call_of sn rq r of
       None \<Rightarrow> (Some (reply_text (sn_json sn)
          (if route r = To_info then handle_info (sn_config sn) else status 404)), rv)
     | Some c \<Rightarrow> (case serve (js_request_of (sn_json sn)) (js_trusted (sn_json sn)) (sn_config sn) c rv of
         None \<Rightarrow> (None, rv)
       | Some (resp, rv') \<Rightarrow> (Some (reply_text (sn_json sn) resp), rv'))))"

definition receiver_end :: "station \<Rightarrow> receiver \<Rightarrow> endpoint" where
  "receiver_end sn rv = \<lparr>ep_cert = sn_cert sn, ep_signed = True, ep_reply = (\<lambda>rq. fst (receive sn rq rv)),
     ep_polled = (\<lambda>rq. length (hr_chunks rq))\<rparr>"

text \<open>An operation of the sender on a new connection, and the receiver after what it was sent.\<close>

definition talk ::
    "station \<Rightarrow> (connection \<Rightarrow> 'r \<times> sender \<times> (endpoint \<times> http_request) list) \<Rightarrow> receiver \<Rightarrow> 'r \<times> sender \<times> receiver" where
  "talk sn op rv = (let (r, sd, sent) = op (Fresh (receiver_end sn rv))
     in (r, sd, fold (\<lambda>(ep, rq) rv. snd (receive sn rq rv)) sent rv))"

definition loop_prepare ::
    "station \<Rightarrow> (string \<Rightarrow> string) \<Rightarrow> (string \<Rightarrow> bool) \<Rightarrow> sender \<Rightarrow> (string, file_meta) hash_map \<Rightarrow> receiver
      \<Rightarrow> (send_error + prepare_upload_response) \<times> sender \<times> receiver" where
  "loop_prepare sn fp uri_ok sd files =
     talk sn (\<lambda>conn. prepare_upload fp uri_ok (js_answer_of (sn_json sn)) sd conn files)"

definition loop_upload ::
    "station \<Rightarrow> (string \<Rightarrow> string) \<Rightarrow> (string \<Rightarrow> bool) \<Rightarrow> sender \<Rightarrow> string \<Rightarrow> string \<Rightarrow> string
      \<Rightarrow> (string list \<times> bool) option \<Rightarrow> u64 \<Rightarrow> receiver \<Rightarrow> (send_error + unit) \<times> sender \<times> receiver" where
  "loop_upload sn fp uri_ok sd sid fid token content size' =
     talk sn (\<lambda>conn. let (r, sd', sent, _) = upload_file fp uri_ok sd conn sid fid token content size' in (r, sd', sent))"

definition loop_cancel ::
    "station \<Rightarrow> (string \<Rightarrow> string) \<Rightarrow> (string \<Rightarrow> bool) \<Rightarrow> sender \<Rightarrow> string \<Rightarrow> receiver \<Rightarrow> unit \<times> sender \<times> receiver" where
  "loop_cancel sn fp uri_ok sd sid = talk sn (\<lambda>conn. ((), cancel fp uri_ok sd conn sid))"

section \<open>Requests of the sender at the receiver\<close>

text \<open>
  The sender expects the receiver's certificate and has its address, and the HTTP library takes
  that address with a query of letters, digits and hyphens.
\<close>

definition plain_char :: "char \<Rightarrow> bool" where
  "plain_char c \<longleftrightarrow> 48 \<le> byte c \<and> byte c \<le> 57 \<or> 65 \<le> byte c \<and> byte c \<le> 90 \<or> 97 \<le> byte c \<and> byte c \<le> 122
     \<or> c = CHR ''-''"

definition plain_text :: "string \<Rightarrow> bool" where
  "plain_text s \<longleftrightarrow> list_all plain_char s"

definition plain_query :: "string \<Rightarrow> bool" where
  "plain_query q \<longleftrightarrow> list_all (\<lambda>c. plain_char c \<or> c \<in> {CHR ''?'', CHR ''='', CHR ''&''}) q"

definition paired :: "station \<Rightarrow> (string \<Rightarrow> string) \<Rightarrow> (string \<Rightarrow> bool) \<Rightarrow> sender \<Rightarrow> bool" where
  "paired sn fp uri_ok sd \<longleftrightarrow> sd_addr sd = sn_addr sn
     \<and> fv_expected (cl_verifier (sd_client sd)) = Some (fp (sn_cert sn))
     \<and> (\<forall>path \<in> {''/prepare-upload'', ''/upload'', ''/cancel''}. \<forall>q. plain_query q \<longrightarrow>
          uri_ok (''https://'' @ sn_addr sn @ API_PREFIX @ path @ q))"

lemma plain_char_safe: "plain_char c \<Longrightarrow> byte c < 128 \<and> c \<notin> {CHR ''%'', CHR ''+'', CHR ''&''}"
  by (auto simp: plain_char_def)

lemma plain_text_safe: "plain_text s \<Longrightarrow> query_safe s"
  by (rule query_safe_ascii) (auto simp: plain_text_def list_all_iff dest: plain_char_safe)

lemma plain_query_append: "plain_query (s @ t) \<longleftrightarrow> plain_query s \<and> plain_query t"
  by (simp add: plain_query_def)

lemma plain_text_query: "plain_text s \<Longrightarrow> plain_query s"
  by (simp add: plain_query_def plain_text_def list_all_iff)

lemma plain_queries:
  "plain_query []"
  "plain_text sid \<Longrightarrow> plain_text fid \<Longrightarrow> plain_text tok \<Longrightarrow> plain_query (upload_query sid fid tok)"
  "plain_text sid \<Longrightarrow> plain_query (cancel_query sid)"
proof -
  have names: "plain_query ''?sessionId=''" "plain_query ''&fileId=''" "plain_query ''&token=''"
    by (simp_all add: plain_query_def plain_char_def)
  then show "plain_query []"
    "plain_text sid \<Longrightarrow> plain_text fid \<Longrightarrow> plain_text tok \<Longrightarrow> plain_query (upload_query sid fid tok)"
    "plain_text sid \<Longrightarrow> plain_query (cancel_query sid)"
    unfolding upload_query_def cancel_query_def plain_query_append
    by (simp_all only: names plain_text_query) (simp add: plain_query_def)
qed

lemma request_line_url:
  assumes "sd_addr sd = addr" and "CHR ''?'' \<notin> set path" and "query = [] \<or> (\<exists>q. query = CHR ''?'' # q)"
  shows "request_line addr (sender_url sd path query) =
    Some \<lparr>rq_method = ''POST'', rq_path = API_PREFIX @ path, rq_query = strip_prefix ''?'' query\<rparr>"
proof -
  have u: "sender_url sd path query = (''https://'' @ addr) @ API_PREFIX @ path @ query"
    using assms(1) by (simp add: sender_url_def)
  have p: "CHR ''?'' \<notin> set (API_PREFIX @ path)" using assms(2) by (simp add: API_PREFIX_def)
  show ?thesis
    using assms(3) split_once_append [OF p] split_once_no_sep [OF p]
    unfolding request_line_def u strip_prefix_append by auto
qed

lemma route_path:
  "route \<lparr>rq_method = ''POST'', rq_path = API_PREFIX @ ''/prepare-upload'', rq_query = q\<rparr> = To_prepare"
  "route \<lparr>rq_method = ''POST'', rq_path = API_PREFIX @ ''/upload'', rq_query = q\<rparr> = To_upload"
  "route \<lparr>rq_method = ''POST'', rq_path = API_PREFIX @ ''/cancel'', rq_query = q\<rparr> = To_cancel"
  by (simp_all add: route_def)

lemma talk_reaches:
  assumes "paired sn fp uri_ok sd" and "uri_ok (hr_path rq)"
  shows "\<exists>sd'. sender_request fp uri_ok sd (Fresh (receiver_end sn rv)) rq =
      ((case fst (receive sn rq rv) of None \<Rightarrow> Inl (No_connection []) | Some r \<Rightarrow> Inr r), sd', [(receiver_end sn rv, rq)])
    \<and> paired sn fp uri_ok sd' \<and> sd_self_info sd' = sd_self_info sd"
proof -
  have "fst (verify_server_cert fp (cl_verifier (sd_client sd)) (sn_cert sn)) = Verified"
    using assms by (simp add: verify_server_cert_def paired_def Let_def)
  then obtain v where v: "verify_server_cert fp (cl_verifier (sd_client sd)) (sn_cert sn) = (Verified, v)"
    by (metis prod.collapse)
  moreover from v have "fv_expected v = Some (fp (sn_cert sn))"
    using verify_server_cert_expected [of fp "cl_verifier (sd_client sd)" "sn_cert sn"] assms by (simp add: paired_def)
  ultimately show ?thesis
    using assms by (simp add: sender_request_def client_request_def connect_def receiver_end_def paired_def)
qed

lemma paired_uri:
  assumes "paired sn fp uri_ok sd" and "plain_query q"
  shows "uri_ok (sender_url sd ''/prepare-upload'' q)" "uri_ok (sender_url sd ''/upload'' q)" "uri_ok (sender_url sd ''/cancel'' q)"
  using assms by (simp_all add: paired_def sender_url_def)

lemma paired_addr: "paired sn fp uri_ok sd \<Longrightarrow> sd_addr sd = sn_addr sn"
  by (simp add: paired_def)

text \<open>What the sender makes of a response.\<close>

definition told_answer :: "json_text \<Rightarrow> response \<Rightarrow> send_error + prepare_upload_response" where
  "told_answer js r = (if rs_status r \<noteq> 200 then Inl (Bad_reply (status_message (rs_status r)))
     else (case js_answer_of js (the (snd (reply_text js r))) of None \<Rightarrow> Inl Bad_json | Some a \<Rightarrow> Inr a))"

definition told_done :: "response \<Rightarrow> send_error + unit" where
  "told_done r = (if rs_status r \<noteq> 200 then Inl (Bad_reply (status_message (rs_status r))) else Inr ())"

text \<open>Each operation of the sender is one run of the receiver's handler.\<close>

lemma loop_prepare_serves:
  assumes "paired sn fp uri_ok sd"
    and "handle_prepare (js_request_of (sn_json sn)) (js_trusted (sn_json sn)) (sn_prepare sn)
      (Some (js_request (sn_json sn) \<lparr>pr_info = sd_self_info sd, pr_files = files\<rparr>)) (rv_state rv, rv_trust rv, rv_fs rv)
      = (resp, req, st, ts, f)"
  shows "\<exists>sd'. loop_prepare sn fp uri_ok sd files rv =
      (told_answer (sn_json sn) resp, sd', rv\<lparr>rv_state := st, rv_trust := ts, rv_fs := f\<rparr>)
    \<and> paired sn fp uri_ok sd' \<and> sd_self_info sd' = sd_self_info sd"
proof -
  let ?rq = "(plain_request (sender_url sd ''/prepare-upload'' ''''))
     \<lparr>hr_prepare := Some \<lparr>pr_info = sd_self_info sd, pr_files = files\<rparr>\<rparr>"
  have path: "hr_path ?rq = sender_url sd ''/prepare-upload'' ''''" by (simp add: plain_request_def)
  have "request_line (sn_addr sn) (hr_path ?rq) =
      Some \<lparr>rq_method = ''POST'', rq_path = API_PREFIX @ ''/prepare-upload'', rq_query = strip_prefix ''?'' ''''\<rparr>"
    unfolding path by (rule request_line_url [OF paired_addr [OF assms(1)]]) simp_all
  with assms(2) have r: "receive sn ?rq rv =
      (Some (reply_text (sn_json sn) resp), rv\<lparr>rv_state := st, rv_trust := ts, rv_fs := f\<rparr>)"
    by (simp add: receive_def call_of_def route_path)
  have "uri_ok (hr_path ?rq)" unfolding path by (rule paired_uri(1) [OF assms(1) plain_queries(1)])
  from talk_reaches [OF assms(1) this, of rv] r show ?thesis
    by (fastforce simp: loop_prepare_def talk_def prepare_upload_def told_answer_def reply_text_def)
qed

lemma loop_upload_serves:
  assumes "paired sn fp uri_ok sd" and "plain_text sid" and "plain_text fid" and "plain_text tok"
    and "handle_upload (sn_config sn) (sn_upload sn) (strip_prefix ''?'' (upload_query sid fid tok))
      (rv_state rv, rv_fs rv, rv_saved rv) = Some (resp, st, f, sv)"
  shows "\<exists>sd'. loop_upload sn fp uri_ok sd sid fid tok (Some content) n rv =
      (told_done resp, sd', rv\<lparr>rv_state := st, rv_fs := f, rv_saved := sv\<rparr>)
    \<and> paired sn fp uri_ok sd' \<and> sd_self_info sd' = sd_self_info sd"
proof -
  let ?rq = "(plain_request (sender_url sd ''/upload'' (upload_query sid fid tok)))
      \<lparr>hr_length := Some n, hr_chunks := fst content, hr_broken := snd content\<rparr>"
  have path: "hr_path ?rq = sender_url sd ''/upload'' (upload_query sid fid tok)" by (simp add: plain_request_def)
  have "request_line (sn_addr sn) (hr_path ?rq) = Some \<lparr>rq_method = ''POST'', rq_path = API_PREFIX @ ''/upload'',
      rq_query = strip_prefix ''?'' (upload_query sid fid tok)\<rparr>"
    unfolding path by (rule request_line_url [OF paired_addr [OF assms(1)]]) (simp_all add: upload_query_def)
  with assms(5) have r: "receive sn ?rq rv =
      (Some (reply_text (sn_json sn) resp), rv\<lparr>rv_state := st, rv_fs := f, rv_saved := sv\<rparr>)"
    by (simp add: receive_def call_of_def route_path)
  have "uri_ok (hr_path ?rq)" unfolding path by (rule paired_uri(2) [OF assms(1) plain_queries(2) [OF assms(2-4)]])
  from talk_reaches [OF assms(1) this, of rv] r show ?thesis
    by (cases content) (fastforce simp: loop_upload_def talk_def upload_file_def told_done_def reply_text_def)
qed

lemma loop_cancel_serves:
  assumes "paired sn fp uri_ok sd" and "plain_text sid"
    and "handle_cancel (strip_prefix ''?'' (cancel_query sid)) (rv_state rv) = Some (resp, st)"
  shows "\<exists>sd'. loop_cancel sn fp uri_ok sd sid rv = ((), sd', rv\<lparr>rv_state := st\<rparr>)
    \<and> paired sn fp uri_ok sd' \<and> sd_self_info sd' = sd_self_info sd"
proof -
  let ?rq = "plain_request (sender_url sd ''/cancel'' (cancel_query sid))"
  have path: "hr_path ?rq = sender_url sd ''/cancel'' (cancel_query sid)" by (simp add: plain_request_def)
  have "request_line (sn_addr sn) (hr_path ?rq) = Some \<lparr>rq_method = ''POST'', rq_path = API_PREFIX @ ''/cancel'',
      rq_query = strip_prefix ''?'' (cancel_query sid)\<rparr>"
    unfolding path by (rule request_line_url [OF paired_addr [OF assms(1)]]) (simp_all add: cancel_query_def)
  with assms(3) have r: "receive sn ?rq rv = (Some (reply_text (sn_json sn) resp), rv\<lparr>rv_state := st\<rparr>)"
    by (simp add: receive_def call_of_def route_path)
  have "uri_ok (hr_path ?rq)" unfolding path by (rule paired_uri(3) [OF assms(1) plain_queries(3) [OF assms(2)]])
  from talk_reaches [OF assms(1) this, of rv] r show ?thesis
    by (fastforce simp: loop_cancel_def talk_def cancel_def)
qed

text \<open>The chunks the sender reads come in some frames, and the disk takes them.\<close>

definition arrives :: "string list \<Rightarrow> upload_env \<Rightarrow> bool" where
  "arrives chunks env \<longleftrightarrow> ue_create env \<and> ue_flush env \<and> (\<forall>x \<in> set (ue_frames env). frame_ok x)
     \<and> body_bytes (ue_frames env) = concat chunks"

lemma loop_upload_saves:
  assumes "paired sn fp uri_ok sd" and "plain_text sid" and "plain_text fid" and "plain_text tok"
    and "check_upload (rv_state rv) sid fid tok = Upload_accepted meta al" and "arrives chunks (sn_upload sn)"
    and "of_nat (length (concat chunks)) = fm_size meta" and "fs_ok (rv_fs rv)"
    and "target = resolve_collision (rv_fs rv) (rc_save_dir (sn_config sn)) (save_name meta)"
  shows "\<exists>sd' g. loop_upload sn fp uri_ok sd sid fid tok (Some (chunks, False)) n rv = (Inr (), sd',
      rv\<lparr>rv_state := upload_commit fid (rv_state rv), rv_fs := g, rv_saved := rv_saved rv @ [\<lparr>sf_path = target, sf_from = al\<rparr>]\<rparr>)
    \<and> paired sn fp uri_ok sd' \<and> sd_self_info sd' = sd_self_info sd
    \<and> fs_ok g \<and> fs_read g target = Some (concat chunks) \<and> (\<forall>q. q \<noteq> target \<longrightarrow> fs_read g q = fs_read (rv_fs rv) q)"
proof -
  note safe = plain_text_safe [OF assms(2)] plain_text_safe [OF assms(3)] plain_text_safe [OF assms(4)]
  obtain g where g: "save_body (ue_create (sn_upload sn)) (ue_frames (sn_upload sn)) (ue_flush (sn_upload sn))
      (ue_remove (sn_upload sn)) (rc_save_dir (sn_config sn)) meta (rv_fs rv) = (Inr target, g)"
    using save_body_complete [OF _ _ assms(8)] assms(6,7,9) by (fastforce simp: arrives_def)
  then have "handle_upload (sn_config sn) (sn_upload sn) (strip_prefix ''?'' (upload_query sid fid tok))
      (rv_state rv, rv_fs rv, rv_saved rv) = Some (status 200, upload_commit fid (rv_state rv), g,
        rv_saved rv @ [\<lparr>sf_path = target, sf_from = al\<rparr>])"
    using upload_params_query [OF safe] assms(5) by (simp add: handle_upload_def)
  from loop_upload_serves [OF assms(1-4) this, of "(chunks, False)" n] save_body_saved [OF g assms(8)] assms(6)
  show ?thesis by (auto simp: told_done_def status_def arrives_def)
qed

lemma loop_upload_refused:
  assumes "paired sn fp uri_ok sd" and "plain_text sid" and "plain_text fid" and "plain_text tok"
    and "check_upload (rv_state rv) sid fid tok = Upload_refused"
  shows "\<exists>sd'. loop_upload sn fp uri_ok sd sid fid tok (Some content) n rv = (Inl (Bad_reply (status_message 404)), sd', rv)
    \<and> paired sn fp uri_ok sd' \<and> sd_self_info sd' = sd_self_info sd"
proof -
  note safe = plain_text_safe [OF assms(2)] plain_text_safe [OF assms(3)] plain_text_safe [OF assms(4)]
  have "handle_upload (sn_config sn) (sn_upload sn) (strip_prefix ''?'' (upload_query sid fid tok))
      (rv_state rv, rv_fs rv, rv_saved rv) = Some (status 404, rv_state rv, rv_fs rv, rv_saved rv)"
    using upload_params_query [OF safe] assms(5) by (simp add: handle_upload_def)
  from loop_upload_serves [OF assms(1-4) this, of content n] show ?thesis by (simp add: told_done_def status_def)
qed

section \<open>What the sender is told\<close>

text \<open>The answer of a receiver that opens a session.\<close>

definition answer_to :: "station \<Rightarrow> (string, file_meta) hash_map \<Rightarrow> prepare_upload_response" where
  "answer_to sn files = \<lparr>ps_session_id = pe_sid (sn_prepare sn),
     ps_tokens = fmmap_keys (\<lambda>fid _. pe_tok (sn_prepare sn) fid) files\<rparr>"

text \<open>
  C10: The sender is told what the receiver decided. A busy receiver, a user who says no and one who
  does not answer in time each give their own error and leave the receiver as it was; a yes
  gives the sender the session that the receiver has opened, with a token for each file.
\<close>

theorem sender_told_decision:
  assumes "paired sn fp uri_ok sd" and "fmdom' files \<noteq> {}"
    and "js_request_of (sn_json sn) (js_request (sn_json sn) \<lparr>pr_info = sd_self_info sd, pr_files = files\<rparr>)
      = Some \<lparr>pr_info = sd_self_info sd, pr_files = files\<rparr>"
    and "js_answer_of (sn_json sn) (js_answer (sn_json sn) (answer_to sn files)) = Some (answer_to sn files)"
    and "loop_prepare sn fp uri_ok sd files rv = (r, sd', rv')"
  shows "(if rv_state rv \<noteq> Idle then r = Inl (Bad_reply msg_busy) \<and> rv' = rv
    else case pe_approval (sn_prepare sn) of
      Timed_out \<Rightarrow> r = Inl (Bad_reply msg_timeout) \<and> rv' = rv
    | Answer False \<Rightarrow> r = Inl (Bad_reply msg_rejected) \<and> rv' = rv
    | Answer True \<Rightarrow> r = Inr (answer_to sn files) \<and> (\<exists>s. rv_state rv' = Sending s \<and> s_id s = ps_session_id (answer_to sn files)
        \<and> s_tokens s = ps_tokens (answer_to sn files) \<and> s_files s = files \<and> s_received s = {||}))"
proof -
  let ?p = "\<lparr>pr_info = sd_self_info sd, pr_files = files\<rparr>"
  obtain resp req st ts f where h: "handle_prepare (js_request_of (sn_json sn)) (js_trusted (sn_json sn)) (sn_prepare sn)
      (Some (js_request (sn_json sn) ?p)) (rv_state rv, rv_trust rv, rv_fs rv) = (resp, req, st, ts, f)"
    by (metis prod_cases5)
  with loop_prepare_serves [OF assms(1) h] assms(5) have
    r: "r = told_answer (sn_json sn) resp" and rv': "rv' = rv\<lparr>rv_state := st, rv_trust := ts, rv_fs := f\<rparr>"
    by auto
  have parse: "prepare_parse (js_request_of (sn_json sn)) (Some (js_request (sn_json sn) ?p)) = Inr ?p"
    using assms(2,3) by (simp add: prepare_parse_def)
  show ?thesis
  proof (cases "rv_state rv = Idle")
    case False
    with h parse have "resp = status 409" "st = rv_state rv" "ts = rv_trust rv" "f = rv_fs rv"
      by (auto simp: handle_prepare_def prepare_claim_def split: rstate.splits)
    with False r rv' show ?thesis by (simp add: told_answer_def status_def status_message_def)
  next
    case True
    with h parse r rv' assms(4) show ?thesis
      by (cases "pe_approval (sn_prepare sn)")
        (auto simp: handle_prepare_def prepare_claim_def approval_refusal_def told_answer_def status_def status_message_def
          prepare_response_def json_def new_session_def answer_to_def reply_text_def Let_def split: bool.splits prod.splits)
  qed
qed

section \<open>A whole transfer of the app\<close>

text \<open>
  The receiver before each upload of a job, and after the last one: \<open>bodies\<close> are the chunks each
  file is read in and what the receiver meets when it stores them.
\<close>

fun loop_uploads ::
    "station \<Rightarrow> (string \<Rightarrow> string) \<Rightarrow> (string \<Rightarrow> bool) \<Rightarrow> sender \<Rightarrow> prepare_upload_response
      \<Rightarrow> (string \<times> string \<times> file_meta) list \<Rightarrow> (string list \<times> upload_env) list \<Rightarrow> receiver \<Rightarrow> endpoint list \<times> receiver" where
  "loop_uploads sn fp uri_ok sd session ((fid, path, meta) # items) ((chunks, env) # bodies) rv =
     (case hm_get (ps_tokens session) fid of
        None \<Rightarrow> ([], rv)
      | Some token \<Rightarrow>
          (let sn' = sn\<lparr>sn_upload := env\<rparr>;
               (_, sd', rv') = loop_upload sn' fp uri_ok sd (ps_session_id session) fid token (Some (chunks, False)) (fm_size meta) rv;
               (eps, rv'') = loop_uploads sn fp uri_ok sd' session items bodies rv'
           in (receiver_end sn' rv # eps, rv'')))"
| "loop_uploads sn fp uri_ok sd session items bodies rv = ([], rv)"

text \<open>What a job meets: every request goes over a connection of its own to the receiver as it is then.\<close>

definition job_at :: "station \<Rightarrow> receiver \<Rightarrow> endpoint list \<Rightarrow> (string list \<times> upload_env) list \<Rightarrow> job_env" where
  "job_at sn rv eps bodies = \<lparr>je_prepare = Some (Fresh (receiver_end sn rv)),
     je_upload = (\<lambda>i. Upload_runs (Fresh (eps ! i)) (Some (fst (bodies ! i), False)) (Fresh (eps ! i))),
     je_cancel = Fresh (receiver_end sn rv)\<rparr>"

definition closed_transfer ::
    "station \<Rightarrow> (string \<Rightarrow> string) \<Rightarrow> (string \<Rightarrow> bool) \<Rightarrow> (send_error \<Rightarrow> string) \<Rightarrow> string \<Rightarrow> (string \<Rightarrow> u64 option) \<Rightarrow> peer_info
      \<Rightarrow> send_target \<Rightarrow> string list \<Rightarrow> (string list \<times> upload_env) list \<Rightarrow> receiver \<Rightarrow> send_event list \<times> receiver" where
  "closed_transfer sn fp uri_ok chain panic_text metadata self_info target paths bodies rv =
     (let sd = sender_new (target_addr target) (st_fingerprint target) self_info;
          (eps, rv') = (case collect_items metadata 0 paths of
             Inl _ \<Rightarrow> ([], rv)
           | Inr items \<Rightarrow> (case loop_prepare sn fp uri_ok sd (metas_of items) rv of
                (Inl _, _, rv1) \<Rightarrow> ([], rv1)
              | (Inr session, sd1, rv1) \<Rightarrow> loop_uploads sn fp uri_ok sd1 session items bodies rv1))
      in (fst (send_files fp uri_ok (js_answer_of (sn_json sn)) chain panic_text metadata False (Some self_info)
             (job_at sn rv eps bodies) target paths), rv'))"

text \<open>The uploads of a job succeed if the receiver, serving them one after the other, answers them all with 200.\<close>

lemma loop_uploads_done:
  assumes "upload_all (sn_config sn) (upload_requests session items (map snd bodies)) (rv_state rv, rv_fs rv, rv_saved rv)
      = Some (replicate (length items) (status 200), st, f, sv)"
    and "paired sn fp uri_ok sd" and "plain_text (ps_session_id session)"
    and "\<And>fid path meta. (fid, path, meta) \<in> set items \<Longrightarrow>
      plain_text fid \<and> (\<exists>token. hm_get (ps_tokens session) fid = Some token \<and> plain_text token)"
    and "length bodies = length items"
  shows "\<exists>eps. loop_uploads sn fp uri_ok sd session items bodies rv = (eps, rv\<lparr>rv_state := st, rv_fs := f, rv_saved := sv\<rparr>)
    \<and> length eps = length items
    \<and> (\<forall>aw i completed emitted. (\<forall>k < length items. aw (i + k) =
          Upload_runs (Fresh (eps ! k)) (Some (fst (bodies ! k), False)) (Fresh (eps ! k))) \<longrightarrow>
        fst (job_uploads fp uri_ok session n total_size aw i completed emitted sd items) = Job_done)"
  using assms
proof (induction items arbitrary: bodies rv sd)
  case Nil
  then show ?case by (simp add: upload_requests_def)
next
  case (Cons item items)
  obtain fid path meta where item: "item = (fid, path, meta)" by (cases item)
  obtain chunks env bs where bodies: "bodies = (chunks, env) # bs" using Cons.prems(5) by (cases bodies) auto
  obtain token where tok: "hm_get (ps_tokens session) fid = Some token" "plain_text fid" "plain_text token"
    using Cons.prems(4) [of fid path meta] item by auto
  let ?sid = "ps_session_id session" and ?sn = "sn\<lparr>sn_upload := env\<rparr>"
  let ?q = "strip_prefix ''?'' (upload_query ?sid fid token)"
  obtain rs st1 f1 sv1 where h: "handle_upload (sn_config sn) env ?q (rv_state rv, rv_fs rv, rv_saved rv) =
      Some (status 200, st1, f1, sv1)"
    and rest: "upload_all (sn_config sn) (upload_requests session items (map snd bs)) (st1, f1, sv1) =
      Some (replicate (length items) (status 200), st, f, sv)"
    using Cons.prems(1) item bodies tok(1) by (auto simp: upload_requests_def split: option.splits)
  let ?rv = "rv\<lparr>rv_state := st1, rv_fs := f1, rv_saved := sv1\<rparr>"
  have "paired ?sn fp uri_ok sd" using Cons.prems(2) by (simp add: paired_def)
  from loop_upload_serves [OF this Cons.prems(3) tok(2,3), of rv "status 200" st1 f1 sv1 "(chunks, False)" "fm_size meta"] h
  obtain sd1 where l: "loop_upload ?sn fp uri_ok sd ?sid fid token (Some (chunks, False)) (fm_size meta) rv = (Inr (), sd1, ?rv)"
    and p: "paired sn fp uri_ok sd1"
    by (auto simp: told_done_def status_def paired_def)
  from Cons.IH [of bs ?rv sd1] rest p Cons.prems(3-5) bodies obtain eps where
    e: "loop_uploads sn fp uri_ok sd1 session items bs ?rv = (eps, ?rv\<lparr>rv_state := st, rv_fs := f, rv_saved := sv\<rparr>)"
      "length eps = length items"
    and j: "\<And>aw i completed emitted. (\<forall>k < length items. aw (i + k) =
          Upload_runs (Fresh (eps ! k)) (Some (fst (bs ! k), False)) (Fresh (eps ! k))) \<Longrightarrow>
        fst (job_uploads fp uri_ok session n total_size aw i completed emitted sd1 items) = Job_done"
    by fastforce
  obtain sent ps where u: "upload_file fp uri_ok sd (Fresh (receiver_end ?sn rv)) ?sid fid token (Some (chunks, False)) (fm_size meta)
      = (Inr (), sd1, sent, ps)"
    using l by (auto simp: loop_upload_def talk_def split: prod.splits)
  show ?case
  proof (intro exI [of _ "receiver_end ?sn rv # eps"] conjI allI impI)
    show "loop_uploads sn fp uri_ok sd session (item # items) bodies rv =
        (receiver_end ?sn rv # eps, rv\<lparr>rv_state := st, rv_fs := f, rv_saved := sv\<rparr>)"
      using item bodies tok l e by simp
    show "length (receiver_end ?sn rv # eps) = length (item # items)" using e by simp
    fix aw i completed emitted
    assume aw: "\<forall>k < length (item # items). aw (i + k) = Upload_runs (Fresh ((receiver_end ?sn rv # eps) ! k))
      (Some (fst (bodies ! k), False)) (Fresh ((receiver_end ?sn rv # eps) ! k))"
    from aw have "aw i = Upload_runs (Fresh (receiver_end ?sn rv)) (Some (chunks, False)) (Fresh (receiver_end ?sn rv))"
      using bodies by (auto dest: spec [of _ 0])
    moreover have "aw (i + 1 + k) = Upload_runs (Fresh (eps ! k)) (Some (fst (bs ! k), False)) (Fresh (eps ! k))"
      if "k < length items" for k
      using aw [rule_format, of "Suc k"] that bodies by simp
    note rest_done = j [of aw "i + 1", OF allI [OF impI [OF this]]]
    obtain rp em where "report_progress completed (fm_size meta) emitted ps = (rp, em)" by fastforce
    moreover obtain re ev se where "job_uploads fp uri_ok session n total_size aw (i + 1) (completed + fm_size meta) em sd1 items
        = (re, ev, se)" by (metis prod_cases3)
    moreover from this have "re = Job_done" using rest_done [of "completed + fm_size meta" em] by simp
    ultimately show "fst (job_uploads fp uri_ok session n total_size aw i completed emitted sd (item # items)) = Job_done"
      using item tok(1) u by (simp add: Let_def)
  qed
qed

lemma plain_hex:
  assumes "set s \<subseteq> set ''0123456789abcdef''"
  shows "plain_text s"
  unfolding plain_text_def list_all_iff
proof
  fix c assume "c \<in> set s"
  with assms have "c \<in> set ''0123456789abcdef''" by blast
  then show "plain_char c" by (auto simp: plain_char_def)
qed

lemma plain_file_id: "plain_text (''f'' @ dec_string n)"
proof -
  have "plain_char c" if "c \<in> set (dec_string n)" for c
    using dec_string_is_digit [of n] that by (auto simp: list_all_iff is_digit_def plain_char_def)
  then show ?thesis by (simp add: plain_text_def list_all_iff plain_char_def)
qed

lemma answer_of_prepare:
  assumes "handle_prepare fsl tv env (Some body) (Idle, ts0, f) = (resp, req, st, ts, f1)" and "fsl body = Some p"
    and "rs_status resp = 200" and "rs_body resp = Prepare_body session"
  shows "session = \<lparr>ps_session_id = pe_sid env, ps_tokens = fmmap_keys (\<lambda>fid _. pe_tok env fid) (pr_files p)\<rparr>"
  using assms
  by (auto simp: handle_prepare_def prepare_parse_def prepare_claim_def approval_refusal_def Let_def status_def respond_def
      prepare_response_def new_session_def json_def split: if_splits approval.splits bool.splits prod.splits)

definition fit_body :: "string \<times> string \<times> file_meta \<Rightarrow> string list \<times> upload_env \<Rightarrow> bool" where
  "fit_body item b \<longleftrightarrow> arrives (fst b) (snd b) \<and> of_nat (length (concat (fst b))) = fm_size (snd (snd item))"

lemma fit_bodies:
  "list_all2 fit_body items bodies \<Longrightarrow> list_all2 (\<lambda>(fid, path, meta) e. fit_upload e meta) items (map snd bodies)"
  by (induction rule: list_all2_induct) (auto simp: fit_body_def fit_upload_def arrives_def)

lemma delivered_bodies:
  "list_all2 fit_body items bodies \<Longrightarrow> list_all2 (delivered g al) (map snd bodies) saved \<Longrightarrow>
    list_all2 (\<lambda>b sf. fs_read g (sf_path sf) = Some (concat (fst b)) \<and> sf_from sf = al) bodies saved"
  by (induction arbitrary: saved rule: list_all2_induct)
    (auto simp: fit_body_def arrives_def delivered_def list_all2_Cons1)

lemma item_tokens:
  assumes "collect_items metadata 0 paths = Inr items" and "\<And>fid. plain_text (pe_tok (sn_prepare sn) fid)"
    and "(fid, path, meta) \<in> set items"
  shows "plain_text fid \<and> (\<exists>token. hm_get (ps_tokens (answer_to sn (metas_of items))) fid = Some token \<and> plain_text token)"
proof -
  from assms(3) have "fid \<in> set (map fst items)" by force
  then have "plain_text fid" unfolding collect_items_ids [OF assms(1)] using plain_file_id by auto
  moreover have "hm_get (metas_of items) fid = Some meta"
    using assms(3) metas_of_lookup [OF collect_items_distinct [OF assms(1)]] by blast
  ultimately show ?thesis using assms(2) by (simp add: answer_to_def)
qed

end
