(* ===== verification/Protocol_Flow.thy ===== *)
theory Protocol_Flow
  imports Closed_Loop
begin

text \<open>
  The integration tests of \<open>app/rust/tests/protocol_flow.rs\<close> as theorems of the closed loop of
  sender and receiver: each test holds of the model, for every JSON library that reads back
  what it wrote, for every certificate hash, and for files of any content.
\<close>

section \<open>Set-up\<close>

definition json_ok :: "json_text \<Rightarrow> bool" where
  "json_ok js \<longleftrightarrow> (\<forall>p. js_request_of js (js_request js p) = Some p) \<and> (\<forall>a. js_answer_of js (js_answer js a) = Some a)"

definition rx_addr :: string where
  "rx_addr = ''127.0.0.1:53317''"

text \<open>\<open>start_receiver\<close>: \<open>ap\<close> is what the approval callback comes to.\<close>

definition start_receiver :: "(string \<Rightarrow> string) \<Rightarrow> json_text \<Rightarrow> approval \<Rightarrow> station" where
  "start_receiver fp js ap = \<lparr>sn_json = js,
     sn_config = \<lparr>rc_self_info = \<lparr>pi_alias = ''rx'', pi_device_type = ''desktop'', pi_fingerprint = fp ''rx'', pi_port = 0\<rparr>,
        rc_save_dir = ''/save'', rc_approval_timeout = APPROVAL_TIMEOUT, rc_port = 53317\<rparr>,
     sn_cert = ''rx'', sn_addr = rx_addr,
     sn_prepare = \<lparr>pe_approval = ap, pe_now = Some ''now'', pe_mkdir = True, pe_write = W_ok,
        pe_sid = ''5e55'', pe_tok = (\<lambda>fid. ''70'' @ fid)\<rparr>,
     sn_upload = \<lparr>ue_create = True, ue_frames = [], ue_flush = True, ue_remove = True\<rparr>\<rparr>"

definition rx_state :: "fs \<Rightarrow> receiver" where
  "rx_state f = \<lparr>rv_state = Idle, rv_trust = \<lparr>ts_path = ''/config/trusted.json'', ts_devices = fmempty\<rparr>, rv_fs = f, rv_saved = []\<rparr>"

definition tx_info :: "string \<Rightarrow> peer_info" where
  "tx_info fingerprint = \<lparr>pi_alias = ''tx'', pi_device_type = ''desktop'', pi_fingerprint = fingerprint, pi_port = 53318\<rparr>"

definition sender_for :: "(string \<Rightarrow> string) \<Rightarrow> sender" where
  "sender_for fp = sender_new rx_addr (fp ''rx'') (tx_info (fp ''tx''))"

definition meta_of :: "string \<Rightarrow> string \<Rightarrow> file_meta" where
  "meta_of name content = \<lparr>fm_name = name, fm_size = of_nat (length content), fm_mime = ''application/octet-stream''\<rparr>"

abbreviation prepares :: "(string \<Rightarrow> string) \<Rightarrow> station \<Rightarrow> sender \<Rightarrow> (string, file_meta) hash_map \<Rightarrow> receiver
    \<Rightarrow> (send_error + prepare_upload_response) \<times> sender \<times> receiver" where
  "prepares fp sn \<equiv> loop_prepare sn fp (\<lambda>_. True)"

abbreviation uploads :: "(string \<Rightarrow> string) \<Rightarrow> station \<Rightarrow> sender \<Rightarrow> string \<Rightarrow> string \<Rightarrow> string \<Rightarrow> string \<Rightarrow> receiver
    \<Rightarrow> (send_error + unit) \<times> sender \<times> receiver" where
  "uploads fp sn sd sid fid token content \<equiv>
     loop_upload sn fp (\<lambda>_. True) sd sid fid token (Some ([content], False)) (of_nat (length content))"

lemma test_paired: "paired (start_receiver fp js ap) fp (\<lambda>_. True) (sender_for fp)"
  by (simp add: paired_def start_receiver_def sender_for_def sender_new_def client_for_def verifier_for_def)

lemma paired_body: "paired (sn\<lparr>sn_upload := env\<rparr>) fp uri_ok sd = paired sn fp uri_ok sd"
  by (simp add: paired_def)

lemma test_texts: "plain_text ''5e55''" "plain_text ''f1''" "plain_text ''f2''" "plain_text ''70f1''" "plain_text ''70f2''"
    "plain_text ''wrong-token''"
  by (simp_all add: plain_text_def plain_char_def)

text \<open>The parts of the messages the tests look for.\<close>

lemma contains_utf8: "contains_str (utf8 (as @ bs @ cs)) (utf8 bs)"
  unfolding contains_str_iff utf8_append by blast

lemma message_parts:
  "contains_str msg_rejected (utf8 [0xAC70, 0xC808])" "contains_str msg_timeout (utf8 [0xCD08, 0xACFC])"
  "contains_str msg_busy (utf8 [98, 117, 115, 121])"
proof -
  show "contains_str msg_rejected (utf8 [0xAC70, 0xC808])"
    using contains_utf8 [of "[0xC218, 0xC2E0, 0xC790, 0xAC00, 32]" "[0xAC70, 0xC808]" "[0xD588, 0xC2B5, 0xB2C8, 0xB2E4]"]
    by (simp add: msg_rejected_def)
  show "contains_str msg_timeout (utf8 [0xCD08, 0xACFC])"
    using contains_utf8 [of "[0xC2B9, 0xC778, 32, 0xB300, 0xAE30, 32, 0xC2DC, 0xAC04, 40, 54, 48, 0xCD08, 41, 0xC744, 32]"
        "[0xCD08, 0xACFC]" "[0xD588, 0xC2B5, 0xB2C8, 0xB2E4]"]
    by (simp add: msg_timeout_def)
  show "contains_str msg_busy (utf8 [98, 117, 115, 121])"
    using contains_utf8 [of "[0xC218, 0xC2E0, 0xC790, 0xAC00, 32, 0xB2E4, 0xB978, 32, 0xC804, 0xC1A1, 0xC744, 32, 0xC9C4, 0xD589,
        32, 0xC911, 0xC785, 0xB2C8, 0xB2E4, 32, 40]" "[98, 117, 115, 121]" "[41]"]
    by (simp add: msg_busy_def)
qed

section \<open>What the tests have in common\<close>

lemma rx_state_simps [simp]:
  "rv_state (rx_state f) = Idle" "rv_fs (rx_state f) = f" "rv_saved (rx_state f) = []"
  "ts_path (rv_trust (rx_state f)) = ''/config/trusted.json''" "ts_devices (rv_trust (rx_state f)) = fmempty"
  by (simp_all add: rx_state_def)

lemma start_receiver_simps [simp]:
  "sn_json (start_receiver fp js ap) = js" "pe_approval (sn_prepare (start_receiver fp js ap)) = ap"
  "rc_save_dir (sn_config (start_receiver fp js ap)) = ''/save''"
  by (simp_all add: start_receiver_def)

lemma sender_for_info: "sd_self_info (sender_for fp) = tx_info (fp ''tx'')"
  by (simp add: sender_for_def sender_new_def)

lemma test_serves:
  assumes "handle_prepare (js_request_of js) (js_trusted js) (sn_prepare (start_receiver fp js ap))
      (Some (js_request js \<lparr>pr_info = tx_info (fp ''tx''), pr_files = files\<rparr>)) (Idle, rv_trust (rx_state f), f)
    = (resp, req, st, ts, g)"
  shows "\<exists>sd. prepares fp (start_receiver fp js ap) (sender_for fp) files (rx_state f) =
      (told_answer js resp, sd, (rx_state f)\<lparr>rv_state := st, rv_trust := ts, rv_fs := g\<rparr>)
    \<and> paired (start_receiver fp js ap) fp (\<lambda>_. True) sd"
  using loop_prepare_serves [OF test_paired [of fp js ap], of files "rx_state f" resp req st ts g,
      unfolded sender_for_info start_receiver_simps rx_state_simps, OF assms] by blast

text \<open>An approval callback that does not say yes.\<close>

lemma test_refused:
  assumes "json_ok js" and "approval_refusal ap = Some resp" and "rs_status resp \<noteq> 200" and "fmdom' files \<noteq> {}"
  shows "\<exists>sd. prepares fp (start_receiver fp js ap) (sender_for fp) files (rx_state f)
    = (Inl (Bad_reply (status_message (rs_status resp))), sd, rx_state f)"
proof -
  let ?p = "\<lparr>pr_info = tx_info (fp ''tx''), pr_files = files\<rparr>" and ?ts = "rv_trust (rx_state f)"
  have "handle_prepare (js_request_of js) (js_trusted js) (sn_prepare (start_receiver fp js ap)) (Some (js_request js ?p)) (Idle, ?ts, f)
      = (resp, Some (prepare_request ?ts ?p), Idle, ?ts, f)"
    using assms by (simp add: handle_prepare_def prepare_parse_def prepare_claim_def json_ok_def)
  from test_serves [OF this] obtain sd where "prepares fp (start_receiver fp js ap) (sender_for fp) files (rx_state f) =
      (told_answer js resp, sd, (rx_state f)\<lparr>rv_state := Idle, rv_trust := ?ts, rv_fs := f\<rparr>)" by blast
  moreover have "(rx_state f)\<lparr>rv_state := Idle, rv_trust := ?ts, rv_fs := f\<rparr> = rx_state f" by (simp add: rx_state_def)
  moreover have "told_answer js resp = Inl (Bad_reply (status_message (rs_status resp)))"
    using assms(3) by (simp add: told_answer_def)
  ultimately show ?thesis by metis
qed

text \<open>The session of a receiver whose user says yes.\<close>

definition test_session :: "(string \<Rightarrow> string) \<Rightarrow> (string, file_meta) hash_map \<Rightarrow> session" where
  "test_session fp files = new_session ''5e55'' (\<lambda>fid. ''70'' @ fid) \<lparr>pr_info = tx_info (fp ''tx''), pr_files = files\<rparr>"

definition test_answer :: "(string, file_meta) hash_map \<Rightarrow> prepare_upload_response" where
  "test_answer files = \<lparr>ps_session_id = ''5e55'', ps_tokens = fmmap_keys (\<lambda>fid _. ''70'' @ fid) files\<rparr>"

lemma test_granted:
  assumes "json_ok js" and "fmdom' files \<noteq> {}" and "fs_ok f"
  shows "\<exists>sd ts g. prepares fp (start_receiver fp js (Answer True)) (sender_for fp) files (rx_state f) =
      (Inr (test_answer files), sd, (rx_state f)\<lparr>rv_state := Sending (test_session fp files), rv_trust := ts, rv_fs := g\<rparr>)
    \<and> paired (start_receiver fp js (Answer True)) fp (\<lambda>_. True) sd
    \<and> hm_get (ts_devices ts) (fp ''tx'') = Some \<lparr>td_alias = ''tx'', td_trusted_at = ''now''\<rparr> \<and> fs_ok g
    \<and> fs_read g ''/config/trusted.json'' = Some (js_trusted js (ts_devices ts))
    \<and> (\<forall>x. x \<noteq> ''/config/trusted.json'' \<longrightarrow> fs_read g x = fs_read f x)"
proof -
  let ?p = "\<lparr>pr_info = tx_info (fp ''tx''), pr_files = files\<rparr>" and ?sn = "start_receiver fp js (Answer True)"
  let ?ts = "ts_insert (rv_trust (rx_state f)) (fp ''tx'') ''tx'' ''now''"
  have path: "ts_path ?ts = ''/config/trusted.json''" by (simp add: ts_insert_def)
  obtain b g where w: "fs_write_file W_ok f (ts_path ?ts) (js_trusted js (ts_devices ?ts)) = (b, g)" by fastforce
  then have b: "b" using fs_write_file_ok by (metis fst_conv)
  have info: "pi_fingerprint (pr_info ?p) = fp ''tx''" "pi_alias (pr_info ?p) = ''tx''" by (simp_all add: tx_info_def)
  have add: "ts_add (js_trusted js) (Some ''now'') True W_ok (fp ''tx'') ''tx'' (rv_trust (rx_state f)) f = (Inr (), ?ts, g)"
  proof -
    have "\<not> ts_contains (rv_trust (rx_state f)) (fp ''tx'')" by (simp add: ts_contains_def)
    then show ?thesis
      unfolding ts_add_def ts_save_def ts_insert_def [symmetric] using w b by (simp only: if_False option.case Let_def prod.case if_True simp_thms)
  qed
  have parse: "prepare_parse (js_request_of js) (Some (js_request js ?p)) = Inr ?p"
    using assms(1,2) by (simp add: prepare_parse_def json_ok_def)
  have env: "sn_prepare ?sn = \<lparr>pe_approval = Answer True, pe_now = Some ''now'', pe_mkdir = True, pe_write = W_ok,
      pe_sid = ''5e55'', pe_tok = (\<lambda>fid. ''70'' @ fid)\<rparr>"
    by (simp add: start_receiver_def)
  have "handle_prepare (js_request_of js) (js_trusted js) (sn_prepare ?sn) (Some (js_request js ?p)) (Idle, rv_trust (rx_state f), f)
      = (prepare_response (test_session fp files), Some (prepare_request (rv_trust (rx_state f)) ?p),
         Sending (test_session fp files), ?ts, g)"
    unfolding handle_prepare_def Let_def prod.case parse sum.case prepare_claim_def rstate.case approval_refusal_def env
      prepare_env.simps approval.case bool.case if_True option.case info add test_session_def ..
  from test_serves [OF this] obtain sd where
    sd: "prepares fp ?sn (sender_for fp) files (rx_state f) = (told_answer js (prepare_response (test_session fp files)), sd,
      (rx_state f)\<lparr>rv_state := Sending (test_session fp files), rv_trust := ?ts, rv_fs := g\<rparr>)" "paired ?sn fp (\<lambda>_. True) sd"
    by blast
  have told: "told_answer js (prepare_response (test_session fp files)) = Inr (test_answer files)"
    using assms(1) by (simp add: told_answer_def prepare_response_def json_def reply_text_def json_ok_def test_session_def
        test_answer_def new_session_def)
  have known: "hm_get (ts_devices ?ts) (fp ''tx'') = Some \<lparr>td_alias = ''tx'', td_trusted_at = ''now''\<rparr>"
    by (simp add: ts_insert_def)
  note files = fs_write_file_fs_ok [OF assms(3) w] fs_write_file_read [OF w [unfolded path]]
  have others: "\<forall>x. x \<noteq> ''/config/trusted.json'' \<longrightarrow> fs_read g x = fs_read f x"
    using fs_write_file_read_other [OF assms(3) w] path by metis
  show ?thesis
    by (rule exI [of _ sd], rule exI [of _ ?ts], rule exI [of _ g]) (intro conjI sd(1) [unfolded told] sd(2) known files others)
qed

section \<open>The tests\<close>

text \<open>A refusal is 403, and the sender says so.\<close>

theorem reject_returns_403:
  assumes "json_ok js"
  shows "\<exists>sd. prepares fp (start_receiver fp js (Answer False)) (sender_for fp) (fmupd ''f1'' (meta_of ''x'' ''x'') fmempty) (rx_state f)
      = (Inl (Bad_reply msg_rejected), sd, rx_state f)
    \<and> contains_str msg_rejected (utf8 [0xAC70, 0xC808])"
  using test_refused [OF assms, of "Answer False" "status 403" "fmupd ''f1'' (meta_of ''x'' ''x'') fmempty"] message_parts(1)
  by (simp add: approval_refusal_def status_def status_message_def)

text \<open>An answer that does not come in time is 408.\<close>

theorem approval_timeout_returns_408:
  assumes "json_ok js"
  shows "\<exists>sd. prepares fp (start_receiver fp js Timed_out) (sender_for fp) (fmupd ''f1'' (meta_of ''x'' ''x'') fmempty) (rx_state f)
      = (Inl (Bad_reply msg_timeout), sd, rx_state f)
    \<and> contains_str msg_timeout (utf8 [0xCD08, 0xACFC])"
  using test_refused [OF assms, of Timed_out "status 408" "fmupd ''f1'' (meta_of ''x'' ''x'') fmempty"] message_parts(2)
  by (simp add: approval_refusal_def status_def status_message_def)

text \<open>An invalid token is 404, and so is an upload after the session was cancelled.\<close>

lemma test_check:
  assumes "hm_get files fid = Some meta" and "fid |\<notin>| R"
  shows "check_upload (Sending ((test_session fp files)\<lparr>s_received := R\<rparr>)) ''5e55'' fid (''70'' @ fid) = Upload_accepted meta ''tx''"
    and "token \<noteq> ''70'' @ fid \<Longrightarrow> check_upload (Sending (test_session fp files)) sid fid token = Upload_refused"
  using assms by (auto simp: check_upload_def test_session_def new_session_def tx_info_def)

lemma test_cancel: "handle_cancel (strip_prefix ''?'' (cancel_query ''5e55'')) (Sending (test_session fp files)) = Some (status 200, Idle)"
proof -
  obtain m where "query_map (strip_prefix ''?'' (cancel_query ''5e55'')) = Some m" "param_or_default m ''sessionId'' = ''5e55''"
    using cancel_params_query [OF plain_text_safe [OF test_texts(1)]] by blast
  then show ?thesis by (simp add: handle_cancel_def cancel_session_def test_session_def new_session_def)
qed

lemma not_found_part: "contains_str (status_message 404) ''404''"
proof -
  have "status_message 404 = msg_peer_error @ ''404'' @ '')''"
    by (simp add: status_message_def dec_string.simps digit_char_def char_of_eq_byte)
  then show ?thesis unfolding contains_str_iff by metis
qed

theorem invalid_token_and_cancelled_session_return_404:
  assumes "json_ok js" and "fs_ok f"
  shows "\<exists>sd1 sd2 sd3 sd4 rv1 rv3. let sn = start_receiver fp js (Answer True); files = fmupd ''f1'' (meta_of ''x.bin'' ''payload'') fmempty in
      prepares fp sn (sender_for fp) files (rx_state f) = (Inr (test_answer files), sd1, rv1)
    \<and> uploads fp sn sd1 ''5e55'' ''f1'' ''wrong-token'' ''payload'' rv1 = (Inl (Bad_reply (status_message 404)), sd2, rv1)
    \<and> loop_cancel sn fp (\<lambda>_. True) sd2 ''5e55'' rv1 = ((), sd3, rv3)
    \<and> uploads fp sn sd3 ''5e55'' ''f1'' ''70f1'' ''payload'' rv3 = (Inl (Bad_reply (status_message 404)), sd4, rv3)
    \<and> rv_state rv3 = Idle \<and> contains_str (status_message 404) ''404''"
proof -
  let ?sn = "start_receiver fp js (Answer True)" and ?files = "fmupd ''f1'' (meta_of ''x.bin'' ''payload'') fmempty"
  have ne: "fmdom' ?files \<noteq> {}" by simp
  obtain sd1 ts g where 1: "prepares fp ?sn (sender_for fp) ?files (rx_state f) = (Inr (test_answer ?files), sd1,
      (rx_state f)\<lparr>rv_state := Sending (test_session fp ?files), rv_trust := ts, rv_fs := g\<rparr>)" and p1: "paired ?sn fp (\<lambda>_. True) sd1"
    using test_granted [OF assms(1) ne assms(2), of fp] by blast
  let ?rv1 = "(rx_state f)\<lparr>rv_state := Sending (test_session fp ?files), rv_trust := ts, rv_fs := g\<rparr>"
  have "check_upload (rv_state ?rv1) ''5e55'' ''f1'' ''wrong-token'' = Upload_refused"
    using test_check(2) [of ?files "''f1''" "meta_of ''x.bin'' ''payload''" "{||}" "''wrong-token''" fp "''5e55''"] by simp
  from loop_upload_refused [OF p1 test_texts(1,2,6) this] obtain sd2 where
    2: "uploads fp ?sn sd1 ''5e55'' ''f1'' ''wrong-token'' ''payload'' ?rv1 = (Inl (Bad_reply (status_message 404)), sd2, ?rv1)"
    and p2: "paired ?sn fp (\<lambda>_. True) sd2" by blast
  have "handle_cancel (strip_prefix ''?'' (cancel_query ''5e55'')) (rv_state ?rv1) = Some (status 200, Idle)"
    using test_cancel by simp
  from loop_cancel_serves [OF p2 test_texts(1) this] obtain sd3 where
    3: "loop_cancel ?sn fp (\<lambda>_. True) sd2 ''5e55'' ?rv1 = ((), sd3, ?rv1\<lparr>rv_state := Idle\<rparr>)" and p3: "paired ?sn fp (\<lambda>_. True) sd3"
    by blast
  have "check_upload (rv_state (?rv1\<lparr>rv_state := Idle\<rparr>)) ''5e55'' ''f1'' ''70f1'' = Upload_refused" by (simp add: check_upload_def)
  from loop_upload_refused [OF p3 test_texts(1,2,4) this] obtain sd4 where
    4: "uploads fp ?sn sd3 ''5e55'' ''f1'' ''70f1'' ''payload'' (?rv1\<lparr>rv_state := Idle\<rparr>) =
      (Inl (Bad_reply (status_message 404)), sd4, ?rv1\<lparr>rv_state := Idle\<rparr>)" by blast
  have "rv_state (?rv1\<lparr>rv_state := Idle\<rparr>) = Idle" by simp
  with 1 2 3 4 not_found_part show ?thesis unfolding Let_def by blast
qed

text \<open>A certificate with another fingerprint than the announced one: no request reaches the receiver.\<close>

theorem fingerprint_mismatch_aborts_connection:
  assumes "wrong_fp \<noteq> fp ''rx''"
  shows "\<exists>e sd. prepares fp (start_receiver fp js (Answer True)) (sender_new rx_addr wrong_fp (tx_info wrong_fp)) files (rx_state f)
    = (Inl e, sd, rx_state f)"
  using assms
  by (simp add: loop_prepare_def talk_def prepare_upload_def sender_request_def client_request_def connect_def receiver_end_def
      start_receiver_def verify_server_cert_def sender_new_def client_for_def verifier_for_def Let_def split: option.split)

text \<open>
  A second request while the user is still asked about the first: it is refused as busy, and the
  first one is granted all the same.
\<close>

theorem concurrent_prepare_returns_409:
  assumes "json_ok js" and "fmdom' files \<noteq> {}"
    and body: "body = Some (js_request js \<lparr>pr_info = tx_info (fp ''tx''), pr_files = files\<rparr>)"
  shows "\<exists>s. exec_all (js_request_of js) (js_trusted js) cfg (server_init (rv_trust (rx_state f)) f)
      [E_prepare 0 body, E_ask 0, E_prepare 1 body, E_answer 0 (Answer True), E_trust 0 (Some ''now'') True W_ok,
       E_open 0 ''5e55'' (\<lambda>fid. ''70'' @ fid)] = Some s
    \<and> sv_tasks s 1 = Some (T_done (status 409)) \<and> told_answer js (status 409) = Inl (Bad_reply msg_busy)
    \<and> contains_str msg_busy (utf8 [98, 117, 115, 121])
    \<and> sv_tasks s 0 = Some (T_done (prepare_response (test_session fp files)))
    \<and> told_answer js (prepare_response (test_session fp files)) = Inr (test_answer files)"
proof -
  have parse: "prepare_parse (js_request_of js) body = Inr \<lparr>pr_info = tx_info (fp ''tx''), pr_files = files\<rparr>"
    using assms(1,2) by (simp add: prepare_parse_def body json_ok_def)
  have "told_answer js (prepare_response (test_session fp files)) = Inr (test_answer files)"
    using assms(1) by (simp add: told_answer_def prepare_response_def json_def reply_text_def json_ok_def test_session_def
        test_answer_def new_session_def)
  moreover have "told_answer js (status 409) = Inl (Bad_reply msg_busy)"
    by (simp add: told_answer_def status_def status_message_def)
  ultimately show ?thesis
    using message_parts(3)
    by (simp add: parse on_prepare_def on_ask_def on_answer_def on_trust_def on_open_def new_task_def prepare_claim_def
        approval_refusal_def test_session_def Let_def split: prod.split)
qed

text \<open>
  The normal path: two files, uploaded one after the other. The first has a name that is taken in
  the save folder and gets a number; both have the bytes that were sent; the trust list on disk
  has the sender.
\<close>

lemma test_names:
  "save_name (meta_of ''a.bin'' content) = ''a.bin''" "save_name (meta_of ''b.txt'' content) = ''b.txt''"
proof -
  have "from_utf8_lossy ''a.bin'' = ''a.bin''" "from_utf8_lossy ''b.txt'' = ''b.txt''" by code_simp+
  then show "save_name (meta_of ''a.bin'' content) = ''a.bin''" "save_name (meta_of ''b.txt'' content) = ''b.txt''"
    by (simp_all add: save_name_def file_name_def path_components_def meta_of_def)
qed

lemma test_paths:
  "fs_exists f ''/save/a.bin'' \<Longrightarrow> \<not> fs_exists f ''/save/a (1).bin'' \<Longrightarrow> resolve_collision f ''/save'' ''a.bin'' = ''/save/a (1).bin''"
  "\<not> fs_exists f ''/save/b.txt'' \<Longrightarrow> resolve_collision f ''/save'' ''b.txt'' = ''/save/b.txt''"
proof -
  have st: "split_stem ''a.bin'' = (''a'', ''.bin'')" "split_stem ''b.txt'' = (''b'', ''.txt'')" by code_simp+
  have "numbered ''/save'' ''a'' ''.bin'' 1 = ''/save/a (1).bin''" by code_simp
  with st show "fs_exists f ''/save/a.bin'' \<Longrightarrow> \<not> fs_exists f ''/save/a (1).bin'' \<Longrightarrow>
      resolve_collision f ''/save'' ''a.bin'' = ''/save/a (1).bin''"
    "\<not> fs_exists f ''/save/b.txt'' \<Longrightarrow> resolve_collision f ''/save'' ''b.txt'' = ''/save/b.txt''"
    by (simp_all add: resolve_collision_def find_free.simps path_join_def)
qed

definition two_metas :: "string \<Rightarrow> string \<Rightarrow> (string, file_meta) hash_map" where
  "two_metas a b = fmupd ''f2'' (meta_of ''b.txt'' b) (fmupd ''f1'' (meta_of ''a.bin'' a) fmempty)"

lemma test_commits:
  "upload_commit ''f1'' (Sending (test_session fp (two_metas a b))) =
    Sending ((test_session fp (two_metas a b))\<lparr>s_received := {|''f1''|}\<rparr>)"
  "upload_commit ''f2'' (Sending ((test_session fp (two_metas a b))\<lparr>s_received := {|''f1''|}\<rparr>)) = Idle"
  by (simp_all add: upload_commit_Sending test_session_def new_session_def two_metas_def fcard.rep_eq)

lemma test_upload:
  assumes "paired (start_receiver fp js ap) fp (\<lambda>_. True) sd" and "rv_state rv = Sending ((test_session fp files)\<lparr>s_received := R\<rparr>)"
    and "hm_get files fid = Some (meta_of name content)" and "fid |\<notin>| R" and "plain_text fid" and "plain_text (''70'' @ fid)"
    and "arrives [content] env" and "fs_ok (rv_fs rv)"
    and "target = resolve_collision (rv_fs rv) ''/save'' (save_name (meta_of name content))"
  shows "\<exists>sd' g. uploads fp ((start_receiver fp js ap)\<lparr>sn_upload := env\<rparr>) sd ''5e55'' fid (''70'' @ fid) content rv = (Inr (), sd',
      rv\<lparr>rv_state := upload_commit fid (rv_state rv), rv_fs := g, rv_saved := rv_saved rv @ [\<lparr>sf_path = target, sf_from = ''tx''\<rparr>]\<rparr>)
    \<and> paired (start_receiver fp js ap) fp (\<lambda>_. True) sd' \<and> fs_ok g \<and> fs_read g target = Some content
    \<and> (\<forall>q. q \<noteq> target \<longrightarrow> fs_read g q = fs_read (rv_fs rv) q)"
proof -
  let ?sn = "(start_receiver fp js ap)\<lparr>sn_upload := env\<rparr>"
  have p: "paired ?sn fp (\<lambda>_. True) sd" using assms(1) by (simp add: paired_body)
  have c: "check_upload (rv_state rv) ''5e55'' fid (''70'' @ fid) = Upload_accepted (meta_of name content) ''tx''"
    unfolding assms(2) by (rule test_check(1) [OF assms(3,4)])
  have a: "arrives [content] (sn_upload ?sn)" and n: "of_nat (length (concat [content])) = fm_size (meta_of name content)"
    and t: "target = resolve_collision (rv_fs rv) (rc_save_dir (sn_config ?sn)) (save_name (meta_of name content))"
    using assms(7,9) by (simp_all add: meta_of_def)
  from loop_upload_saves [OF p test_texts(1) assms(5,6) c a n assms(8) t] show ?thesis
    by (simp add: paired_body) blast
qed

theorem approve_two_files_saves_bytes_and_records_trust:
  assumes "json_ok js" and "fs_ok f" and "fs_read f ''/save/a.bin'' = Some ''pre-existing''"
    and "fs_read f ''/save/a (1).bin'' = None" and "fs_read f ''/save/b.txt'' = None"
    and "arrives [a] env_a" and "arrives [b] env_b"
  shows "\<exists>sd1 sd2 sd3 rv1 rv2 rv3. let sn = start_receiver fp js (Answer True) in
      prepares fp sn (sender_for fp) (two_metas a b) (rx_state f) = (Inr (test_answer (two_metas a b)), sd1, rv1)
    \<and> uploads fp (sn\<lparr>sn_upload := env_a\<rparr>) sd1 ''5e55'' ''f1'' ''70f1'' a rv1 = (Inr (), sd2, rv2)
    \<and> uploads fp (sn\<lparr>sn_upload := env_b\<rparr>) sd2 ''5e55'' ''f2'' ''70f2'' b rv2 = (Inr (), sd3, rv3)
    \<and> rv_state rv3 = Idle
    \<and> fs_read (rv_fs rv3) ''/save/a (1).bin'' = Some a \<and> fs_read (rv_fs rv3) ''/save/b.txt'' = Some b
    \<and> fs_read (rv_fs rv3) ''/save/a.bin'' = Some ''pre-existing''
    \<and> fs_read (rv_fs rv3) ''/config/trusted.json'' = Some (js_trusted js (ts_devices (rv_trust rv3)))
    \<and> hm_get (ts_devices (rv_trust rv3)) (fp ''tx'') = Some \<lparr>td_alias = ''tx'', td_trusted_at = ''now''\<rparr>"
proof -
  let ?sn = "start_receiver fp js (Answer True)" and ?files = "two_metas a b"
  let ?s = "test_session fp ?files"
  have ne: "fmdom' ?files \<noteq> {}" by (simp add: two_metas_def)
  have m: "hm_get ?files ''f1'' = Some (meta_of ''a.bin'' a)" "hm_get ?files ''f2'' = Some (meta_of ''b.txt'' b)"
    by (simp_all add: two_metas_def)
  obtain sd1 ts g where 1: "prepares fp ?sn (sender_for fp) ?files (rx_state f) = (Inr (test_answer ?files), sd1,
      (rx_state f)\<lparr>rv_state := Sending ?s, rv_trust := ts, rv_fs := g\<rparr>)" and p1: "paired ?sn fp (\<lambda>_. True) sd1"
    and known: "hm_get (ts_devices ts) (fp ''tx'') = Some \<lparr>td_alias = ''tx'', td_trusted_at = ''now''\<rparr>" and g: "fs_ok g"
      "fs_read g ''/config/trusted.json'' = Some (js_trusted js (ts_devices ts))"
      "\<forall>x. x \<noteq> ''/config/trusted.json'' \<longrightarrow> fs_read g x = fs_read f x"
    using test_granted [OF assms(1) ne assms(2), of fp] by blast
  let ?rv1 = "(rx_state f)\<lparr>rv_state := Sending ?s, rv_trust := ts, rv_fs := g\<rparr>"
  have gs: "fs_read g ''/save/a.bin'' = Some ''pre-existing''" "fs_read g ''/save/a (1).bin'' = None" "fs_read g ''/save/b.txt'' = None"
    using g(3) assms(3-5) by simp_all
  have rv1: "rv_state ?rv1 = Sending (?s\<lparr>s_received := {||}\<rparr>)" by (simp add: test_session_def new_session_def)
  have t1: "''/save/a (1).bin'' = resolve_collision (rv_fs ?rv1) ''/save'' (save_name (meta_of ''a.bin'' a))"
    using test_paths(1) [of g] gs by (simp add: test_names fs_exists_read)
  obtain sd2 g2 where 2: "uploads fp (?sn\<lparr>sn_upload := env_a\<rparr>) sd1 ''5e55'' ''f1'' ''70f1'' a ?rv1 = (Inr (), sd2,
      ?rv1\<lparr>rv_state := Sending (?s\<lparr>s_received := {|''f1''|}\<rparr>), rv_fs := g2,
        rv_saved := [\<lparr>sf_path = ''/save/a (1).bin'', sf_from = ''tx''\<rparr>]\<rparr>)" and p2: "paired ?sn fp (\<lambda>_. True) sd2"
    and g2: "fs_ok g2" "fs_read g2 ''/save/a (1).bin'' = Some a" "\<forall>q. q \<noteq> ''/save/a (1).bin'' \<longrightarrow> fs_read g2 q = fs_read g q"
    using test_upload [OF p1 rv1 m(1) _ test_texts(2) _ assms(6) _ t1] test_texts(4) g(1) test_commits(1) by auto
  let ?rv2 = "?rv1\<lparr>rv_state := Sending (?s\<lparr>s_received := {|''f1''|}\<rparr>), rv_fs := g2,
        rv_saved := [\<lparr>sf_path = ''/save/a (1).bin'', sf_from = ''tx''\<rparr>]\<rparr>"
  have rv2: "rv_state ?rv2 = Sending (?s\<lparr>s_received := {|''f1''|}\<rparr>)" by simp
  have t2: "''/save/b.txt'' = resolve_collision (rv_fs ?rv2) ''/save'' (save_name (meta_of ''b.txt'' b))"
    using test_paths(2) [of g2] gs(3) g2(3) by (simp add: test_names fs_exists_read)
  obtain sd3 g3 where 3: "uploads fp (?sn\<lparr>sn_upload := env_b\<rparr>) sd2 ''5e55'' ''f2'' ''70f2'' b ?rv2 = (Inr (), sd3,
      ?rv2\<lparr>rv_state := Idle, rv_fs := g3, rv_saved := rv_saved ?rv2 @ [\<lparr>sf_path = ''/save/b.txt'', sf_from = ''tx''\<rparr>]\<rparr>)"
    and g3: "fs_read g3 ''/save/b.txt'' = Some b" "\<forall>q. q \<noteq> ''/save/b.txt'' \<longrightarrow> fs_read g3 q = fs_read g2 q"
    using test_upload [OF p2 rv2 m(2) _ test_texts(3) _ assms(7) _ t2] test_texts(5) g2(1) test_commits(2) by auto
  have "fs_read g3 ''/save/a (1).bin'' = Some a" "fs_read g3 ''/save/a.bin'' = Some ''pre-existing''"
      "fs_read g3 ''/config/trusted.json'' = Some (js_trusted js (ts_devices ts))"
    using g3(2) g2(2,3) gs(1) g(2) by simp_all
  with 1 2 3 g3(1) known show ?thesis unfolding Let_def by (intro exI conjI) (assumption | simp)+
qed

end
