(* ===== verification/Examples_Loop.thy ===== *)
theory Examples_Loop
  imports Protocol_Flow Examples
begin

text \<open>
  Concrete runs of sender and receiver together: two files, a receiver that has nothing yet, and
  JSON as far as these two need it.
\<close>

section \<open>Two files\<close>

text \<open>Two files of two bytes each, and a receiver that has nothing yet.\<close>

definition two_files :: "(string \<times> string \<times> file_meta) list" where
  "two_files = (case collect_items (\<lambda>_. Some 2) 0 [''/a'', ''/b/a''] of Inr items \<Rightarrow> items | Inl _ \<Rightarrow> [])"

definition hex_lower :: "string \<Rightarrow> string" where
  "hex_lower b = concat (map (\<lambda>c. [''0123456789abcdef'' ! (byte c div 16), ''0123456789abcdef'' ! (byte c mod 16)]) b)"

lemma hex_lower_text: "set (hex_lower b) \<subseteq> set ''0123456789abcdef'' \<and> length (hex_lower b) = 2 * length b"
proof (induction b)
  case (Cons c b)
  have "byte c div 16 < 16" "byte c mod 16 < 16" using byte_lt [of c] by (simp_all add: less_mult_imp_div_less)
  moreover have "length ''0123456789abcdef'' = 16" by simp
  ultimately have "byte c div 16 < length ''0123456789abcdef''" "byte c mod 16 < length ''0123456789abcdef''" by argo+
  then have "{''0123456789abcdef'' ! (byte c div 16), ''0123456789abcdef'' ! (byte c mod 16)} \<subseteq> set ''0123456789abcdef''"
    using nth_mem by blast
  with Cons show ?case unfolding hex_lower_def by simp
qed (simp add: hex_lower_def)

definition random_env :: prepare_env where
  "random_env = (some_env (Answer True))\<lparr>pe_sid := random_hex16 hex_lower ''ABCDEFGHIJKLMNOP'',
     pe_tok := (\<lambda>_. random_hex16 hex_lower ''abcdefghijklmnop'')\<rparr>"

theorem transfer_end_to_end_witness:
  "\<exists>resp req st ts f1 session g saved.
      handle_prepare (\<lambda>_. Some \<lparr>pr_info = some_peer ''A'', pr_files = metas_of two_files\<rparr>) (\<lambda>_. ''j'') random_env
        (Some ''b'') (Idle, \<lparr>ts_path = ''/c/t'', ts_devices = fmempty\<rparr>, fs_empty) = (resp, Some req, st, ts, f1)
    \<and> upload_all some_config (upload_requests session two_files [good_body, good_body]) (st, f1, [])
        = Some ([status 200, status 200], Idle, g, saved)
    \<and> map (\<lambda>sf. fs_read g (sf_path sf)) saved = [Some ''hi'', Some ''hi'']"
proof -
  let ?parse = "\<lambda>_. Some \<lparr>pr_info = some_peer ''A'', pr_files = metas_of two_files\<rparr>"
  have items: "collect_items (\<lambda>_. Some 2) 0 [''/a'', ''/b/a''] = Inr two_files"
    and sizes: "map (\<lambda>(fid, path, meta). fm_size meta) two_files = [2, 2]"
    by (simp_all add: two_files_def)
  have body: "body_bytes (ue_frames good_body) = ''hi''" by (simp add: good_body_def)
  have fit: "list_all2 (\<lambda>(fid, path, meta) e. fit_upload e meta) two_files [good_body, good_body]"
    by (simp add: two_files_def fit_upload_def good_body_def)
  have tok: "pe_tok random_env fid = random_hex16 hex_lower ''abcdefghijklmnop'' \<and> length ''abcdefghijklmnop'' = 16" for fid :: string
    by (simp add: random_env_def)
  have sid: "pe_sid random_env = random_hex16 hex_lower ''ABCDEFGHIJKLMNOP''" by (simp add: random_env_def)
  obtain resp req st ts f1 session g saved where
    h: "handle_prepare ?parse (\<lambda>_. ''j'') random_env (Some ''b'')
        (Idle, \<lparr>ts_path = ''/c/t'', ts_devices = fmempty\<rparr>, fs_empty) = (resp, Some req, st, ts, f1)"
    and u: "upload_all some_config (upload_requests session two_files [good_body, good_body]) (st, f1, [])
        = Some (replicate (length two_files) (status 200), Idle, g, [] @ saved)"
    and d: "list_all2 (delivered g (pi_alias (some_peer ''A''))) [good_body, good_body] saved"
    using transfer_end_to_end [OF items _ _ _ _ sid tok hex_lower_text fit fs_ok_empty, of ?parse "''b''" "some_peer ''A''" "\<lambda>_. ''j''"
        "\<lparr>ts_path = ''/c/t'', ts_devices = fmempty\<rparr>" some_config "[]"]
    by (auto simp: random_env_def some_env_def)
  have "length two_files = 2" using arg_cong [OF sizes, of length] by simp
  with u have u2: "upload_all some_config (upload_requests session two_files [good_body, good_body]) (st, f1, [])
        = Some ([status 200, status 200], Idle, g, saved)" by (simp add: numeral_2_eq_2)
  from d have "map (\<lambda>sf. fs_read g (sf_path sf)) saved = [Some ''hi'', Some ''hi'']"
    by (auto simp: list_all2_Cons1 delivered_def body)
  with h u2 show ?thesis by (intro exI conjI)
qed

section \<open>A receiver\<close>

definition some_json :: json_text where
  "some_json = \<lparr>js_request = (\<lambda>_. ''Q''), js_request_of = (\<lambda>_. Some \<lparr>pr_info = some_peer ''S'', pr_files = metas_of two_files\<rparr>),
     js_answer = (\<lambda>_. ''R''), js_answer_of = (\<lambda>_. Some \<lparr>ps_session_id = pe_sid random_env,
       ps_tokens = fmmap_keys (\<lambda>fid _. pe_tok random_env fid) (metas_of two_files)\<rparr>),
     js_info = (\<lambda>_. ''I''), js_trusted = (\<lambda>_. ''j'')\<rparr>"

definition some_station :: "prepare_env \<Rightarrow> station" where
  "some_station env = \<lparr>sn_json = some_json, sn_config = some_config, sn_cert = ''F'', sn_addr = ''1:7'', sn_prepare = env,
     sn_upload = good_body\<rparr>"

definition some_receiver :: receiver where
  "some_receiver = \<lparr>rv_state = Idle, rv_trust = \<lparr>ts_path = ''/c/t'', ts_devices = fmempty\<rparr>, rv_fs = fs_empty, rv_saved = []\<rparr>"

lemma some_paired: "paired (some_station env) (\<lambda>c. c) (\<lambda>_. True) (sender_new ''1:7'' ''F'' (some_peer ''S''))"
  by (simp add: paired_def some_station_def sender_new_def client_for_def verifier_for_def)

lemma some_json_reads:
  "js_request_of some_json (js_request some_json \<lparr>pr_info = some_peer ''S'', pr_files = metas_of two_files\<rparr>)
    = Some \<lparr>pr_info = some_peer ''S'', pr_files = metas_of two_files\<rparr>"
  "js_answer_of some_json (js_answer some_json (answer_to (some_station (random_env\<lparr>pe_approval := a\<rparr>)) (metas_of two_files)))
    = Some (answer_to (some_station (random_env\<lparr>pe_approval := a\<rparr>)) (metas_of two_files))"
  by (simp_all add: some_json_def answer_to_def some_station_def)

theorem sender_told_decision_witness:
  "\<exists>sd'. loop_prepare (some_station (random_env\<lparr>pe_approval := Answer False\<rparr>)) (\<lambda>c. c) (\<lambda>_. True)
      (sender_new ''1:7'' ''F'' (some_peer ''S'')) (metas_of two_files) some_receiver
    = (Inl (Bad_reply msg_rejected), sd', some_receiver)"
proof -
  let ?sn = "some_station (random_env\<lparr>pe_approval := Answer False\<rparr>)" and ?sd = "sender_new ''1:7'' ''F'' (some_peer ''S'')"
  obtain r sd' rv' where l: "loop_prepare ?sn (\<lambda>c. c) (\<lambda>_. True) ?sd (metas_of two_files) some_receiver = (r, sd', rv')"
    by (metis prod_cases3)
  have sn: "sn_json ?sn = some_json" "pe_approval (sn_prepare ?sn) = Answer False" and sd: "sd_self_info ?sd = some_peer ''S''"
    by (simp_all add: some_station_def sender_new_def)
  have ne: "fmdom' (metas_of two_files) \<noteq> {}" by (simp add: two_files_def metas_of_def)
  have "r = Inl (Bad_reply msg_rejected) \<and> rv' = some_receiver"
    using sender_told_decision [OF some_paired ne _ _ l] some_json_reads sn sd by (simp add: some_receiver_def)
  with l show ?thesis by simp
qed

end
